theory Spec2Isabelle
  imports Main "HOL-Library.Word"
begin

text \<open>
  A model of \<open>makeServer.go\<close> (configuration loading, server construction, encoder
  registration, the interactive command loop) and of the audit logger that is kept in the
  same source file, followed by the properties proved about them. Go strings are byte
  strings, so they are modelled by \<open>string\<close>; functions of the Go standard library are
  modelled next to the code that calls them, each with the behaviour its package
  documents.
\<close>

section \<open>Errors\<close>

text \<open>
  The error values that can reach this code. \<open>PathError op path cause\<close> is what package
  \<open>os\<close> returns; \<open>SyntaxError\<close>, \<open>UnmarshalTypeError\<close>, \<open>EOF\<close> (\<open>io.EOF\<close>, input with no
  value in it) and \<open>ErrUnexpectedEOF\<close> (\<open>io.ErrUnexpectedEOF\<close>, input that ends inside a
  value) come from the JSON decoder; \<open>ServerError msg\<close> stands for an error returned by a
  method of the file server or by a reader it hands out, known here only by its message.
\<close>

datatype error =
    PathError string string string
  | SyntaxError
  | UnmarshalTypeError
  | EOF
  | ErrUnexpectedEOF
  | ServerError string

fun errorText :: "error \<Rightarrow> string" where
  "errorText (PathError opn path cause) = opn @ '' '' @ path @ '': '' @ cause"
| "errorText SyntaxError = ''invalid character in JSON input''"
| "errorText UnmarshalTypeError = ''json: cannot unmarshal value into Go value''"
| "errorText EOF = ''EOF''"
| "errorText ErrUnexpectedEOF = ''unexpected EOF''"
| "errorText (ServerError msg) = msg"

section \<open>Library functions on strings\<close>

text \<open>
  \<open>strings.ReplaceAll(s, old, new)\<close>: every non-overlapping occurrence of \<open>old\<close> in \<open>s\<close>,
  found from the left, is replaced by \<open>new\<close>. The counter of \<open>replaceFrom\<close> is the number
  of bytes of the current occurrence that are still to be skipped. (With an empty \<open>old\<close>
  Go inserts \<open>new\<close> before every character and at the end; the code never does that,
  and the model does it bytewise.)
\<close>

fun isPrefix :: "string \<Rightarrow> string \<Rightarrow> bool" where
  "isPrefix [] s = True"
| "isPrefix (p # ps) [] = False"
| "isPrefix (p # ps) (c # cs) = (p = c \<and> isPrefix ps cs)"

fun replaceFrom :: "nat \<Rightarrow> string \<Rightarrow> string \<Rightarrow> string \<Rightarrow> string" where
  "replaceFrom k old new [] = []"
| "replaceFrom (Suc k) old new (c # cs) = replaceFrom k old new cs"
| "replaceFrom 0 old new (c # cs) =
     (if isPrefix old (c # cs) then new @ replaceFrom (length old - 1) old new cs
      else c # replaceFrom 0 old new cs)"

definition ReplaceAll :: "string \<Rightarrow> string \<Rightarrow> string \<Rightarrow> string" where
  "ReplaceAll s old new =
     (if old = [] then new @ concat (map (\<lambda>c. c # new) s) else replaceFrom 0 old new s)"

section \<open>Files (package os)\<close>

text \<open>
  Persistent storage as the process sees it: the regular files with their contents, and
  the paths it may not open or create (no permission, a directory in the way, a missing
  parent directory).
\<close>

record FileSystem =
  contents :: "string \<rightharpoonup> string"
  denied :: "string \<Rightarrow> bool"

datatype openFlag = O_RDONLY | O_WRONLY | O_RDWR | O_APPEND | O_CREATE | O_EXCL | O_TRUNC

text \<open>
  An open file (\<open>*os.File\<close>): its name, what it was opened for, the offset of the next
  read or write, and whether it has been closed.
\<close>

record File =
  fileName :: string
  canRead :: bool
  canWrite :: bool
  appendMode :: bool
  position :: nat
  isClosed :: bool

definition newFile :: "string \<Rightarrow> openFlag list \<Rightarrow> File" where
  "newFile name flags =
     \<lparr>fileName = name,
      canRead = (O_WRONLY \<notin> set flags),
      canWrite = (O_WRONLY \<in> set flags \<or> O_RDWR \<in> set flags),
      appendMode = (O_APPEND \<in> set flags),
      position = 0,
      isClosed = False\<rparr>"

text \<open>
  \<open>os.OpenFile(name, flag, perm)\<close>: a missing file is created empty when \<open>O_CREATE\<close> is
  given and is an error otherwise; an existing file keeps its contents unless \<open>O_TRUNC\<close>
  is given. The permission bits only matter for the mode of a created file, which is not
  modelled.
\<close>

definition os_OpenFile ::
  "FileSystem \<Rightarrow> string \<Rightarrow> openFlag list \<Rightarrow> nat \<Rightarrow> (error + File) \<times> FileSystem" where
  "os_OpenFile fs name flags perm =
     (if denied fs name then (Inl (PathError ''open'' name ''permission denied''), fs)
      else case contents fs name of
        None \<Rightarrow>
          if O_CREATE \<in> set flags
          then (Inr (newFile name flags), fs\<lparr>contents := (contents fs)(name \<mapsto> [])\<rparr>)
          else (Inl (PathError ''open'' name ''no such file or directory''), fs)
      | Some old \<Rightarrow>
          if O_CREATE \<in> set flags \<and> O_EXCL \<in> set flags
          then (Inl (PathError ''open'' name ''file exists''), fs)
          else if O_TRUNC \<in> set flags \<and> (O_WRONLY \<in> set flags \<or> O_RDWR \<in> set flags)
          then (Inr (newFile name flags), fs\<lparr>contents := (contents fs)(name \<mapsto> [])\<rparr>)
          else (Inr (newFile name flags), fs))"

text \<open>\<open>os.Open(name)\<close> is \<open>OpenFile(name, O_RDONLY, 0)\<close>; it never changes the storage.\<close>

definition os_Open :: "FileSystem \<Rightarrow> string \<Rightarrow> error + File" where
  "os_Open fs name = fst (os_OpenFile fs name [O_RDONLY] 0)"

text \<open>The bytes a reader of the open file gets, from its offset to the end.\<close>

definition fileBytes :: "FileSystem \<Rightarrow> File \<Rightarrow> string" where
  "fileBytes fs f =
     (case contents fs (fileName f) of None \<Rightarrow> [] | Some c \<Rightarrow> drop (position f) c)"

text \<open>
  \<open>f.WriteString(s)\<close>: fails on a closed file and on one not opened for writing; in
  append mode the bytes go to the end of the file, otherwise to the file's offset
  (a gap is filled with zero bytes). It returns the number of bytes written and the
  error, the file with its new offset, and the storage.
\<close>

definition WriteString ::
  "File \<Rightarrow> string \<Rightarrow> FileSystem \<Rightarrow> (nat \<times> error option) \<times> File \<times> FileSystem" where
  "WriteString f s fs =
     (if isClosed f
      then ((0, Some (PathError ''write'' (fileName f) ''file already closed'')), f, fs)
      else if \<not> canWrite f
      then ((0, Some (PathError ''write'' (fileName f) ''bad file descriptor'')), f, fs)
      else
        let old = (case contents fs (fileName f) of None \<Rightarrow> [] | Some c \<Rightarrow> c);
            pos = (if appendMode f then length old else position f);
            new = take pos old @ replicate (pos - length old) (CHR 0x00) @ s
                  @ drop (pos + length s) old
        in ((length s, None),
            f\<lparr>position := pos + length s\<rparr>,
            fs\<lparr>contents := (contents fs)(fileName f \<mapsto> new)\<rparr>))"

text \<open>\<open>f.Close()\<close>: an error on a file that is closed already.\<close>

definition File_Close :: "File \<Rightarrow> error option \<times> File" where
  "File_Close f =
     (if isClosed f then (Some (PathError ''close'' (fileName f) ''file already closed''), f)
      else (None, f\<lparr>isClosed := True\<rparr>))"

section \<open>Configuration (loadConfig)\<close>

record ServerConfig =
  Port :: string
  BootstrapNodes :: "string list"

text \<open>A JSON value as the decoder's scanner delivers it: object members in the order of the text.\<close>

datatype json =
    JNull
  | JBool bool
  | JNumber string
  | JString string
  | JArray "json list"
  | JObject "(string \<times> json) list"

text \<open>
  Package \<open>encoding/json\<close> matches an object key with a struct field by the field's
  name (here the tags \<open>port\<close> and \<open>peers\<close>), preferring an exact match and accepting a
  case-insensitive one. The case-insensitive comparison folds a name to upper case;
  besides the ASCII letters, the two letters outside ASCII that fold to an ASCII letter
  are the long s (U+017F, bytes C5 BF) and the Kelvin sign (U+212A, bytes E2 84 AA).
\<close>

definition upperASCII :: "char \<Rightarrow> char" where
  "upperASCII c =
     (case map_of (zip ''abcdefghijklmnopqrstuvwxyz'' ''ABCDEFGHIJKLMNOPQRSTUVWXYZ'') c of
        None \<Rightarrow> c
      | Some u \<Rightarrow> u)"

fun foldName :: "string \<Rightarrow> string" where
  "foldName (a # b # c # s) =
     (if a = CHR 0xE2 \<and> b = CHR 0x84 \<and> c = CHR 0xAA then CHR ''K'' # foldName s
      else if a = CHR 0xC5 \<and> b = CHR 0xBF then CHR ''S'' # foldName (c # s)
      else upperASCII a # foldName (b # c # s))"
| "foldName [a, b] =
     (if a = CHR 0xC5 \<and> b = CHR 0xBF then [CHR ''S''] else [upperASCII a, upperASCII b])"
| "foldName [a] = [upperASCII a]"
| "foldName [] = []"

datatype configField = PortField | PeersField

definition fieldFor :: "string \<Rightarrow> configField option" where
  "fieldFor key =
     (if key = ''port'' then Some PortField
      else if key = ''peers'' then Some PeersField
      else if foldName key = foldName ''port'' then Some PortField
      else if foldName key = foldName ''peers'' then Some PeersField
      else None)"

text \<open>
  Decoding a JSON value into a Go value that already holds \<open>cur\<close>, as the package does
  it: \<open>null\<close> has no effect on a string or a struct and sets a slice to \<open>nil\<close>; object keys
  without a field are ignored, and a key that occurs again is decoded again, into what
  the field holds by then; a value of the wrong kind is an \<open>UnmarshalTypeError\<close>. (The
  decoder goes on after such an error and returns the first one at the end; as
  \<open>loadConfig\<close> drops the configuration then, the model stops at the first.)
\<close>

fun decodeString :: "json \<Rightarrow> string \<Rightarrow> error + string" where
  "decodeString (JString s) cur = Inr s"
| "decodeString JNull cur = Inr cur"
| "decodeString j cur = Inl UnmarshalTypeError"

text \<open>
  A slice of strings as the decoder finds it in a field: the elements up to its length,
  and the elements of its array that lie beyond the length, left there by an earlier,
  longer value. Memory that was never written holds the empty string.
\<close>

record StringSlice =
  items :: "string list"
  spare :: "string list"

text \<open>
  A JSON array is decoded element by element into the elements of the array of the
  slice, the length of the slice growing as needed (a grown array keeps what it held and
  is zero beyond); so an element \<open>null\<close> leaves in place the string that the array holds at
  its index. \<open>decodeInto js arr\<close> decodes the elements \<open>js\<close> into the array elements \<open>arr\<close>
  from the first on.
\<close>

fun decodeInto :: "json list \<Rightarrow> string list \<Rightarrow> error + string list" where
  "decodeInto [] arr = Inr []"
| "decodeInto (j # js) arr =
     (case decodeString j (case arr of [] \<Rightarrow> [] | a # as \<Rightarrow> a) of
        Inl err \<Rightarrow> Inl err
      | Inr s \<Rightarrow> (case decodeInto js (tl arr) of Inl err \<Rightarrow> Inl err | Inr ss \<Rightarrow> Inr (s # ss)))"

text \<open>
  After the last element the slice is cut to the number of elements decoded; what the
  array holds beyond stays. An empty JSON array gives a new empty slice, \<open>null\<close> the
  \<open>nil\<close> slice.
\<close>

fun decodeStrings :: "json \<Rightarrow> StringSlice \<Rightarrow> error + StringSlice" where
  "decodeStrings (JArray js) cur =
     (if js = [] then Inr \<lparr>items = [], spare = []\<rparr>
      else case decodeInto js (items cur @ spare cur) of
             Inl err \<Rightarrow> Inl err
           | Inr ss \<Rightarrow> Inr \<lparr>items = ss, spare = drop (length js) (items cur @ spare cur)\<rparr>)"
| "decodeStrings JNull cur = Inr \<lparr>items = [], spare = []\<rparr>"
| "decodeStrings j cur = Inl UnmarshalTypeError"

text \<open>
  The members of an object, in the order of the text, decoded into a \<open>ServerConfig\<close>;
  next to the struct goes what the array of its \<open>BootstrapNodes\<close> holds beyond the length
  of the slice.
\<close>

fun decodeFields ::
  "(string \<times> json) list \<Rightarrow> ServerConfig \<times> string list \<Rightarrow> error + ServerConfig \<times> string list" where
  "decodeFields [] cur = Inr cur"
| "decodeFields ((key, v) # members) cur =
     (case fieldFor key of
        None \<Rightarrow> decodeFields members cur
      | Some PortField \<Rightarrow>
          (case decodeString v (Port (fst cur)) of
             Inl err \<Rightarrow> Inl err
           | Inr s \<Rightarrow> decodeFields members ((fst cur)\<lparr>Port := s\<rparr>, snd cur))
      | Some PeersField \<Rightarrow>
          (case decodeStrings v \<lparr>items = BootstrapNodes (fst cur), spare = snd cur\<rparr> of
             Inl err \<Rightarrow> Inl err
           | Inr ps \<Rightarrow> decodeFields members ((fst cur)\<lparr>BootstrapNodes := items ps\<rparr>, spare ps)))"

fun decodeServerConfig :: "json \<Rightarrow> ServerConfig \<Rightarrow> error + ServerConfig" where
  "decodeServerConfig (JObject members) cur =
     (case decodeFields members (cur, []) of Inl err \<Rightarrow> Inl err | Inr c \<Rightarrow> Inr (fst c))"
| "decodeServerConfig JNull cur = Inr cur"
| "decodeServerConfig j cur = Inl UnmarshalTypeError"

text \<open>
  The slice \<open>cfg\<close> is \<open>nil\<close> when the decoder gets it, so each element of the JSON array
  is decoded into a new, zero \<open>ServerConfig\<close>.
\<close>

fun decodeElements :: "(json \<Rightarrow> error + 'a) \<Rightarrow> json list \<Rightarrow> error + 'a list" where
  "decodeElements dec [] = Inr []"
| "decodeElements dec (j # js) =
     (case dec j of
        Inl err \<Rightarrow> Inl err
      | Inr x \<Rightarrow> (case decodeElements dec js of Inl err \<Rightarrow> Inl err | Inr xs \<Rightarrow> Inr (x # xs)))"

fun decodeServerConfigs :: "json \<Rightarrow> error + ServerConfig list" where
  "decodeServerConfigs (JArray js) =
     decodeElements (\<lambda>j. decodeServerConfig j \<lparr>Port = [], BootstrapNodes = []\<rparr>) js"
| "decodeServerConfigs JNull = Inr []"
| "decodeServerConfigs j = Inl UnmarshalTypeError"

text \<open>
  \<open>json.NewDecoder(file).Decode(&cfg)\<close> with \<open>cfg\<close> a nil \<open>[]ServerConfig\<close>. The scanner
  of the package, which reads the first JSON value of the input or reports why it cannot
  (\<open>SyntaxError\<close>, \<open>EOF\<close> on input without a value, \<open>ErrUnexpectedEOF\<close> on input that ends
  inside the value), is the parameter \<open>scan\<close>.
\<close>

definition json_Decode :: "(string \<Rightarrow> error + json) \<Rightarrow> string \<Rightarrow> error + ServerConfig list" where
  "json_Decode scan input =
     (case scan input of Inl err \<Rightarrow> Inl err | Inr j \<Rightarrow> decodeServerConfigs j)"

text \<open>
  \<open>loadConfig\<close>. The deferred \<open>file.Close()\<close> ends the life of a handle that nothing else
  holds.
\<close>

definition loadConfig ::
  "(string \<Rightarrow> error + json) \<Rightarrow> FileSystem \<Rightarrow> string \<Rightarrow> error + ServerConfig list" where
  "loadConfig scan fs path =
     (case os_Open fs path of
        Inl err \<Rightarrow> Inl err
      | Inr file \<Rightarrow>
          (case json_Decode scan (fileBytes fs file) of
             Inl err \<Rightarrow> Inl err
           | Inr cfg \<Rightarrow> Inr cfg))"

section \<open>Library functions used by the command loop\<close>

definition NL :: string where
  "NL = [CHR 0x0A]"

text \<open>
  \<open>strings.Fields\<close> splits around runs of white space as \<open>unicode.IsSpace\<close> defines it.
  \<open>spaceWidth s\<close> is the number of bytes of the white-space character that \<open>s\<close> starts
  with, 0 if it starts with none: the six ASCII ones, and in UTF-8 the characters U+0085,
  U+00A0, U+1680, U+2000 to U+200A, U+2028, U+2029, U+202F, U+205F and U+3000. The first
  byte of each is never a continuation byte, so matching bytes is matching characters.
\<close>

fun spaceWidth :: "string \<Rightarrow> nat" where
  "spaceWidth [] = 0"
| "spaceWidth (c # rest) =
     (if c \<in> set [CHR 0x09, CHR 0x0A, CHR 0x0B, CHR 0x0C, CHR 0x0D, CHR 0x20] then 1
      else if c = CHR 0xC2 \<and> (take 1 rest = [CHR 0x85] \<or> take 1 rest = [CHR 0xA0]) then 2
      else if c = CHR 0xE1 \<and> take 2 rest = [CHR 0x9A, CHR 0x80] then 3
      else if c = CHR 0xE2 \<and> take 1 rest = [CHR 0x80] \<and>
              take 1 (drop 1 rest) \<in> set [[CHR 0x80], [CHR 0x81], [CHR 0x82], [CHR 0x83],
                [CHR 0x84], [CHR 0x85], [CHR 0x86], [CHR 0x87], [CHR 0x88], [CHR 0x89],
                [CHR 0x8A], [CHR 0xA8], [CHR 0xA9], [CHR 0xAF]] then 3
      else if c = CHR 0xE2 \<and> take 2 rest = [CHR 0x81, CHR 0x9F] then 3
      else if c = CHR 0xE3 \<and> take 2 rest = [CHR 0x80, CHR 0x80] then 3
      else 0)"

text \<open>
  \<open>fieldsFrom k cur s\<close>: \<open>k\<close> bytes of a white-space character are still to be skipped,
  \<open>cur\<close> is the field read so far.
\<close>

fun fieldsFrom :: "nat \<Rightarrow> string \<Rightarrow> string \<Rightarrow> string list" where
  "fieldsFrom k cur [] = (if cur = [] then [] else [cur])"
| "fieldsFrom (Suc k) cur (c # cs) = fieldsFrom k cur cs"
| "fieldsFrom 0 cur (c # cs) =
     (let n = spaceWidth (c # cs)
      in if n = 0 then fieldsFrom 0 (cur @ [c]) cs
         else (if cur = [] then [] else [cur]) @ fieldsFrom (n - 1) [] cs)"

definition Fields :: "string \<Rightarrow> string list" where
  "Fields s = fieldsFrom 0 [] s"

text \<open>
  \<open>strings.ToLower\<close>, as far as the comparison with the command words can tell: ASCII
  capitals become small letters, and so do the only two characters outside ASCII whose
  lower case is an ASCII letter, U+0130 (bytes C4 B0, to \<open>i\<close>) and the Kelvin sign U+212A
  (bytes E2 84 AA, to \<open>k\<close>). Go maps every other character outside ASCII to a character
  outside ASCII; the model leaves those bytes as they are.
\<close>

definition lowerASCII :: "char \<Rightarrow> char" where
  "lowerASCII c =
     (case map_of (zip ''ABCDEFGHIJKLMNOPQRSTUVWXYZ'' ''abcdefghijklmnopqrstuvwxyz'') c of
        None \<Rightarrow> c
      | Some l \<Rightarrow> l)"

fun ToLower :: "string \<Rightarrow> string" where
  "ToLower (a # b # c # s) =
     (if a = CHR 0xE2 \<and> b = CHR 0x84 \<and> c = CHR 0xAA then CHR ''k'' # ToLower s
      else if a = CHR 0xC4 \<and> b = CHR 0xB0 then CHR ''i'' # ToLower (c # s)
      else lowerASCII a # ToLower (b # c # s))"
| "ToLower [a, b] =
     (if a = CHR 0xC4 \<and> b = CHR 0xB0 then [CHR ''i''] else [lowerASCII a, lowerASCII b])"
| "ToLower [a] = [lowerASCII a]"
| "ToLower [] = []"

text \<open>
  \<open>strings.Split(s, sep)\<close>: the pieces of \<open>s\<close> between the non-overlapping occurrences of
  \<open>sep\<close>, found from the left; one piece more than there are occurrences. (With an empty
  \<open>sep\<close> Go splits after every character; the code never does that, and the model does it
  bytewise.)
\<close>

fun splitFrom :: "nat \<Rightarrow> string \<Rightarrow> string \<Rightarrow> string \<Rightarrow> string list" where
  "splitFrom k sep cur [] = [cur]"
| "splitFrom (Suc k) sep cur (c # cs) = splitFrom k sep cur cs"
| "splitFrom 0 sep cur (c # cs) =
     (if isPrefix sep (c # cs) then cur # splitFrom (length sep - 1) sep [] cs
      else splitFrom 0 sep (cur @ [c]) cs)"

definition Split :: "string \<Rightarrow> string \<Rightarrow> string list" where
  "Split s sep = (if sep = [] then map (\<lambda>c. [c]) s else splitFrom 0 sep [] s)"

text \<open>
  \<open>filepath.Base\<close> with \<open>/\<close> as the separator: the last element of the path, after
  trailing separators are removed; \<open>.\<close> for the empty path, \<open>/\<close> for a path of
  separators only.
\<close>

definition Base :: "string \<Rightarrow> string" where
  "Base path =
     (if path = [] then ''.''
      else
        let stripped = rev (dropWhile (\<lambda>c. c = CHR ''/'') (rev path));
            element = rev (takeWhile (\<lambda>c. c \<noteq> CHR ''/'') (rev stripped))
        in if element = [] then ''/'' else element)"

text \<open>How \<open>fmt.Println\<close> shows a slice of strings: the elements between brackets, separated by spaces.\<close>

fun joinWith :: "string \<Rightarrow> string list \<Rightarrow> string" where
  "joinWith sep [] = []"
| "joinWith sep [x] = x"
| "joinWith sep (x # y # ys) = x @ sep @ joinWith sep (y # ys)"

definition Sprint_strings :: "string list \<Rightarrow> string" where
  "Sprint_strings xs = ''['' @ joinWith '' '' xs @ '']''"

section \<open>The command loop (runCommandLoop)\<close>

text \<open>
  A reader handed out by the file server: \<open>nil\<close>, or a stream that delivers some bytes
  and then ends, with or without an error. \<open>io.ReadAll\<close> returns the bytes and the error
  (none at the regular end of the stream); on a \<open>nil\<close> reader it panics, which is \<open>None\<close>.
\<close>

datatype Reader = NilReader | Reader string "error option"

fun io_ReadAll :: "Reader \<Rightarrow> (string \<times> error option) option" where
  "io_ReadAll NilReader = None"
| "io_ReadAll (Reader bytes err) = Some (bytes, err)"

text \<open>
  The methods of \<open>*FileServer\<close> that the loop calls are outside this file; the loop is
  modelled for any implementation of them. A method sees and may change the server
  (of some type \<open>'srv\<close>) and the files on disk.
\<close>

type_synonym 'srv env = "'srv \<times> FileSystem"

record 'srv FileServerMethods =
  Store :: "string \<Rightarrow> File \<Rightarrow> 'srv env \<Rightarrow> error option \<times> 'srv env"
  Get :: "string \<Rightarrow> 'srv env \<Rightarrow> (Reader \<times> string \<times> error option) \<times> 'srv env"
  Delete :: "string \<Rightarrow> 'srv env \<Rightarrow> error option \<times> 'srv env"
  DeleteLocal :: "string \<Rightarrow> 'srv env \<Rightarrow> error option \<times> 'srv env"
  DeleteRemote :: "string \<Rightarrow> string list \<Rightarrow> 'srv env \<Rightarrow> error option \<times> 'srv env"

text \<open>
  What the loop does that can be observed, in order: text written to standard output, a
  message given to package \<open>log\<close>, a pause (in milliseconds), a call of a file-server
  method with its arguments, a call of \<open>io.ReadAll\<close>, and the closing of a file by a
  deferred \<open>Close\<close>.
\<close>

datatype fsCall =
    CallStore string File
  | CallGet string
  | CallDelete string
  | CallDeleteLocal string
  | CallDeleteRemote string "string list"

datatype event =
    Stdout string
  | LogOutput string
  | Sleep nat
  | Call fsCall
  | ReadAll Reader
  | Closed string

record 'srv ReplState =
  env :: "'srv env"
  trace :: "event list"
  deferred :: "File list"

definition emit :: "event \<Rightarrow> 'srv ReplState \<Rightarrow> 'srv ReplState" where
  "emit e st = st\<lparr>trace := trace st @ [e]\<rparr>"

definition Print :: "string \<Rightarrow> 'srv ReplState \<Rightarrow> 'srv ReplState" where
  "Print s st = emit (Stdout s) st"

definition Println :: "string \<Rightarrow> 'srv ReplState \<Rightarrow> 'srv ReplState" where
  "Println s st = emit (Stdout (s @ NL)) st"

text \<open>The deferred calls run when the function returns or panics, the last deferred first.\<close>

definition runDeferred :: "'srv ReplState \<Rightarrow> 'srv ReplState" where
  "runDeferred st =
     st\<lparr>trace := trace st @ map (\<lambda>f. Closed (fileName f)) (deferred st), deferred := []\<rparr>"

definition helpText :: "string \<rightharpoonup> string" where
  "helpText = map_of
     [(''store'', ''store <file-path>'' @ NL @
        '' It stores the file at the given path on the server and replicate it on its peers.''),
      (''get'', ''get <filename>'' @ NL @
        '' It gets the file from the server if its available on local storage or any of the peers.''),
      (''delete'', ''delete <filename>'' @ NL @
        '' It deletes the file from the server and all its peers.''),
      (''deletelocal'', ''deletelocal <filename>'' @ NL @
        '' It deletes the file from the local storage.''),
      (''deleteremote'', ''deleteremote <filename> <target-session>'' @ NL @
        '' It deletes the file from the remote storage of the target session.''),
      (''quit'', ''quit'' @ NL @ '' It quits the program.'')]"

text \<open>
  How one pass through the loop body ends: at the end of the \<open>switch\<close> (the loop then
  pauses for 50 ms), with \<open>continue\<close>, with \<open>return\<close>, with the process exiting
  (\<open>log.Fatal\<close> exits with status 1), or with a panic.
\<close>

datatype control = EndSwitch | ContinueLoop | Return | Exit nat | Panic

text \<open>The cases of the \<open>switch\<close>, each as the source has it.\<close>

definition case_store ::
  "'srv FileServerMethods \<Rightarrow> string list \<Rightarrow> 'srv ReplState \<Rightarrow> control \<times> 'srv ReplState" where
  "case_store fs args st =
     (let st1 = Println (Sprint_strings args) st
      in if length args \<noteq> 2 then (ContinueLoop, Println ''Usage: store <file-path>'' st1)
         else case os_Open (snd (env st1)) (args ! 1) of
           Inl err \<Rightarrow> (ContinueLoop, emit (LogOutput (errorText err)) st1)
         | Inr f \<Rightarrow>
             let st2 = st1\<lparr>deferred := f # deferred st1\<rparr>;
                 key = Base (args ! 1);
                 st3 = emit (Call (CallStore key f)) st2;
                 (err, env') = Store fs key f (env st3);
                 st4 = st3\<lparr>env := env'\<rparr>;
                 st5 = (case err of
                          Some e \<Rightarrow> Println (''Error storing data '' @ errorText e) st4
                        | None \<Rightarrow> st4)
             in (EndSwitch, emit (Sleep 2000) st5))"

definition case_get ::
  "'srv FileServerMethods \<Rightarrow> (string \<Rightarrow> string) \<Rightarrow> string list \<Rightarrow> 'srv ReplState
     \<Rightarrow> control \<times> 'srv ReplState" where
  "case_get fs getExtension args st =
     (if length args \<noteq> 2 then (ContinueLoop, Println ''Usage: get <filename>'' st)
      else
        let key = args ! 1;
            st1 = emit (Call (CallGet key)) st;
            ((rd, fileLoc, err), env') = Get fs key (env st1);
            st2 = st1\<lparr>env := env'\<rparr>;
            st3 = (case err of
                     Some e \<Rightarrow> Println (''Error getting file: '' @ errorText e) st2
                   | None \<Rightarrow> Println (''File stored at: '' @ fileLoc) st2);
            ext = getExtension key
        in if length ext = 0
           then
             let st4 = emit (ReadAll rd) st3
             in case io_ReadAll rd of
                  None \<Rightarrow> (Panic, st4)
                | Some (n, Some e) \<Rightarrow>
                    (Exit 1, emit (LogOutput (''Error reading data '' @ errorText e)) st4)
                | Some (n, None) \<Rightarrow> (EndSwitch, Println n st4)
           else (EndSwitch, st3))"

definition case_delete ::
  "'srv FileServerMethods \<Rightarrow> string list \<Rightarrow> 'srv ReplState \<Rightarrow> control \<times> 'srv ReplState" where
  "case_delete fs args st =
     (if length args \<noteq> 2 then (ContinueLoop, Println ''Usage: delete <filename>'' st)
      else
        let key = args ! 1;
            st1 = emit (Call (CallDelete key)) st;
            (err, env') = Delete fs key (env st1);
            st2 = st1\<lparr>env := env'\<rparr>
        in (EndSwitch,
            case err of
              Some e \<Rightarrow> Println (''Error deleting file: '' @ errorText e) st2
            | None \<Rightarrow> st2))"

definition case_deletelocal ::
  "'srv FileServerMethods \<Rightarrow> string list \<Rightarrow> 'srv ReplState \<Rightarrow> control \<times> 'srv ReplState" where
  "case_deletelocal fs args st =
     (if length args \<noteq> 2 then (ContinueLoop, Println ''Usage: deletelocal <filename>'' st)
      else
        let key = args ! 1;
            st1 = emit (Call (CallDeleteLocal key)) st;
            (err, env') = DeleteLocal fs key (env st1);
            st2 = st1\<lparr>env := env'\<rparr>
        in (EndSwitch,
            case err of
              Some e \<Rightarrow> Println (''Error deleting local file: '' @ errorText e) st2
            | None \<Rightarrow> st2))"

definition case_deleteremote ::
  "'srv FileServerMethods \<Rightarrow> string list \<Rightarrow> 'srv ReplState \<Rightarrow> control \<times> 'srv ReplState" where
  "case_deleteremote fs args st =
     (if length args \<noteq> 3
      then (ContinueLoop,
            Println ''Usage: deleteremote <filename> <peer list separated by comma (ip:port)>'' st)
      else
        let key = args ! 1;
            session = Split (args ! 2) '','';
            st1 = emit (Call (CallDeleteRemote key session)) st;
            (err, env') = DeleteRemote fs key session (env st1);
            st2 = st1\<lparr>env := env'\<rparr>
        in (EndSwitch,
            case err of
              Some e \<Rightarrow> Println (''Error deleting remote file: '' @ errorText e) st2
            | None \<Rightarrow> st2))"

definition case_help :: "string list \<Rightarrow> 'srv ReplState \<Rightarrow> control \<times> 'srv ReplState" where
  "case_help args st =
     (if length args \<noteq> 2 then (ContinueLoop, Println ''Usage: help <command>'' st)
      else (ContinueLoop,
            Println (case helpText (args ! 1) of None \<Rightarrow> [] | Some t \<Rightarrow> t) st))"

definition case_quit :: "'srv ReplState \<Rightarrow> control \<times> 'srv ReplState" where
  "case_quit st = (Return, Println ''Exiting...'' st)"

definition case_default :: "'srv ReplState \<Rightarrow> control \<times> 'srv ReplState" where
  "case_default st =
     (EndSwitch, Println ''Unknown command. Supported: store, get, delete, deletelocal, quit'' st)"

text \<open>
  The body of the loop after the prompt is printed and a line is read: the line is split
  into fields, an empty line goes back to the prompt, the first field in lower case
  selects the case, and a case that runs to the end of the \<open>switch\<close> is followed by the
  pause.
\<close>

definition loopBody ::
  "'srv FileServerMethods \<Rightarrow> (string \<Rightarrow> string) \<Rightarrow> string \<Rightarrow> 'srv ReplState
     \<Rightarrow> control \<times> 'srv ReplState" where
  "loopBody fs getExtension line st =
     (let args = Fields line
      in if length args = 0 then (ContinueLoop, st)
         else
           let cmd = ToLower (args ! 0);
               (ctl, st1) =
                 (if cmd = ''store'' then case_store fs args st
                  else if cmd = ''get'' then case_get fs getExtension args st
                  else if cmd = ''delete'' then case_delete fs args st
                  else if cmd = ''deletelocal'' then case_deletelocal fs args st
                  else if cmd = ''deleteremote'' then case_deleteremote fs args st
                  else if cmd = ''help'' then case_help args st
                  else if cmd = ''quit'' then case_quit st
                  else case_default st)
           in if ctl = EndSwitch then (ContinueLoop, emit (Sleep 50) st1) else (ctl, st1))"

text \<open>How the call of \<open>runCommandLoop\<close> ends: it returns, the process exits, or it panics.\<close>

datatype outcome = Returned | Exited nat | Panicked

text \<open>
  \<open>runCommandLoop\<close> on the lines that the scanner of standard input delivers; when there
  is none left, \<open>Scan\<close> is false and the loop ends. The helper \<open>getExtension\<close> is outside
  this file and is a parameter.
\<close>

fun runCommandLoop ::
  "'srv FileServerMethods \<Rightarrow> (string \<Rightarrow> string) \<Rightarrow> string list \<Rightarrow> 'srv ReplState
     \<Rightarrow> outcome \<times> 'srv ReplState" where
  "runCommandLoop fs getExtension [] st = (Returned, runDeferred (Print ''>>> '' st))"
| "runCommandLoop fs getExtension (line # rest) st =
     (case loopBody fs getExtension line (Print ''>>> '' st) of
        (EndSwitch, st1) \<Rightarrow> runCommandLoop fs getExtension rest st1
      | (ContinueLoop, st1) \<Rightarrow> runCommandLoop fs getExtension rest st1
      | (Return, st1) \<Rightarrow> (Returned, runDeferred st1)
      | (Exit code, st1) \<Rightarrow> (Exited code, st1)
      | (Panic, st1) \<Rightarrow> (Panicked, runDeferred st1))"

text \<open>
  Modelled from the spec: function \<open>main\<close>, which calls \<open>runCommandLoop\<close>, is outside this
  file. By the spec the exit code is 0 on a clean quit, that is when the loop returns and
  \<open>main\<close> ends after it; \<open>log.Fatal\<close> ends the process with the status it gives to
  \<open>os.Exit\<close>, and the Go runtime ends a process that panics with status 2.
\<close>

fun exitCode :: "outcome \<Rightarrow> nat" where
  "exitCode Returned = 0"
| "exitCode (Exited code) = code"
| "exitCode Panicked = 2"

section \<open>The audit logger\<close>

text \<open>
  \<open>sync.Mutex\<close>: held or not. \<open>Lock\<close> on a held mutex does not return until the mutex is
  released.
\<close>

datatype Mutex = Unlocked | Locked

record AuditLogger =
  mu :: Mutex
  logFile :: File
  logFilePath :: string

text \<open>
  \<open>simpleNewAuditLogger\<close>; \<open>now\<close> is \<open>time.Now().Format(time.RFC3339)\<close> at the time of the
  call. The results of the two writes of the start line are not looked at; the
  permission bits \<open>0644\<close> are \<open>0x1A4\<close>.
\<close>

definition simpleNewAuditLogger ::
  "string \<Rightarrow> string \<Rightarrow> FileSystem \<Rightarrow> (error + AuditLogger) \<times> FileSystem" where
  "simpleNewAuditLogger now logFileName fs =
     (case os_OpenFile fs logFileName [O_APPEND, O_CREATE, O_WRONLY] 0x1A4 of
        (Inl err, fs1) \<Rightarrow> (Inl err, fs1)
      | (Inr fd, fs1) \<Rightarrow>
          let startLog = ''['' @ now @ ''] LOGGING STARTED....'' @ NL;
              (r1, fd1, fs2) = WriteString fd startLog fs1;
              (r2, fd2, fs3) = WriteString fd1 NL fs2;
              newAuditLogger = \<lparr>mu = Unlocked, logFile = fd2, logFilePath = logFileName\<rparr>
          in (Inr newAuditLogger, fs3))"

text \<open>
  \<open>Log\<close>, on the storage and the text printed so far; \<open>now\<close> is the formatted time of the
  call. The result is \<open>None\<close> when the mutex is held, since \<open>a.mu.Lock()\<close> then does not
  return; otherwise the mutex is taken, the entry is written, a failed write is reported
  on standard output, and the deferred \<open>Unlock\<close> releases the mutex.
\<close>

definition Log ::
  "AuditLogger \<Rightarrow> string \<Rightarrow> string \<Rightarrow> string \<Rightarrow> string \<Rightarrow> string \<Rightarrow> FileSystem \<times> event list
     \<Rightarrow> (AuditLogger \<times> FileSystem \<times> event list) option" where
  "Log a now opn filekey peer status world =
     (case mu a of
        Locked \<Rightarrow> None
      | Unlocked \<Rightarrow>
          let (fs, out) = world;
              a1 = a\<lparr>mu := Locked\<rparr>;
              logEntry = now @ '' | '' @ opn @ '' | '' @ filekey @ '' | '' @ peer @ '' | ''
                         @ status @ NL;
              ((n, err), fd, fs1) = WriteString (logFile a1) logEntry fs;
              a2 = a1\<lparr>logFile := fd\<rparr>;
              out1 = (case err of
                        Some e \<Rightarrow> out @ [Stdout (''Error writing to log file: '' @ errorText e @ NL)]
                      | None \<Rightarrow> out)
          in Some (a2\<lparr>mu := Unlocked\<rparr>, fs1, out1))"

definition AuditLogger_Close :: "AuditLogger \<Rightarrow> error option \<times> AuditLogger" where
  "AuditLogger_Close a = (let (err, fd) = File_Close (logFile a) in (err, a\<lparr>logFile := fd\<rparr>))"

definition GetLogFilePath :: "AuditLogger \<Rightarrow> string" where
  "GetLogFilePath a = logFilePath a"

definition GetLogFile :: "AuditLogger \<Rightarrow> File" where
  "GetLogFile a = logFile a"

text \<open>The number of lines of a text: the number of its line ends.\<close>

definition lineCount :: "string \<Rightarrow> nat" where
  "lineCount s = length (filter (\<lambda>c. c = CHR 0x0A) s)"

text \<open>What a file holds, nothing if it does not exist.\<close>

definition fileText :: "FileSystem \<Rightarrow> string \<Rightarrow> string" where
  "fileText fs name = (case contents fs name of None \<Rightarrow> [] | Some c \<Rightarrow> c)"

text \<open>A logger as \<open>simpleNewAuditLogger\<close> makes it and \<open>Log\<close> leaves it: free, and its file open for appending.\<close>

definition readyLogger :: "AuditLogger \<Rightarrow> bool" where
  "readyLogger a =
     (mu a = Unlocked \<and> \<not> isClosed (logFile a) \<and> canWrite (logFile a) \<and> appendMode (logFile a))"

subsection \<open>Calls of Log by several goroutines\<close>

text \<open>
  A call of \<open>Log\<close> in progress: where it stands (before \<open>a.mu.Lock()\<close>, before the write,
  before the deferred \<open>Unlock\<close>, or returned) and its arguments, the formatted time among
  them. \<open>logStep\<close> is the next step of a call on the shared logger, storage and output;
  \<open>None\<close> when the call cannot move: it waits for the mutex, or it has returned.
\<close>

datatype logPC = AtLock | AtWrite | AtUnlock | AtReturn

record LogCall =
  pc :: logPC
  argNow :: string
  argOp :: string
  argKey :: string
  argPeer :: string
  argStatus :: string

type_synonym logShared = "AuditLogger \<times> FileSystem \<times> event list"

definition logStep :: "LogCall \<Rightarrow> logShared \<Rightarrow> (LogCall \<times> logShared) option" where
  "logStep c s =
     (let (a, fs, out) = s
      in case pc c of
           AtLock \<Rightarrow>
             (case mu a of
                Locked \<Rightarrow> None
              | Unlocked \<Rightarrow> Some (c\<lparr>pc := AtWrite\<rparr>, (a\<lparr>mu := Locked\<rparr>, fs, out)))
         | AtWrite \<Rightarrow>
             let logEntry = argNow c @ '' | '' @ argOp c @ '' | '' @ argKey c @ '' | ''
                            @ argPeer c @ '' | '' @ argStatus c @ NL;
                 ((n, err), fd, fs1) = WriteString (logFile a) logEntry fs;
                 out1 = (case err of
                           Some e \<Rightarrow>
                             out @ [Stdout (''Error writing to log file: '' @ errorText e @ NL)]
                         | None \<Rightarrow> out)
             in Some (c\<lparr>pc := AtUnlock\<rparr>, (a\<lparr>logFile := fd\<rparr>, fs1, out1))
         | AtUnlock \<Rightarrow> Some (c\<lparr>pc := AtReturn\<rparr>, (a\<lparr>mu := Unlocked\<rparr>, fs, out))
         | AtReturn \<Rightarrow> None)"

text \<open>
  The calls run interleaved: the schedule names, step by step, the call that is given
  the processor; a call that cannot move, or a number that names no call, leaves
  everything as it is.
\<close>

fun runCalls :: "nat list \<Rightarrow> LogCall list \<times> logShared \<Rightarrow> LogCall list \<times> logShared" where
  "runCalls [] cfg = cfg"
| "runCalls (i # schedule) (calls, s) =
     (if i < length calls
      then (case logStep (calls ! i) s of
              None \<Rightarrow> runCalls schedule (calls, s)
            | Some (c', s') \<Rightarrow> runCalls schedule (calls[i := c'], s'))
      else runCalls schedule (calls, s))"

text \<open>
  The calls that hold the mutex, and the calls that have done their write. The mutex
  and the calls agree when the mutex is held by exactly one call or by none.
\<close>

definition holders :: "LogCall list \<Rightarrow> LogCall list" where
  "holders calls = filter (\<lambda>c. pc c = AtWrite \<or> pc c = AtUnlock) calls"

definition written :: "LogCall list \<Rightarrow> LogCall list" where
  "written calls = filter (\<lambda>c. pc c = AtUnlock \<or> pc c = AtReturn) calls"

definition exclusive :: "LogCall list \<Rightarrow> AuditLogger \<Rightarrow> bool" where
  "exclusive calls a =
     (case mu a of Unlocked \<Rightarrow> holders calls = [] | Locked \<Rightarrow> length (holders calls) = 1)"

definition oneLineArgs :: "LogCall \<Rightarrow> bool" where
  "oneLineArgs c =
     (CHR 0x0A \<notin> set (argNow c) \<union> set (argOp c) \<union> set (argKey c) \<union> set (argPeer c)
        \<union> set (argStatus c))"

definition openForAppend :: "AuditLogger \<Rightarrow> bool" where
  "openForAppend a = (\<not> isClosed (logFile a) \<and> canWrite (logFile a) \<and> appendMode (logFile a))"

text \<open>
  What holds of interleaved calls on a logger whose file stays open for appending, when
  no argument contains a line end: the audit file has one line more for every call that
  has done its write (\<open>before\<close> calls had done it when the file had \<open>base\<close> lines).
\<close>

definition linesAdded :: "LogCall list \<times> logShared \<Rightarrow> nat \<Rightarrow> nat \<Rightarrow> bool" where
  "linesAdded cfg before base =
     (openForAppend (fst (snd cfg)) \<and>
      list_all oneLineArgs (fst cfg) \<and>
      lineCount (fileText (fst (snd (snd cfg))) (fileName (logFile (fst (snd cfg))))) + before =
        base + length (written (fst cfg)))"

section \<open>Server construction (makeServer)\<close>

text \<open>
  Modelled from the spec: the peer connection, the handshake policy, the transport and
  the file server are declared in other files of the repository (package \<open>p2p\<close> and
  \<open>server.go\<close>); only their use in \<open>makeServer\<close> is in this file. A peer is a remote
  address, a direction flag and the stream, whose two byte queues are what a handshake
  could read or write. The default handshake policy is permissive: no bytes exchanged,
  always succeeds.
\<close>

record Peer =
  RemoteAddr :: string
  Outbound :: bool
  bytesWritten :: string
  bytesUnread :: string

type_synonym HandshakeFunc = "Peer \<Rightarrow> error option \<times> Peer"

definition DefensiveHandshakeFunc :: HandshakeFunc where
  "DefensiveHandshakeFunc peer = (None, peer)"

datatype Decoder = DefaultDecoder

text \<open>
  The peer callback of a transport: \<open>nil\<close> (\<open>None\<close>) or the \<open>OnPeer\<close> method of the file
  server that owns the transport.
\<close>

datatype OnPeerFunc = FileServer_OnPeer

record TCPTransportOps =
  ListenerPortAddr :: string
  ShakeHands :: HandshakeFunc
  Decoder :: Decoder
  OnPeer :: "OnPeerFunc option"

text \<open>
  Modelled from the spec: \<open>p2p.NewTCPTransport\<close> is outside this file; the transport it
  returns embeds the options it was given (the code assigns \<open>tcpTransport.OnPeer\<close>
  afterwards), and \<open>makeServer\<close> discards its error result.
\<close>

record TCPTransport =
  TransportOps :: TCPTransportOps

definition NewTCPTransport :: "TCPTransportOps \<Rightarrow> TCPTransport" where
  "NewTCPTransport ops = \<lparr>TransportOps = ops\<rparr>"

datatype PathTransform = CryptoPathTransformFunc

type_synonym byte = "8 word"

record FileServerOps =
  ID :: string
  RootStorage :: string
  PathTransformFunc :: PathTransform
  Transort :: TCPTransport
  OpsBootstrapNodes :: "string list"
  EncKey :: "byte list"

text \<open>
  Modelled from the spec: \<open>NewFileServer\<close> is outside this file; the server it returns
  keeps the options it was built from, and \<open>makeServer\<close> discards its error result.
\<close>

record FileServer =
  ServerOps :: FileServerOps

definition NewFileServer :: "FileServerOps \<Rightarrow> FileServer" where
  "NewFileServer ops = \<lparr>ServerOps = ops\<rparr>"

text \<open>
  What a process can observe of its environment while servers are built: the system's
  source of random bytes (\<open>entropy\<close>, of which the first \<open>drawn\<close> bytes are used up) and
  the files of persistent storage with their contents.
\<close>

record World =
  entropy :: "nat \<Rightarrow> byte"
  drawn :: nat
  storage :: FileSystem

text \<open>
  Modelled from the spec: \<open>newEncryptionKey\<close> is outside this file. The key is 32 bytes,
  generated at startup from the random source; nothing else is read or written.
\<close>

definition newEncryptionKey :: "World \<Rightarrow> byte list \<times> World" where
  "newEncryptionKey w =
     (map (entropy w) [drawn w ..< drawn w + 32], w\<lparr>drawn := drawn w + 32\<rparr>)"

text \<open>
  \<open>makeServer\<close>, statement by statement. The last assignment goes through the pointer
  that the server and the local variable share, so it shows in the server's transport.
\<close>

definition makeServer :: "ServerConfig \<Rightarrow> World \<Rightarrow> FileServer \<times> World" where
  "makeServer configFile w =
     (let tcpops = \<lparr>ListenerPortAddr = Port configFile,
                     ShakeHands = DefensiveHandshakeFunc,
                     Decoder = DefaultDecoder,
                     OnPeer = None\<rparr>;
          tcpTransport = NewTCPTransport tcpops;
          newAddr = ReplaceAll (Port configFile) '':'' ''_'';
          (key, w1) = newEncryptionKey w;
          fileServerOps = \<lparr>ID = [],
                            RootStorage = newAddr @ ''_gyattt'',
                            PathTransformFunc = CryptoPathTransformFunc,
                            Transort = tcpTransport,
                            OpsBootstrapNodes = BootstrapNodes configFile,
                            EncKey = key\<rparr>;
          newFileServer = NewFileServer fileServerOps;
          tcpTransport' = tcpTransport\<lparr>TransportOps :=
                            (TransportOps tcpTransport)\<lparr>OnPeer := Some FileServer_OnPeer\<rparr>\<rparr>
      in (newFileServer\<lparr>ServerOps := (ServerOps newFileServer)\<lparr>Transort := tcpTransport'\<rparr>\<rparr>, w1))"

text \<open>
  The loop of \<open>completeServerSetup\<close>: one server per configuration, stored under its
  port (a later entry with the same port replaces the earlier one). Each server is then
  started in a goroutine of its own; \<open>Start\<close> is outside this file and is not modelled.
\<close>

fun makeServers ::
  "ServerConfig list \<Rightarrow> (string \<rightharpoonup> FileServer) \<Rightarrow> World \<Rightarrow> (string \<rightharpoonup> FileServer) \<times> World"
where
  "makeServers [] servers w = (servers, w)"
| "makeServers (cfg # configs) servers w =
     (let (server, w1) = makeServer cfg w
      in makeServers configs (servers(Port cfg \<mapsto> server)) w1)"

text \<open>
  \<open>completeServerSetup\<close>: the path of the configuration is the value of the flag
  \<open>-config\<close>, \<open>startServerConfig.json\<close> when the flag is not given; an error of
  \<open>loadConfig\<close> ends the process through \<open>log.Fatal\<close>, which is the \<open>Inl\<close> result.
\<close>

definition completeServerSetup ::
  "(string \<Rightarrow> error + json) \<Rightarrow> string option \<Rightarrow> World
     \<Rightarrow> (error + (string \<rightharpoonup> FileServer)) \<times> World" where
  "completeServerSetup scan configFlag w =
     (let configPath = (case configFlag of None \<Rightarrow> ''startServerConfig.json'' | Some path \<Rightarrow> path)
      in case loadConfig scan (storage w) configPath of
           Inl err \<Rightarrow> (Inl err, w)
         | Inr configs \<Rightarrow>
             (let (servers, w1) = makeServers configs Map.empty w in (Inr servers, w1)))"

section \<open>Wire encoder registration (registerAll)\<close>

text \<open>
  Modelled from the spec: the eight message structs that \<open>registerAll\<close> names are declared
  outside \<open>makeServer.go\<close>; the data model lists them as the variants of the control
  message (StoreFile, GetFile, DeleteFile, GetFileNotFound, StoreAck, DeleteAck,
  DuplicateCheck, DuplicateResponse).
\<close>

datatype ControlMessage =
    StoreFile
  | GetFile
  | DeleteFile
  | GetFileNotFound
  | StoreAck
  | DeleteAck
  | DuplicateCheck
  | DuplicateResponse

text \<open>
  The Go struct type that carries a variant, as \<open>registerAll\<close> spells it (package
  \<open>main\<close>).
\<close>

fun goTypeName :: "ControlMessage \<Rightarrow> string" where
  "goTypeName StoreFile = ''MessageStoreFile''"
| "goTypeName GetFile = ''MessageGetFile''"
| "goTypeName DeleteFile = ''MessageDeleteFile''"
| "goTypeName GetFileNotFound = ''MessageGetFileNotFound''"
| "goTypeName StoreAck = ''MessageStoreAck''"
| "goTypeName DeleteAck = ''MessageDeleteAck''"
| "goTypeName DuplicateCheck = ''MessageDuplicateCheck''"
| "goTypeName DuplicateResponse = ''MessageDuplicateResponse''"

text \<open>
  The encoder's registry is the set of concrete type names it can send inside an
  interface value. \<open>gob.Register(T{})\<close> adds the name of \<open>T\<close>; registering the same type
  again changes nothing.
\<close>

type_synonym gobRegistry = "string set"

definition gob_Register :: "string \<Rightarrow> gobRegistry \<Rightarrow> gobRegistry" where
  "gob_Register typeName reg = insert typeName reg"

definition registerAll :: "gobRegistry \<Rightarrow> gobRegistry" where
  "registerAll reg0 =
     (let reg1 = gob_Register ''MessageStoreFile'' reg0;
          reg2 = gob_Register ''MessageGetFile'' reg1;
          reg3 = gob_Register ''MessageDeleteFile'' reg2;
          reg4 = gob_Register ''MessageGetFileNotFound'' reg3;
          reg5 = gob_Register ''MessageStoreAck'' reg4;
          reg6 = gob_Register ''MessageDeleteAck'' reg5;
          reg7 = gob_Register ''MessageDuplicateCheck'' reg6;
          reg8 = gob_Register ''MessageDuplicateResponse'' reg7
      in reg8)"

section \<open>The commands as the spec lists them\<close>

text \<open>
  The calls of file-server methods in a trace, and the keys given to \<open>Store\<close> among them.
\<close>

fun callsOf :: "event list \<Rightarrow> fsCall list" where
  "callsOf [] = []"
| "callsOf (Call c # es) = c # callsOf es"
| "callsOf (e # es) = callsOf es"

fun storedKeys :: "fsCall list \<Rightarrow> string list" where
  "storedKeys [] = []"
| "storedKeys (CallStore key f # cs) = key # storedKeys cs"
| "storedKeys (c # cs) = storedKeys cs"

text \<open>
  The command language in the spec's words: the line is split on white space; the
  commands are \<open>store <path>\<close>, \<open>get <name>\<close>, \<open>delete <name>\<close>, \<open>deletelocal <name>\<close>,
  \<open>deleteremote <name> <csv-peers>\<close>, \<open>help <cmd>\<close> and \<open>quit\<close>. A command word with
  another number of arguments is malformed, any other word is unknown.
\<close>

datatype command =
    CmdStore string
  | CmdGet string
  | CmdDelete string
  | CmdDeleteLocal string
  | CmdDeleteRemote string "string list"
  | CmdHelp string
  | CmdQuit
  | CmdMalformed string
  | CmdUnknown
  | CmdEmpty

definition parseCommand :: "string \<Rightarrow> command" where
  "parseCommand line =
     (case Fields line of
        [] \<Rightarrow> CmdEmpty
      | word # operands \<Rightarrow>
          let cmd = ToLower word
          in if cmd = ''store''
             then (case operands of [path] \<Rightarrow> CmdStore path | _ \<Rightarrow> CmdMalformed cmd)
             else if cmd = ''get''
             then (case operands of [name] \<Rightarrow> CmdGet name | _ \<Rightarrow> CmdMalformed cmd)
             else if cmd = ''delete''
             then (case operands of [name] \<Rightarrow> CmdDelete name | _ \<Rightarrow> CmdMalformed cmd)
             else if cmd = ''deletelocal''
             then (case operands of [name] \<Rightarrow> CmdDeleteLocal name | _ \<Rightarrow> CmdMalformed cmd)
             else if cmd = ''deleteremote''
             then (case operands of
                     [name, peers] \<Rightarrow> CmdDeleteRemote name (Split peers '','')
                   | _ \<Rightarrow> CmdMalformed cmd)
             else if cmd = ''help''
             then (case operands of [topic] \<Rightarrow> CmdHelp topic | _ \<Rightarrow> CmdMalformed cmd)
             else if cmd = ''quit''
             then (case operands of [] \<Rightarrow> CmdQuit | _ \<Rightarrow> CmdMalformed cmd)
             else CmdUnknown)"

section \<open>The configuration file as the spec describes it\<close>

text \<open>
  In the spec's words the startup configuration is a JSON array, each element an object
  with the fields \<open>port\<close> and \<open>peers\<close>.
\<close>

fun isConfigObject :: "json \<Rightarrow> bool" where
  "isConfigObject (JObject members) =
     (''port'' \<in> set (map fst members) \<and> ''peers'' \<in> set (map fst members))"
| "isConfigObject j = False"

fun isConfigArray :: "json \<Rightarrow> bool" where
  "isConfigArray (JArray js) = list_all isConfigObject js"
| "isConfigArray j = False"

text \<open>
  The values that \<open>loadConfig\<close> takes without an error, described by their form: \<open>null\<close>,
  or an array whose elements are \<open>null\<close> or objects in which every member for the field
  \<open>port\<close> is a string or \<open>null\<close> and every member for the field \<open>peers\<close> is \<open>null\<close> or an array
  of strings and \<open>null\<close>s. \<open>fieldValues f members\<close> are the values of the members for the
  field \<open>f\<close>, in the order of the text.
\<close>

fun acceptedString :: "json \<Rightarrow> bool" where
  "acceptedString (JString s) = True"
| "acceptedString JNull = True"
| "acceptedString j = False"

fun acceptedPeers :: "json \<Rightarrow> bool" where
  "acceptedPeers (JArray js) = list_all acceptedString js"
| "acceptedPeers JNull = True"
| "acceptedPeers j = False"

definition acceptedMember :: "string \<times> json \<Rightarrow> bool" where
  "acceptedMember m =
     (case fieldFor (fst m) of
        None \<Rightarrow> True
      | Some PortField \<Rightarrow> acceptedString (snd m)
      | Some PeersField \<Rightarrow> acceptedPeers (snd m))"

fun acceptedElement :: "json \<Rightarrow> bool" where
  "acceptedElement (JObject members) = list_all acceptedMember members"
| "acceptedElement JNull = True"
| "acceptedElement j = False"

fun acceptedConfig :: "json \<Rightarrow> bool" where
  "acceptedConfig (JArray js) = list_all acceptedElement js"
| "acceptedConfig JNull = True"
| "acceptedConfig j = False"

definition fieldValues :: "configField \<Rightarrow> (string \<times> json) list \<Rightarrow> json list" where
  "fieldValues f members = map snd (filter (\<lambda>m. fieldFor (fst m) = Some f) members)"

section \<open>Example inputs\<close>

text \<open>
  The format of the startup configuration as the spec gives it: an array whose elements
  are objects with a member \<open>port\<close> (a string) and a member \<open>peers\<close> (an array of
  strings).
\<close>

definition configJSON :: "ServerConfig \<Rightarrow> json" where
  "configJSON c =
     JObject [(''port'', JString (Port c)), (''peers'', JArray (map JString (BootstrapNodes c)))]"

text \<open>Concrete inputs on which the theorems below are run.\<close>

definition exampleWorld :: World where
  "exampleWorld =
     \<lparr>entropy = (\<lambda>i. of_nat i), drawn = 0,
      storage = \<lparr>contents = Map.empty, denied = (\<lambda>p. False)\<rparr>\<rparr>"

definition nodeA :: ServerConfig where
  "nodeA = \<lparr>Port = '':3000'', BootstrapNodes = []\<rparr>"

definition nodeB :: ServerConfig where
  "nodeB = \<lparr>Port = '':3001'', BootstrapNodes = ['':3000'']\<rparr>"

definition nodeUnderscore :: ServerConfig where
  "nodeUnderscore = \<lparr>Port = ''_3000'', BootstrapNodes = []\<rparr>"

definition exampleConfigText :: string where
  \<open>exampleConfigText = ''[{"port": ":3000", "peers": []}, {"port": ":3001", "peers": [":3000"]}]''\<close>

definition numericPortText :: string where
  \<open>numericPortText = ''[{"port": 3000}]''\<close>

definition repeatedPeersText :: string where
  \<open>repeatedPeersText = ''[{"peers": ["a", "b"], "peers": [null, "c"]}]''\<close>

definition repeatedPeersValue :: json where
  "repeatedPeersValue =
     JArray [JObject [(''peers'', JArray [JString ''a'', JString ''b'']),
                      (''peers'', JArray [JNull, JString ''c''])]]"

definition upperCaseText :: string where
  \<open>upperCaseText = ''[null, {"PORT": ":3002", "Peers": [":3000", null], "note": 7}]''\<close>

definition upperCaseMembers :: "(string \<times> json) list" where
  "upperCaseMembers =
     [(''PORT'', JString '':3002''), (''Peers'', JArray [JString '':3000'', JNull]),
      (''note'', JNumber ''7'')]"

definition upperCaseValue :: json where
  "upperCaseValue = JArray [JNull, JObject upperCaseMembers]"

definition exampleDisk :: FileSystem where
  "exampleDisk =
     \<lparr>contents = [''startServerConfig.json'' \<mapsto> exampleConfigText,
                  ''object.json'' \<mapsto> ''{}'',
                  ''numbers.json'' \<mapsto> ''[5]'',
                  ''port.json'' \<mapsto> numericPortText,
                  ''broken.json'' \<mapsto> ''[{'',
                  ''syntax.json'' \<mapsto> ''[}'',
                  ''empty.json'' \<mapsto> [],
                  ''null.json'' \<mapsto> ''null'',
                  ''bare.json'' \<mapsto> ''[{}]'',
                  ''repeated.json'' \<mapsto> repeatedPeersText,
                  ''upper.json'' \<mapsto> upperCaseText,
                  ''notes.txt'' \<mapsto> ''hello'',
                  ''docs/notes.txt'' \<mapsto> ''other text''],
      denied = (\<lambda>p. False)\<rparr>"

text \<open>
  The scanner on the texts of \<open>exampleDisk\<close>: the value of each text that holds one,
  \<open>EOF\<close> for the empty text, \<open>ErrUnexpectedEOF\<close> for the text that ends after \<open>[{\<close>, and a
  syntax error for the others, none of which starts with a JSON value.
\<close>

definition exampleScan :: "string \<Rightarrow> error + json" where
  "exampleScan input =
     (if input = exampleConfigText then Inr (JArray [configJSON nodeA, configJSON nodeB])
      else if input = ''{}'' then Inr (JObject [])
      else if input = ''[5]'' then Inr (JArray [JNumber ''5''])
      else if input = numericPortText then Inr (JArray [JObject [(''port'', JNumber ''3000'')]])
      else if input = ''null'' then Inr JNull
      else if input = ''[{}]'' then Inr (JArray [JObject []])
      else if input = repeatedPeersText then Inr repeatedPeersValue
      else if input = upperCaseText then Inr upperCaseValue
      else if input = [] then Inl EOF
      else if input = ''[{'' then Inl ErrUnexpectedEOF
      else Inl SyntaxError)"

text \<open>
  A file server for the examples: it keeps what it is given in a table from keys to
  contents; \<open>Get\<close> of a key it does not hold returns no reader and an error.
\<close>

definition tableServer :: "(string \<rightharpoonup> string) FileServerMethods" where
  "tableServer =
     \<lparr>Store = (\<lambda>key f (tab, fs). (None, (tab(key \<mapsto> fileBytes fs f), fs))),
      Get = (\<lambda>key (tab, fs).
        case tab key of
          None \<Rightarrow> ((NilReader, [], Some (ServerError ''file not found'')), (tab, fs))
        | Some bytes \<Rightarrow> ((Reader bytes None, ''store/'' @ key, None), (tab, fs))),
      Delete = (\<lambda>key (tab, fs). (None, (tab(key := None), fs))),
      DeleteLocal = (\<lambda>key (tab, fs). (None, (tab(key := None), fs))),
      DeleteRemote = (\<lambda>key peers (tab, fs). (None, (tab, fs)))\<rparr>"

text \<open>A file server whose \<open>Get\<close> fails and hands out a reader that breaks after three bytes.\<close>

definition brokenServer :: "unit FileServerMethods" where
  "brokenServer =
     \<lparr>Store = (\<lambda>key f e. (None, e)),
      Get = (\<lambda>key e.
        ((Reader ''par'' (Some (ServerError ''connection reset'')), [],
          Some (ServerError ''peer timeout'')), e)),
      Delete = (\<lambda>key e. (None, e)),
      DeleteLocal = (\<lambda>key e. (None, e)),
      DeleteRemote = (\<lambda>key peers e. (None, e))\<rparr>"

text \<open>An extension function for the examples: what follows the last dot of the name.\<close>

definition exampleExtension :: "string \<Rightarrow> string" where
  "exampleExtension name =
     (if CHR ''.'' \<in> set name then rev (takeWhile (\<lambda>c. c \<noteq> CHR ''.'') (rev name)) else [])"

definition startState :: "(string \<rightharpoonup> string) ReplState" where
  "startState = \<lparr>env = (Map.empty, exampleDisk), trace = [], deferred = []\<rparr>"

text \<open>
  A file server that does nothing but keep, in its own state, the list of the calls it
  receives with their arguments.
\<close>

definition recordingServer :: "fsCall list FileServerMethods" where
  "recordingServer =
     \<lparr>Store = (\<lambda>key f (received, fs). (None, (received @ [CallStore key f], fs))),
      Get = (\<lambda>key (received, fs). ((Reader [] None, [], None), (received @ [CallGet key], fs))),
      Delete = (\<lambda>key (received, fs). (None, (received @ [CallDelete key], fs))),
      DeleteLocal = (\<lambda>key (received, fs). (None, (received @ [CallDeleteLocal key], fs))),
      DeleteRemote = (\<lambda>key peers (received, fs).
        (Some (ServerError ''no such peer''), (received @ [CallDeleteRemote key peers], fs)))\<rparr>"

definition recordingState :: "fsCall list ReplState" where
  "recordingState = \<lparr>env = ([], exampleDisk), trace = [], deferred = []\<rparr>"

definition startStateBroken :: "unit ReplState" where
  "startStateBroken = \<lparr>env = ((), exampleDisk), trace = [], deferred = []\<rparr>"

text \<open>The logger that \<open>simpleNewAuditLogger\<close> makes for \<open>audit.log\<close> on \<open>exampleDisk\<close>, and the disk after it.\<close>

definition exampleTime :: string where
  "exampleTime = ''2026-11-01T10:00:00Z''"

definition exampleLogger :: AuditLogger where
  "exampleLogger =
     \<lparr>mu = Unlocked,
      logFile = \<lparr>fileName = ''audit.log'', canRead = False, canWrite = True, appendMode = True,
                 position = 44, isClosed = False\<rparr>,
      logFilePath = ''audit.log''\<rparr>"

definition auditDisk :: FileSystem where
  "auditDisk =
     exampleDisk\<lparr>contents := (contents exampleDisk)
       (''audit.log'' \<mapsto> ''[2026-11-01T10:00:00Z] LOGGING STARTED....'' @ NL @ NL)\<rparr>"

definition closedLogger :: AuditLogger where
  "closedLogger = exampleLogger\<lparr>logFile := (logFile exampleLogger)\<lparr>isClosed := True\<rparr>\<rparr>"

text \<open>Two calls of \<open>Log\<close> about to start.\<close>

definition callStore :: LogCall where
  "callStore =
     \<lparr>pc = AtLock, argNow = exampleTime, argOp = ''STORE'', argKey = ''e1c9a'',
      argPeer = '':3001'', argStatus = ''OK''\<rparr>"

definition callGet :: LogCall where
  "callGet =
     \<lparr>pc = AtLock, argNow = exampleTime, argOp = ''GET'', argKey = ''e1c9a'',
      argPeer = '':3002'', argStatus = ''MISS''\<rparr>"

section \<open>Theorems\<close>

subsection \<open>Encoder registration\<close>

lemma ControlMessage_UNIV:
  "(UNIV :: ControlMessage set) =
     {StoreFile, GetFile, DeleteFile, GetFileNotFound, StoreAck, DeleteAck,
      DuplicateCheck, DuplicateResponse}"
proof -
  have "m \<in> {StoreFile, GetFile, DeleteFile, GetFileNotFound, StoreAck, DeleteAck,
      DuplicateCheck, DuplicateResponse}" for m
    by (cases m) simp_all
  then show ?thesis by blast
qed

lemma registerAll_unfold:
  "registerAll reg =
     insert ''MessageDuplicateResponse'' (insert ''MessageDuplicateCheck''
       (insert ''MessageDeleteAck'' (insert ''MessageStoreAck''
         (insert ''MessageGetFileNotFound'' (insert ''MessageDeleteFile''
           (insert ''MessageGetFile'' (insert ''MessageStoreFile'' reg)))))))"
  by (simp add: registerAll_def gob_Register_def)

lemma goTypeName_range:
  "goTypeName ` (UNIV :: ControlMessage set) =
     insert ''MessageDuplicateResponse'' (insert ''MessageDuplicateCheck''
       (insert ''MessageDeleteAck'' (insert ''MessageStoreAck''
         (insert ''MessageGetFileNotFound'' (insert ''MessageDeleteFile''
           (insert ''MessageGetFile'' (insert ''MessageStoreFile'' {})))))))"
proof (rule set_eqI)
  fix n
  show "n \<in> goTypeName ` (UNIV :: ControlMessage set) \<longleftrightarrow>
        n \<in> insert ''MessageDuplicateResponse'' (insert ''MessageDuplicateCheck''
       (insert ''MessageDeleteAck'' (insert ''MessageStoreAck''
         (insert ''MessageGetFileNotFound'' (insert ''MessageDeleteFile''
           (insert ''MessageGetFile'' (insert ''MessageStoreFile'' {})))))))"
    unfolding ControlMessage_UNIV image_insert image_empty goTypeName.simps insert_iff
    by (simp only: disj_ac)
qed

text \<open>
  C2. Starting from any registry, \<open>registerAll\<close> adds exactly the Go types of the eight
  control-message variants of the data model: the names it registers are the image of
  all variants, nothing that was registered before is lost, and on an empty registry the
  registered set equals the set of the variants' types, eight distinct names.
\<close>

theorem registerAll_registers_every_variant:
  "registerAll reg = goTypeName ` (UNIV :: ControlMessage set) \<union> reg \<and>
   registerAll {} = goTypeName ` (UNIV :: ControlMessage set) \<and>
   card (registerAll {}) = 8"
proof -
  have a: "registerAll r = goTypeName ` (UNIV :: ControlMessage set) \<union> r" for r
    unfolding goTypeName_range registerAll_unfold by simp
  have c: "card (registerAll {}) = 8"
    unfolding registerAll_unfold by simp
  from a [of reg] a [of "{}"] c show ?thesis by simp
qed

subsection \<open>Encryption keys\<close>

lemma makeServer_world: "snd (makeServer cfg w) = w\<lparr>drawn := drawn w + 32\<rparr>"
  by (simp add: makeServer_def newEncryptionKey_def Let_def)

lemma makeServer_key:
  "EncKey (ServerOps (fst (makeServer cfg w))) = map (entropy w) [drawn w ..< drawn w + 32]"
  by (simp add: makeServer_def newEncryptionKey_def NewFileServer_def Let_def)

lemma makeServers_world:
  "snd (makeServers configs servers w) = w\<lparr>drawn := drawn w + 32 * length configs\<rparr>"
proof (induction configs arbitrary: servers w)
  case Nil
  then show ?case by simp
next
  case (Cons cfg configs)
  have "makeServers (cfg # configs) servers w =
        makeServers configs (servers(Port cfg \<mapsto> fst (makeServer cfg w))) (snd (makeServer cfg w))"
    by (simp add: split_def Let_def)
  then show ?case by (simp add: Cons.IH makeServer_world)
qed

lemma makeServers_other:
  "port \<notin> Port ` set configs \<Longrightarrow> fst (makeServers configs servers w) port = servers port"
proof (induction configs arbitrary: servers w)
  case Nil
  then show ?case by simp
next
  case (Cons cfg configs)
  have "makeServers (cfg # configs) servers w =
        makeServers configs (servers(Port cfg \<mapsto> fst (makeServer cfg w))) (snd (makeServer cfg w))"
    by (simp add: split_def Let_def)
  with Cons show ?case by auto
qed

lemma makeServers_key:
  "distinct (map Port configs) \<Longrightarrow> i < length configs \<Longrightarrow>
   \<exists>s. fst (makeServers configs servers w) (Port (configs ! i)) = Some s \<and>
       EncKey (ServerOps s) = map (entropy w) [drawn w + 32 * i ..< drawn w + 32 * i + 32]"
proof (induction configs arbitrary: servers w i)
  case Nil
  then show ?case by simp
next
  case (Cons cfg configs)
  have step: "makeServers (cfg # configs) servers w =
        makeServers configs (servers(Port cfg \<mapsto> fst (makeServer cfg w))) (snd (makeServer cfg w))"
    by (simp add: split_def Let_def)
  show ?case
  proof (cases i)
    case 0
    from Cons.prems have "Port cfg \<notin> Port ` set configs" by simp
    from makeServers_other [OF this]
    have "fst (makeServers (cfg # configs) servers w) (Port cfg) = Some (fst (makeServer cfg w))"
      unfolding step by simp
    with 0 show ?thesis by (simp add: makeServer_key)
  next
    case (Suc k)
    with Cons.prems have d: "distinct (map Port configs)" and k: "k < length configs" by simp_all
    from Cons.IH [OF d k, of "servers(Port cfg \<mapsto> fst (makeServer cfg w))" "snd (makeServer cfg w)"]
    obtain s where s: "fst (makeServers (cfg # configs) servers w) (Port (configs ! k)) = Some s"
      and key: "EncKey (ServerOps s) =
        map (entropy (snd (makeServer cfg w)))
          [drawn (snd (makeServer cfg w)) + 32 * k ..< drawn (snd (makeServer cfg w)) + 32 * k + 32]"
      unfolding step by blast
    have "drawn w + 32 + 32 * k = drawn w + 32 * Suc k" by simp
    with key have "EncKey (ServerOps s) =
        map (entropy w) [drawn w + 32 * Suc k ..< drawn w + 32 * Suc k + 32]"
      by (simp add: makeServer_world)
    with s Suc show ?thesis by simp
  qed
qed

text \<open>
  C4. The key of a server built by \<open>makeServer\<close> is what \<open>newEncryptionKey\<close> returns in
  that call: the next 32 bytes of the random source. Building the server uses those
  bytes up and changes nothing else, storage included; the key does not depend on what
  storage holds or on the configuration; the server built next gets the 32 bytes after
  them; and in a run of \<open>completeServerSetup\<close> over configurations with distinct ports,
  the server stored for the \<open>i\<close>-th configuration holds the \<open>i\<close>-th block of 32 bytes.
\<close>

theorem makeServer_fresh_key:
  "EncKey (ServerOps (fst (makeServer cfg w))) = fst (newEncryptionKey w) \<and>
   EncKey (ServerOps (fst (makeServer cfg w))) = map (entropy w) [drawn w ..< drawn w + 32] \<and>
   length (EncKey (ServerOps (fst (makeServer cfg w)))) = 32 \<and>
   snd (makeServer cfg w) = w\<lparr>drawn := drawn w + 32\<rparr> \<and>
   storage (snd (makeServer cfg w)) = storage w \<and>
   EncKey (ServerOps (fst (makeServer cfg (w\<lparr>storage := fs\<rparr>)))) =
     EncKey (ServerOps (fst (makeServer cfg w))) \<and>
   EncKey (ServerOps (fst (makeServer cfg' (snd (makeServer cfg w))))) =
     map (entropy w) [drawn w + 32 ..< drawn w + 64] \<and>
   storage (snd (makeServers configs servers w)) = storage w \<and>
   (distinct (map Port configs) \<and> i < length configs \<longrightarrow>
     (\<exists>s. fst (makeServers configs servers w) (Port (configs ! i)) = Some s \<and>
          EncKey (ServerOps s) = map (entropy w) [drawn w + 32 * i ..< drawn w + 32 * i + 32]))"
proof -
  have k: "EncKey (ServerOps (fst (makeServer c v))) = map (entropy v) [drawn v ..< drawn v + 32]"
    for c v by (rule makeServer_key)
  have a: "EncKey (ServerOps (fst (makeServer cfg w))) = fst (newEncryptionKey w)"
    unfolding k by (simp add: newEncryptionKey_def)
  have l: "length (EncKey (ServerOps (fst (makeServer cfg w)))) = 32"
    unfolding k by simp
  have s: "storage (snd (makeServer cfg w)) = storage w"
    by (simp add: makeServer_world)
  have r: "EncKey (ServerOps (fst (makeServer cfg (w\<lparr>storage := fs\<rparr>)))) =
     EncKey (ServerOps (fst (makeServer cfg w)))"
    unfolding k by simp
  have n: "EncKey (ServerOps (fst (makeServer cfg' (snd (makeServer cfg w))))) =
     map (entropy w) [drawn w + 32 ..< drawn w + 64]"
  proof -
    have "drawn w + 32 + 32 = drawn w + 64" by simp
    then show ?thesis unfolding k by (simp add: makeServer_world add.commute)
  qed
  have m: "storage (snd (makeServers configs servers w)) = storage w"
    by (simp add: makeServers_world)
  have i: "distinct (map Port configs) \<and> i < length configs \<longrightarrow>
     (\<exists>s. fst (makeServers configs servers w) (Port (configs ! i)) = Some s \<and>
          EncKey (ServerOps s) = map (entropy w) [drawn w + 32 * i ..< drawn w + 32 * i + 32])"
    using makeServers_key [of configs i servers w] by blast
  from a k [of cfg w] l makeServer_world [of cfg w] s r n m i show ?thesis by blast
qed

theorem makeServer_fresh_key_witness:
  "distinct (map Port [nodeA, nodeB]) \<and> (1::nat) < length [nodeA, nodeB] \<and>
   (\<exists>s. fst (makeServers [nodeA, nodeB] Map.empty exampleWorld) (Port ([nodeA, nodeB] ! 1)) = Some s \<and>
        EncKey (ServerOps s) = map (entropy exampleWorld) [32 ..< 64])"
  using makeServer_fresh_key [of nodeA exampleWorld "storage exampleWorld" nodeB "[nodeA, nodeB]" Map.empty 1]
  by (simp add: nodeA_def nodeB_def exampleWorld_def)

subsection \<open>Storage roots\<close>

lemma ReplaceAll_single:
  "ReplaceAll s [a] [b] = map (\<lambda>c. if c = a then b else c) s"
  unfolding ReplaceAll_def by (induction s) auto

lemma RootStorage_makeServer:
  "RootStorage (ServerOps (fst (makeServer cfg w))) =
     map (\<lambda>c. if c = CHR '':'' then CHR ''_'' else c) (Port cfg) @ ''_gyattt''"
  by (simp add: makeServer_def NewFileServer_def newEncryptionKey_def Let_def
        ReplaceAll_single split: prod.splits)

lemma colon_map_id:
  "CHR '':'' \<notin> set s \<Longrightarrow> map (\<lambda>c. if c = CHR '':'' then CHR ''_'' else c) s = s"
  by (induction s) auto

lemma colon_map_inj:
  "CHR ''_'' \<notin> set s \<Longrightarrow> CHR ''_'' \<notin> set t \<Longrightarrow>
   map (\<lambda>c. if c = CHR '':'' then CHR ''_'' else c) s =
   map (\<lambda>c. if c = CHR '':'' then CHR ''_'' else c) t \<Longrightarrow> s = t"
proof (induction s arbitrary: t)
  case Nil
  then show ?case by simp
next
  case (Cons a s)
  then obtain b t' where t: "t = b # t'" by (cases t) auto
  from Cons.prems t
  have ab: "(if a = CHR '':'' then CHR ''_'' else a) = (if b = CHR '':'' then CHR ''_'' else b)"
    and rest: "map (\<lambda>c. if c = CHR '':'' then CHR ''_'' else c) s =
               map (\<lambda>c. if c = CHR '':'' then CHR ''_'' else c) t'"
    by simp_all
  from Cons.prems t have na: "a \<noteq> CHR ''_''" and nb: "b \<noteq> CHR ''_''" by auto
  from ab na nb have "a = b" by (auto split: if_splits)
  moreover from Cons.IH [of t'] Cons.prems t rest have "s = t'" by simp
  ultimately show ?case using t by simp
qed

lemma takeWhile_until:
  "c \<notin> set q \<Longrightarrow> takeWhile (\<lambda>x. x \<noteq> c) (q @ c # g) = q"
  by (induction q) auto

lemma last_underscore_split:
  assumes "h @ CHR ''_'' # p = h' @ CHR ''_'' # p'"
    and "CHR ''_'' \<notin> set p" and "CHR ''_'' \<notin> set p'"
  shows "h = h' \<and> p = p'"
proof -
  have tw: "takeWhile (\<lambda>c. c \<noteq> CHR ''_'') (rev q @ CHR ''_'' # rev g) = rev q"
    if "CHR ''_'' \<notin> set q" for q g :: string
    using that takeWhile_until [of "CHR ''_''" "rev q" "rev g"] by simp
  from assms(1) have "rev (h @ CHR ''_'' # p) = rev (h' @ CHR ''_'' # p')" by simp
  then have "rev p @ CHR ''_'' # rev h = rev p' @ CHR ''_'' # rev h'" by simp
  then have "takeWhile (\<lambda>c. c \<noteq> CHR ''_'') (rev p @ CHR ''_'' # rev h) =
             takeWhile (\<lambda>c. c \<noteq> CHR ''_'') (rev p' @ CHR ''_'' # rev h')" by simp
  with tw [OF assms(2)] tw [OF assms(3)] have "rev p = rev p'" by simp
  then have p: "p = p'" by simp
  with assms(1) have "h = h'" by simp
  with p show ?thesis by simp
qed

lemma hostport_root_inj:
  assumes s: "s = h @ CHR '':'' # p" "CHR '':'' \<notin> set h" "CHR '':'' \<notin> set p" "CHR ''_'' \<notin> set p"
    and t: "t = h' @ CHR '':'' # p'" "CHR '':'' \<notin> set h'" "CHR '':'' \<notin> set p'" "CHR ''_'' \<notin> set p'"
    and eq: "map (\<lambda>c. if c = CHR '':'' then CHR ''_'' else c) s =
             map (\<lambda>c. if c = CHR '':'' then CHR ''_'' else c) t"
  shows "s = t"
proof -
  from s have "map (\<lambda>c. if c = CHR '':'' then CHR ''_'' else c) s = h @ CHR ''_'' # p"
    by (simp add: colon_map_id)
  moreover from t have "map (\<lambda>c. if c = CHR '':'' then CHR ''_'' else c) t = h' @ CHR ''_'' # p'"
    by (simp add: colon_map_id)
  ultimately have "h @ CHR ''_'' # p = h' @ CHR ''_'' # p'" using eq by simp
  from last_underscore_split [OF this s(4) t(4)] s(1) t(1) show ?thesis by simp
qed

text \<open>
  C5, as the code has it. The storage root that \<open>makeServer\<close> passes to the file server is
  the node's listen address with every \<open>:\<close> replaced by \<open>_\<close>, followed by \<open>_gyattt\<close>; it
  depends on nothing else. Two nodes with distinct listen addresses get distinct
  storage roots when neither address contains \<open>_\<close>, and also when both addresses have the
  form \<open>host:port\<close> with a single \<open>:\<close> and no \<open>_\<close> in the port.
\<close>

theorem makeServer_storage_root:
  "RootStorage (ServerOps (fst (makeServer cfg w))) =
     ReplaceAll (Port cfg) '':'' ''_'' @ ''_gyattt'' \<and>
   RootStorage (ServerOps (fst (makeServer cfg w))) =
     map (\<lambda>c. if c = CHR '':'' then CHR ''_'' else c) (Port cfg) @ ''_gyattt'' \<and>
   (Port cfg = Port cfg' \<longrightarrow>
      RootStorage (ServerOps (fst (makeServer cfg w))) =
      RootStorage (ServerOps (fst (makeServer cfg' w')))) \<and>
   (Port cfg \<noteq> Port cfg' \<and> CHR ''_'' \<notin> set (Port cfg) \<and> CHR ''_'' \<notin> set (Port cfg') \<longrightarrow>
      RootStorage (ServerOps (fst (makeServer cfg w))) \<noteq>
      RootStorage (ServerOps (fst (makeServer cfg' w')))) \<and>
   (Port cfg \<noteq> Port cfg' \<and>
    Port cfg = h @ CHR '':'' # p \<and> CHR '':'' \<notin> set h \<and> CHR '':'' \<notin> set p \<and> CHR ''_'' \<notin> set p \<and>
    Port cfg' = h' @ CHR '':'' # p' \<and> CHR '':'' \<notin> set h' \<and> CHR '':'' \<notin> set p' \<and> CHR ''_'' \<notin> set p' \<longrightarrow>
      RootStorage (ServerOps (fst (makeServer cfg w))) \<noteq>
      RootStorage (ServerOps (fst (makeServer cfg' w'))))"
proof -
  have a: "RootStorage (ServerOps (fst (makeServer c v))) =
     map (\<lambda>c. if c = CHR '':'' then CHR ''_'' else c) (Port c) @ ''_gyattt''" for c v
    by (rule RootStorage_makeServer)
  have b: "RootStorage (ServerOps (fst (makeServer cfg w))) =
     ReplaceAll (Port cfg) '':'' ''_'' @ ''_gyattt''"
    unfolding a ReplaceAll_single by simp
  have c: "Port cfg = Port cfg' \<longrightarrow>
      RootStorage (ServerOps (fst (makeServer cfg w))) =
      RootStorage (ServerOps (fst (makeServer cfg' w')))"
    unfolding a by simp
  have d: "Port cfg \<noteq> Port cfg' \<and> CHR ''_'' \<notin> set (Port cfg) \<and> CHR ''_'' \<notin> set (Port cfg') \<longrightarrow>
      RootStorage (ServerOps (fst (makeServer cfg w))) \<noteq>
      RootStorage (ServerOps (fst (makeServer cfg' w')))"
    unfolding a using colon_map_inj [of "Port cfg" "Port cfg'"] by auto
  have e: "Port cfg \<noteq> Port cfg' \<and>
    Port cfg = h @ CHR '':'' # p \<and> CHR '':'' \<notin> set h \<and> CHR '':'' \<notin> set p \<and> CHR ''_'' \<notin> set p \<and>
    Port cfg' = h' @ CHR '':'' # p' \<and> CHR '':'' \<notin> set h' \<and> CHR '':'' \<notin> set p' \<and> CHR ''_'' \<notin> set p' \<longrightarrow>
      RootStorage (ServerOps (fst (makeServer cfg w))) \<noteq>
      RootStorage (ServerOps (fst (makeServer cfg' w')))"
    unfolding a using hostport_root_inj [of "Port cfg" h p "Port cfg'" h' p'] by auto
  from b a [of cfg w] c d e show ?thesis by blast
qed

theorem makeServer_storage_root_witness:
  "Port nodeA = Port (nodeA\<lparr>BootstrapNodes := ['':3001'']\<rparr>) \<and>
   RootStorage (ServerOps (fst (makeServer nodeA exampleWorld))) =
   RootStorage (ServerOps (fst (makeServer (nodeA\<lparr>BootstrapNodes := ['':3001'']\<rparr>)
     (exampleWorld\<lparr>drawn := 32\<rparr>)))) \<and>
   Port nodeA \<noteq> Port nodeB \<and>
   CHR ''_'' \<notin> set (Port nodeA) \<and> CHR ''_'' \<notin> set (Port nodeB) \<and>
   Port nodeA = [] @ CHR '':'' # ''3000'' \<and> CHR '':'' \<notin> set ''3000'' \<and> CHR ''_'' \<notin> set ''3000'' \<and>
   Port nodeB = [] @ CHR '':'' # ''3001'' \<and> CHR '':'' \<notin> set ''3001'' \<and> CHR ''_'' \<notin> set ''3001'' \<and>
   RootStorage (ServerOps (fst (makeServer nodeA exampleWorld))) = ''_3000_gyattt'' \<and>
   RootStorage (ServerOps (fst (makeServer nodeB exampleWorld))) = ''_3001_gyattt'' \<and>
   RootStorage (ServerOps (fst (makeServer nodeA exampleWorld))) \<noteq>
   RootStorage (ServerOps (fst (makeServer nodeB exampleWorld)))"
proof -
  have p0: "Port nodeA = Port (nodeA\<lparr>BootstrapNodes := ['':3001'']\<rparr>)"
    by simp
  have p1: "Port nodeA \<noteq> Port nodeB"
    by (simp add: nodeA_def nodeB_def)
  have u: "CHR ''_'' \<notin> set (Port nodeA)" "CHR ''_'' \<notin> set (Port nodeB)"
    by (simp_all add: nodeA_def nodeB_def)
  have a: "Port nodeA = [] @ CHR '':'' # ''3000''" "CHR '':'' \<notin> set ''3000''"
    "CHR ''_'' \<notin> set ''3000''" "CHR '':'' \<notin> set ([] :: string)"
    by (simp_all add: nodeA_def)
  have b: "Port nodeB = [] @ CHR '':'' # ''3001''" "CHR '':'' \<notin> set ''3001''"
    "CHR ''_'' \<notin> set ''3001''"
    by (simp_all add: nodeB_def)
  note t1 = makeServer_storage_root [of nodeA exampleWorld nodeB exampleWorld
      "[]" "''3000''" "[]" "''3001''"]
  note t2 = makeServer_storage_root [of nodeB exampleWorld nodeA exampleWorld
      "[]" "''3001''" "[]" "''3000''"]
  note t3 = makeServer_storage_root [of nodeA exampleWorld "nodeA\<lparr>BootstrapNodes := ['':3001'']\<rparr>"
      "exampleWorld\<lparr>drawn := 32\<rparr>"]
  from t3 p0
  have r0: "RootStorage (ServerOps (fst (makeServer nodeA exampleWorld))) =
   RootStorage (ServerOps (fst (makeServer (nodeA\<lparr>BootstrapNodes := ['':3001'']\<rparr>)
     (exampleWorld\<lparr>drawn := 32\<rparr>))))"
    by blast
  from t1
  have "RootStorage (ServerOps (fst (makeServer nodeA exampleWorld))) =
     ReplaceAll (Port nodeA) '':'' ''_'' @ ''_gyattt''"
    by blast
  then have r1: "RootStorage (ServerOps (fst (makeServer nodeA exampleWorld))) = ''_3000_gyattt''"
    by (simp add: nodeA_def ReplaceAll_def)
  from t2
  have "RootStorage (ServerOps (fst (makeServer nodeB exampleWorld))) =
     ReplaceAll (Port nodeB) '':'' ''_'' @ ''_gyattt''"
    by blast
  then have r2: "RootStorage (ServerOps (fst (makeServer nodeB exampleWorld))) = ''_3001_gyattt''"
    by (simp add: nodeB_def ReplaceAll_def)
  from t1 p1 u
  have r3: "RootStorage (ServerOps (fst (makeServer nodeA exampleWorld))) \<noteq>
   RootStorage (ServerOps (fst (makeServer nodeB exampleWorld)))"
    by blast
  from t1 p1 a b
  have r4: "RootStorage (ServerOps (fst (makeServer nodeA exampleWorld))) \<noteq>
   RootStorage (ServerOps (fst (makeServer nodeB exampleWorld)))"
    by blast
  from p0 r0 p1 u a(1,2,3) b r1 r2 r4 show ?thesis by blast
qed

text \<open>
  The claim as the spec words it fails: the addresses \<open>:3000\<close> and \<open>_3000\<close> are distinct
  and get the same storage root.
\<close>

theorem makeServer_storage_root_counterexample:
  "Port nodeA \<noteq> Port nodeUnderscore \<and>
   RootStorage (ServerOps (fst (makeServer nodeA exampleWorld))) =
   RootStorage (ServerOps (fst (makeServer nodeUnderscore exampleWorld)))"
  by (simp add: RootStorage_makeServer nodeA_def nodeUnderscore_def)

subsection \<open>Handshake policy\<close>

text \<open>
  C7. The transport of every server built by \<open>makeServer\<close> has \<open>DefensiveHandshakeFunc\<close> as
  its handshake, and that handshake returns no error and leaves the peer's stream as it
  was, whatever the peer: nothing is written, nothing is read, no peer is rejected.
\<close>

theorem makeServer_permissive_handshake:
  "ShakeHands (TransportOps (Transort (ServerOps (fst (makeServer cfg w))))) =
     DefensiveHandshakeFunc \<and>
   fst (ShakeHands (TransportOps (Transort (ServerOps (fst (makeServer cfg w))))) peer) = None \<and>
   snd (ShakeHands (TransportOps (Transort (ServerOps (fst (makeServer cfg w))))) peer) = peer \<and>
   bytesWritten (snd (DefensiveHandshakeFunc peer)) = bytesWritten peer \<and>
   bytesUnread (snd (DefensiveHandshakeFunc peer)) = bytesUnread peer"
  by (simp add: makeServer_def NewFileServer_def NewTCPTransport_def newEncryptionKey_def
        DefensiveHandshakeFunc_def Let_def)

subsection \<open>Loading the configuration\<close>

lemma decodeElements_length:
  "decodeElements dec js = Inr xs \<Longrightarrow> length xs = length js"
  by (induction js arbitrary: xs) (auto split: sum.splits)

lemma decodeElements_nth:
  "decodeElements dec js = Inr xs \<Longrightarrow> i < length js \<Longrightarrow> dec (js ! i) = Inr (xs ! i)"
proof (induction js arbitrary: xs i)
  case Nil
  then show ?case by simp
next
  case (Cons j js)
  then show ?case by (cases i) (auto split: sum.splits)
qed

lemma decodeElements_error:
  "j \<in> set js \<Longrightarrow> dec j = Inl err \<Longrightarrow> \<exists>err'. decodeElements dec js = Inl err'"
  by (induction js) (auto split: sum.splits)

lemma decodeElements_map:
  "(\<And>x. dec (enc x) = Inr x) \<Longrightarrow> decodeElements dec (map enc xs) = Inr xs"
  by (induction xs) auto

lemma decodeInto_JString: "decodeInto (map JString ps) arr = Inr ps"
  by (induction ps arbitrary: arr) simp_all

lemma decodeStrings_JString:
  "decodeStrings (JArray (map JString ps)) cur =
     Inr \<lparr>items = ps, spare = (if ps = [] then [] else drop (length ps) (items cur @ spare cur))\<rparr>"
  by (simp add: decodeInto_JString)

lemma fieldFor_port: "fieldFor ''port'' = Some PortField"
  by (simp add: fieldFor_def)

lemma fieldFor_peers: "fieldFor ''peers'' = Some PeersField"
  by (simp add: fieldFor_def)

lemma decodeServerConfig_configJSON:
  "decodeServerConfig (configJSON c) \<lparr>Port = [], BootstrapNodes = []\<rparr> = Inr c"
  by (cases c) (simp add: configJSON_def fieldFor_port fieldFor_peers decodeInto_JString)

lemma decodeServerConfigs_configJSON:
  "decodeServerConfigs (JArray (map configJSON cfgs)) = Inr cfgs"
  by (simp add: decodeElements_map decodeServerConfig_configJSON)

text \<open>The only error of decoding is the type error, and it comes exactly on the values
  that are not of the accepted form.\<close>

lemma decodeString_isl: "isl (decodeString v cur) = (\<not> acceptedString v)"
  by (cases v) simp_all

lemma decodeInto_isl: "isl (decodeInto js arr) = (\<not> list_all acceptedString js)"
proof (induction js arbitrary: arr)
  case Nil
  show ?case by simp
next
  case (Cons j js)
  let ?cur = "case arr of [] \<Rightarrow> [] | a # as \<Rightarrow> a"
  show ?case
  proof (cases "decodeString j ?cur")
    case (Inl err)
    with decodeString_isl [of j ?cur] show ?thesis by simp
  next
    case (Inr s)
    with decodeString_isl [of j ?cur] have a: "acceptedString j" by simp
    from Cons.IH [of "tl arr"] Inr a show ?thesis
      by (cases "decodeInto js (tl arr)") simp_all
  qed
qed

lemma decodeStrings_isl: "isl (decodeStrings v cur) = (\<not> acceptedPeers v)"
proof (cases v)
  case (JArray js)
  show ?thesis
  proof (cases "js = []")
    case True
    with JArray show ?thesis by simp
  next
    case False
    with JArray decodeInto_isl [of js "items cur @ spare cur"] show ?thesis
      by (cases "decodeInto js (items cur @ spare cur)") simp_all
  qed
qed simp_all

lemma decodeFields_isl: "isl (decodeFields members cur) = (\<not> list_all acceptedMember members)"
proof (induction members arbitrary: cur)
  case Nil
  show ?case by simp
next
  case (Cons m members)
  obtain key v where m: "m = (key, v)" by (cases m)
  show ?case
  proof (cases "fieldFor key")
    case None
    with Cons.IH [of cur] m show ?thesis by (simp add: acceptedMember_def)
  next
    case (Some f)
    show ?thesis
    proof (cases f)
      case PortField
      show ?thesis
      proof (cases "decodeString v (Port (fst cur))")
        case (Inl err)
        with decodeString_isl [of v "Port (fst cur)"] Some PortField m show ?thesis
          by (simp add: acceptedMember_def)
      next
        case (Inr s)
        with decodeString_isl [of v "Port (fst cur)"] have "acceptedString v" by simp
        with Cons.IH [of "((fst cur)\<lparr>Port := s\<rparr>, snd cur)"] Inr Some PortField m
        show ?thesis by (simp add: acceptedMember_def)
      qed
    next
      case PeersField
      let ?sl = "\<lparr>items = BootstrapNodes (fst cur), spare = snd cur\<rparr>"
      show ?thesis
      proof (cases "decodeStrings v ?sl")
        case (Inl err)
        with decodeStrings_isl [of v ?sl] Some PeersField m show ?thesis
          by (simp add: acceptedMember_def)
      next
        case (Inr ps)
        with decodeStrings_isl [of v ?sl] have "acceptedPeers v" by simp
        with Cons.IH [of "((fst cur)\<lparr>BootstrapNodes := items ps\<rparr>, spare ps)"] Inr Some PeersField m
        show ?thesis by (simp add: acceptedMember_def)
      qed
    qed
  qed
qed

lemma decodeServerConfig_isl: "isl (decodeServerConfig j cur) = (\<not> acceptedElement j)"
proof (cases j)
  case (JObject members)
  with decodeFields_isl [of members "(cur, [])"] show ?thesis
    by (cases "decodeFields members (cur, [])") simp_all
qed simp_all

lemma decodeElements_isl:
  "isl (decodeElements dec js) = (\<not> list_all (\<lambda>j. \<not> isl (dec j)) js)"
proof (induction js)
  case Nil
  show ?case by simp
next
  case (Cons j js)
  then show ?case
    by (cases "dec j"; cases "decodeElements dec js") simp_all
qed

lemma decodeServerConfigs_isl: "isl (decodeServerConfigs j) = (\<not> acceptedConfig j)"
  by (cases j) (simp_all add: decodeElements_isl decodeServerConfig_isl)

lemma decodeString_error:
  "decodeString v cur = Inl err \<Longrightarrow> err = UnmarshalTypeError"
  by (cases v) auto

lemma decodeInto_error:
  "decodeInto js arr = Inl err \<Longrightarrow> err = UnmarshalTypeError"
  by (induction js arbitrary: arr) (auto split: sum.splits dest: decodeString_error)

lemma decodeStrings_error:
  "decodeStrings v cur = Inl err \<Longrightarrow> err = UnmarshalTypeError"
  by (cases v) (auto split: if_splits sum.splits dest: decodeInto_error)

lemma decodeElements_error_kind:
  "(\<And>j e. dec j = Inl e \<Longrightarrow> e = UnmarshalTypeError) \<Longrightarrow>
   decodeElements dec js = Inl err \<Longrightarrow> err = UnmarshalTypeError"
  by (induction js) (auto split: sum.splits)

lemma decodeFields_error:
  "decodeFields members cur = Inl err \<Longrightarrow> err = UnmarshalTypeError"
proof (induction members arbitrary: cur)
  case Nil
  then show ?case by simp
next
  case (Cons m members)
  obtain key v where m: "m = (key, v)" by (cases m)
  show ?case
  proof (cases "fieldFor key")
    case None
    with Cons m show ?thesis by simp
  next
    case (Some f)
    with Cons m show ?thesis
      by (cases f) (auto split: sum.splits dest: decodeString_error decodeStrings_error)
  qed
qed

lemma decodeServerConfig_error:
  "decodeServerConfig j cur = Inl err \<Longrightarrow> err = UnmarshalTypeError"
  by (cases j) (auto split: sum.splits dest: decodeFields_error)

lemma decodeServerConfigs_error:
  "decodeServerConfigs j = Inl err \<Longrightarrow> err = UnmarshalTypeError"
  by (cases j) (auto dest: decodeElements_error_kind [rotated] decodeServerConfig_error)

lemma decodeServerConfigs_rejects:
  "\<not> acceptedConfig j \<Longrightarrow> decodeServerConfigs j = Inl UnmarshalTypeError"
proof -
  assume "\<not> acceptedConfig j"
  with decodeServerConfigs_isl [of j] obtain err where e: "decodeServerConfigs j = Inl err"
    by (cases "decodeServerConfigs j") simp_all
  with decodeServerConfigs_error [OF e] show ?thesis by simp
qed

text \<open>What the fields of a decoded element hold, by the members of the object.\<close>

lemma fieldValues_Nil: "fieldValues f [] = []"
  by (simp add: fieldValues_def)

lemma fieldValues_Cons:
  "fieldValues f ((key, v) # members) =
     (if fieldFor key = Some f then v # fieldValues f members else fieldValues f members)"
  by (simp add: fieldValues_def)

lemma port_absent:
  "decodeFields members cur = Inr res \<Longrightarrow> fieldValues PortField members = [] \<Longrightarrow>
   Port (fst res) = Port (fst cur)"
proof (induction members arbitrary: cur)
  case Nil
  then show ?case by simp
next
  case (Cons m members)
  obtain key v where m: "m = (key, v)" by (cases m)
  show ?case
  proof (cases "fieldFor key")
    case None
    with Cons.prems m have "decodeFields members cur = Inr res"
      "fieldValues PortField members = []"
      by (simp_all add: fieldValues_Cons)
    then show ?thesis by (rule Cons.IH)
  next
    case (Some f)
    show ?thesis
    proof (cases f)
      case PortField
      with Some Cons.prems(2) m show ?thesis by (simp add: fieldValues_Cons)
    next
      case PeersField
      show ?thesis
      proof (cases "decodeStrings v \<lparr>items = BootstrapNodes (fst cur), spare = snd cur\<rparr>")
        case (Inl err)
        with Some PeersField Cons.prems(1) m show ?thesis by simp
      next
        case (Inr ps)
        with Some PeersField Cons.prems m
        have "decodeFields members ((fst cur)\<lparr>BootstrapNodes := items ps\<rparr>, spare ps) = Inr res"
          "fieldValues PortField members = []"
          by (simp_all add: fieldValues_Cons)
        from Cons.IH [OF this] show ?thesis by simp
      qed
    qed
  qed
qed

lemma port_once:
  "decodeFields members cur = Inr res \<Longrightarrow> fieldValues PortField members = [v] \<Longrightarrow>
   decodeString v (Port (fst cur)) = Inr (Port (fst res))"
proof (induction members arbitrary: cur)
  case Nil
  then show ?case by (simp add: fieldValues_Nil)
next
  case (Cons m members)
  obtain key v' where m: "m = (key, v')" by (cases m)
  show ?case
  proof (cases "fieldFor key")
    case None
    with Cons.prems m have "decodeFields members cur = Inr res"
      "fieldValues PortField members = [v]"
      by (simp_all add: fieldValues_Cons)
    then show ?thesis by (rule Cons.IH)
  next
    case (Some f)
    show ?thesis
    proof (cases f)
      case PortField
      with Some Cons.prems(2) m have same: "v' = v" and n: "fieldValues PortField members = []"
        by (simp_all add: fieldValues_Cons)
      show ?thesis
      proof (cases "decodeString v (Port (fst cur))")
        case (Inl err)
        with Some PortField Cons.prems(1) m same show ?thesis by simp
      next
        case (Inr s)
        with Some PortField Cons.prems(1) m same
        have r: "decodeFields members ((fst cur)\<lparr>Port := s\<rparr>, snd cur) = Inr res"
          by simp
        from port_absent [OF r n] Inr show ?thesis by simp
      qed
    next
      case PeersField
      show ?thesis
      proof (cases "decodeStrings v' \<lparr>items = BootstrapNodes (fst cur), spare = snd cur\<rparr>")
        case (Inl err)
        with Some PeersField Cons.prems(1) m show ?thesis by simp
      next
        case (Inr ps)
        with Some PeersField Cons.prems m
        have "decodeFields members ((fst cur)\<lparr>BootstrapNodes := items ps\<rparr>, spare ps) = Inr res"
          "fieldValues PortField members = [v]"
          by (simp_all add: fieldValues_Cons)
        from Cons.IH [OF this] show ?thesis by simp
      qed
    qed
  qed
qed

lemma peers_absent:
  "decodeFields members cur = Inr res \<Longrightarrow> fieldValues PeersField members = [] \<Longrightarrow>
   BootstrapNodes (fst res) = BootstrapNodes (fst cur) \<and> snd res = snd cur"
proof (induction members arbitrary: cur)
  case Nil
  then show ?case by simp
next
  case (Cons m members)
  obtain key v where m: "m = (key, v)" by (cases m)
  show ?case
  proof (cases "fieldFor key")
    case None
    with Cons.prems m have "decodeFields members cur = Inr res"
      "fieldValues PeersField members = []"
      by (simp_all add: fieldValues_Cons)
    then show ?thesis by (rule Cons.IH)
  next
    case (Some f)
    show ?thesis
    proof (cases f)
      case PeersField
      with Some Cons.prems(2) m show ?thesis by (simp add: fieldValues_Cons)
    next
      case PortField
      show ?thesis
      proof (cases "decodeString v (Port (fst cur))")
        case (Inl err)
        with Some PortField Cons.prems(1) m show ?thesis by simp
      next
        case (Inr s)
        with Some PortField Cons.prems m
        have "decodeFields members ((fst cur)\<lparr>Port := s\<rparr>, snd cur) = Inr res"
          "fieldValues PeersField members = []"
          by (simp_all add: fieldValues_Cons)
        from Cons.IH [OF this] show ?thesis by simp
      qed
    qed
  qed
qed

lemma peers_once:
  "decodeFields members cur = Inr res \<Longrightarrow> fieldValues PeersField members = [v] \<Longrightarrow>
   \<exists>sl. decodeStrings v \<lparr>items = BootstrapNodes (fst cur), spare = snd cur\<rparr> = Inr sl \<and>
     BootstrapNodes (fst res) = items sl"
proof (induction members arbitrary: cur)
  case Nil
  then show ?case by (simp add: fieldValues_Nil)
next
  case (Cons m members)
  obtain key v' where m: "m = (key, v')" by (cases m)
  show ?case
  proof (cases "fieldFor key")
    case None
    with Cons.prems m have "decodeFields members cur = Inr res"
      "fieldValues PeersField members = [v]"
      by (simp_all add: fieldValues_Cons)
    then show ?thesis by (rule Cons.IH)
  next
    case (Some f)
    show ?thesis
    proof (cases f)
      case PeersField
      with Some Cons.prems(2) m have same: "v' = v" and n: "fieldValues PeersField members = []"
        by (simp_all add: fieldValues_Cons)
      show ?thesis
      proof (cases "decodeStrings v \<lparr>items = BootstrapNodes (fst cur), spare = snd cur\<rparr>")
        case (Inl err)
        with Some PeersField Cons.prems(1) m same show ?thesis by simp
      next
        case (Inr ps)
        with Some PeersField Cons.prems(1) m same
        have r: "decodeFields members ((fst cur)\<lparr>BootstrapNodes := items ps\<rparr>, spare ps) = Inr res"
          by simp
        from peers_absent [OF r n] Inr show ?thesis by simp
      qed
    next
      case PortField
      show ?thesis
      proof (cases "decodeString v' (Port (fst cur))")
        case (Inl err)
        with Some PortField Cons.prems(1) m show ?thesis by simp
      next
        case (Inr s)
        with Some PortField Cons.prems m
        have "decodeFields members ((fst cur)\<lparr>Port := s\<rparr>, snd cur) = Inr res"
          "fieldValues PeersField members = [v]"
          by (simp_all add: fieldValues_Cons)
        from Cons.IH [OF this] show ?thesis by simp
      qed
    qed
  qed
qed

lemma decodeFields_bad_port:
  "(key, v) \<in> set members \<Longrightarrow> fieldFor key = Some PortField \<Longrightarrow>
   v \<noteq> JNull \<Longrightarrow> (\<And>s. v \<noteq> JString s) \<Longrightarrow> \<exists>err. decodeFields members cur = Inl err"
proof -
  assume k: "(key, v) \<in> set members" "fieldFor key = Some PortField"
    and v: "v \<noteq> JNull" "\<And>s. v \<noteq> JString s"
  have "\<not> acceptedString v" using v by (cases v) auto
  with k(2) have "\<not> acceptedMember (key, v)" by (simp add: acceptedMember_def)
  with k(1) have "\<not> list_all acceptedMember members" by (auto simp: list_all_iff)
  with decodeFields_isl [of members cur] show ?thesis
    by (cases "decodeFields members cur") simp_all
qed

text \<open>The fields of an element decoded from an object, the struct being new.\<close>

lemma element_fields:
  assumes "decodeServerConfig (JObject members) \<lparr>Port = [], BootstrapNodes = []\<rparr> = Inr c"
  shows "fieldValues PortField members = [] \<or> fieldValues PortField members = [JNull] \<Longrightarrow>
           Port c = []"
    and "fieldValues PortField members = [JString p] \<Longrightarrow> Port c = p"
    and "fieldValues PeersField members = [] \<or> fieldValues PeersField members = [JNull] \<Longrightarrow>
           BootstrapNodes c = []"
    and "fieldValues PeersField members = [JArray (map JString ps)] \<Longrightarrow> BootstrapNodes c = ps"
proof -
  let ?zero = "(\<lparr>Port = [], BootstrapNodes = []\<rparr>, [] :: string list)"
  from assms obtain res where r: "decodeFields members ?zero = Inr res" and c: "c = fst res"
    by (auto split: sum.splits)
  show "Port c = []"
    if "fieldValues PortField members = [] \<or> fieldValues PortField members = [JNull]"
    using that port_absent [OF r] port_once [OF r, of JNull] c by auto
  show "Port c = p" if "fieldValues PortField members = [JString p]"
    using port_once [OF r that] c by simp
  show "BootstrapNodes c = []"
    if "fieldValues PeersField members = [] \<or> fieldValues PeersField members = [JNull]"
    using that peers_absent [OF r] peers_once [OF r, of JNull] c by auto
  show "BootstrapNodes c = ps" if "fieldValues PeersField members = [JArray (map JString ps)]"
    using peers_once [OF r that] c by (auto simp: decodeInto_JString split: if_splits)
qed

lemma loadConfig_unfold:
  "loadConfig scan fs path =
     (case os_Open fs path of
        Inl err \<Rightarrow> Inl err
      | Inr opened \<Rightarrow>
          (case scan (fileBytes fs opened) of
             Inl err \<Rightarrow> Inl err
           | Inr j \<Rightarrow> decodeServerConfigs j))"
  by (simp add: loadConfig_def json_Decode_def split: sum.splits)

text \<open>
  C6, as the code has it. \<open>loadConfig\<close> returns the error, and no configuration, when the
  file cannot be opened, when the scanner rejects its content, and when the scanned value
  does not decode into a slice of \<open>ServerConfig\<close>, which is a type error: a value that is
  neither an array nor \<open>null\<close>, an element that is neither an object nor \<open>null\<close>, a \<open>port\<close>
  that is neither a string nor \<open>null\<close>, and in general every value that is not of the
  accepted form. Every value of the accepted form gives a configuration and no error:
  \<open>null\<close> gives the empty one, and an object need not have the two fields. What
  \<open>loadConfig\<close> returns for a file that opens and scans is what the scanned value
  decodes to. For an array it is exactly one \<open>ServerConfig\<close> per element, the one that
  element decodes to: the zero value for \<open>null\<close>; for an object, \<open>Port\<close> is the string of
  its \<open>port\<close> member and \<open>BootstrapNodes\<close> are the strings of its \<open>peers\<close> member, and each is
  empty when the member is missing or \<open>null\<close>. An array of objects
  \<open>{"port": p, "peers": [...]}\<close> yields the configurations with exactly these ports and
  peers, in order.
\<close>

theorem loadConfig_result:
  "(os_Open fs path = Inl err \<longrightarrow> loadConfig scan fs path = Inl err) \<and>
   (os_Open fs path = Inr opened \<and> scan (fileBytes fs opened) = Inl err \<longrightarrow>
      loadConfig scan fs path = Inl err) \<and>
   (os_Open fs path = Inr opened \<and> scan (fileBytes fs opened) = Inr j \<and>
    decodeServerConfigs j = Inl err \<longrightarrow>
      loadConfig scan fs path = Inl err \<and> err = UnmarshalTypeError) \<and>
   (os_Open fs path = Inr opened \<and> scan (fileBytes fs opened) = Inr j \<and>
    j \<noteq> JNull \<and> (\<forall>elems. j \<noteq> JArray elems) \<longrightarrow>
      loadConfig scan fs path = Inl UnmarshalTypeError) \<and>
   (os_Open fs path = Inr opened \<and> scan (fileBytes fs opened) = Inr (JArray elems) \<and>
    e \<in> set elems \<and> e \<noteq> JNull \<and> (\<forall>members. e \<noteq> JObject members) \<longrightarrow>
      loadConfig scan fs path = Inl UnmarshalTypeError) \<and>
   (os_Open fs path = Inr opened \<and> scan (fileBytes fs opened) = Inr (JArray elems) \<and>
    JObject members \<in> set elems \<and> (''port'', v) \<in> set members \<and>
    v \<noteq> JNull \<and> (\<forall>s. v \<noteq> JString s) \<longrightarrow>
      loadConfig scan fs path = Inl UnmarshalTypeError) \<and>
   (loadConfig scan fs path = Inr cfgs \<longrightarrow>
      (\<exists>opened j. os_Open fs path = Inr opened \<and> scan (fileBytes fs opened) = Inr j \<and>
         decodeServerConfigs j = Inr cfgs)) \<and>
   (os_Open fs path = Inr opened \<and> scan (fileBytes fs opened) = Inr (JArray elems) \<and>
    loadConfig scan fs path = Inr cfgs \<longrightarrow>
      length cfgs = length elems \<and>
      (\<forall>i<length elems.
         decodeServerConfig (elems ! i) \<lparr>Port = [], BootstrapNodes = []\<rparr> = Inr (cfgs ! i))) \<and>
   (os_Open fs path = Inr opened \<and> scan (fileBytes fs opened) = Inr (JArray (map configJSON cfgs)) \<longrightarrow>
      loadConfig scan fs path = Inr cfgs) \<and>
   (os_Open fs path = Inr opened \<and> scan (fileBytes fs opened) = Inr j \<longrightarrow>
      loadConfig scan fs path = decodeServerConfigs j) \<and>
   (os_Open fs path = Inr opened \<and> scan (fileBytes fs opened) = Inr j \<and>
    \<not> acceptedConfig j \<longrightarrow>
      loadConfig scan fs path = Inl UnmarshalTypeError) \<and>
   (os_Open fs path = Inr opened \<and> scan (fileBytes fs opened) = Inr j \<and>
    acceptedConfig j \<longrightarrow>
      (\<exists>loaded. loadConfig scan fs path = Inr loaded)) \<and>
   (os_Open fs path = Inr opened \<and> scan (fileBytes fs opened) = Inr JNull \<longrightarrow>
      loadConfig scan fs path = Inr []) \<and>
   (os_Open fs path = Inr opened \<and> scan (fileBytes fs opened) = Inr (JArray elems) \<and>
    loadConfig scan fs path = Inr cfgs \<and> n < length elems \<and> elems ! n = JNull \<longrightarrow>
      cfgs ! n = \<lparr>Port = [], BootstrapNodes = []\<rparr>) \<and>
   (os_Open fs path = Inr opened \<and> scan (fileBytes fs opened) = Inr (JArray elems) \<and>
    loadConfig scan fs path = Inr cfgs \<and> n < length elems \<and> elems ! n = JObject mems \<longrightarrow>
      (fieldValues PortField mems = [] \<or> fieldValues PortField mems = [JNull] \<longrightarrow>
         Port (cfgs ! n) = []) \<and>
      (fieldValues PortField mems = [JString p] \<longrightarrow> Port (cfgs ! n) = p) \<and>
      (fieldValues PeersField mems = [] \<or> fieldValues PeersField mems = [JNull] \<longrightarrow>
         BootstrapNodes (cfgs ! n) = []) \<and>
      (fieldValues PeersField mems = [JArray (map JString ps)] \<longrightarrow>
         BootstrapNodes (cfgs ! n) = ps))"
proof -
  have c1: "os_Open fs path = Inl err \<longrightarrow> loadConfig scan fs path = Inl err"
    by (simp add: loadConfig_unfold)
  have c2: "os_Open fs path = Inr opened \<and> scan (fileBytes fs opened) = Inl err \<longrightarrow>
      loadConfig scan fs path = Inl err"
    by (simp add: loadConfig_unfold)
  have c3: "os_Open fs path = Inr opened \<and> scan (fileBytes fs opened) = Inr j \<and>
    decodeServerConfigs j = Inl err \<longrightarrow>
      loadConfig scan fs path = Inl err \<and> err = UnmarshalTypeError"
    by (auto simp: loadConfig_unfold dest: decodeServerConfigs_error)
  have c4: "os_Open fs path = Inr opened \<and> scan (fileBytes fs opened) = Inr j \<and>
    j \<noteq> JNull \<and> (\<forall>elems. j \<noteq> JArray elems) \<longrightarrow>
      loadConfig scan fs path = Inl UnmarshalTypeError"
    by (cases j) (simp_all add: loadConfig_unfold)
  have c5: "os_Open fs path = Inr opened \<and> scan (fileBytes fs opened) = Inr (JArray elems) \<and>
    e \<in> set elems \<and> e \<noteq> JNull \<and> (\<forall>members. e \<noteq> JObject members) \<longrightarrow>
      loadConfig scan fs path = Inl UnmarshalTypeError"
  proof (intro impI, elim conjE)
    assume o: "os_Open fs path = Inr opened" and s: "scan (fileBytes fs opened) = Inr (JArray elems)"
      and e: "e \<in> set elems" "e \<noteq> JNull" "\<forall>members. e \<noteq> JObject members"
    from e(2,3) have "decodeServerConfig e \<lparr>Port = [], BootstrapNodes = []\<rparr> = Inl UnmarshalTypeError"
      by (cases e) simp_all
    from decodeElements_error
      [of e elems "\<lambda>j. decodeServerConfig j \<lparr>Port = [], BootstrapNodes = []\<rparr>", OF e(1) this]
    obtain err' where d: "decodeServerConfigs (JArray elems) = Inl err'" by auto
    from decodeServerConfigs_error [OF d] d o s show "loadConfig scan fs path = Inl UnmarshalTypeError"
      by (simp add: loadConfig_unfold)
  qed
  have c6: "os_Open fs path = Inr opened \<and> scan (fileBytes fs opened) = Inr (JArray elems) \<and>
    JObject members \<in> set elems \<and> (''port'', v) \<in> set members \<and>
    v \<noteq> JNull \<and> (\<forall>s. v \<noteq> JString s) \<longrightarrow>
      loadConfig scan fs path = Inl UnmarshalTypeError"
  proof (intro impI, elim conjE)
    assume o: "os_Open fs path = Inr opened" and s: "scan (fileBytes fs opened) = Inr (JArray elems)"
      and e: "JObject members \<in> set elems" and m: "(''port'', v) \<in> set members"
      and v: "v \<noteq> JNull" "\<forall>s. v \<noteq> JString s"
    from decodeFields_bad_port [OF m fieldFor_port v(1), of "(\<lparr>Port = [], BootstrapNodes = []\<rparr>, [])"] v(2)
    obtain err0 where "decodeFields members (\<lparr>Port = [], BootstrapNodes = []\<rparr>, []) = Inl err0"
      by auto
    then have "decodeServerConfig (JObject members) \<lparr>Port = [], BootstrapNodes = []\<rparr> = Inl err0"
      by simp
    from decodeElements_error
      [of "JObject members" elems "\<lambda>j. decodeServerConfig j \<lparr>Port = [], BootstrapNodes = []\<rparr>",
       OF e this]
    obtain err' where d: "decodeServerConfigs (JArray elems) = Inl err'" by auto
    from decodeServerConfigs_error [OF d] d o s show "loadConfig scan fs path = Inl UnmarshalTypeError"
      by (simp add: loadConfig_unfold)
  qed
  have c7: "loadConfig scan fs path = Inr cfgs \<longrightarrow>
      (\<exists>opened j. os_Open fs path = Inr opened \<and> scan (fileBytes fs opened) = Inr j \<and>
         decodeServerConfigs j = Inr cfgs)"
    by (auto simp: loadConfig_unfold split: sum.splits)
  have c8: "os_Open fs path = Inr opened \<and> scan (fileBytes fs opened) = Inr (JArray elems) \<and>
    loadConfig scan fs path = Inr cfgs \<longrightarrow>
      length cfgs = length elems \<and>
      (\<forall>i<length elems.
         decodeServerConfig (elems ! i) \<lparr>Port = [], BootstrapNodes = []\<rparr> = Inr (cfgs ! i))"
    by (auto simp: loadConfig_unfold dest: decodeElements_length decodeElements_nth)
  have c9: "os_Open fs path = Inr opened \<and> scan (fileBytes fs opened) = Inr (JArray (map configJSON cfgs)) \<longrightarrow>
      loadConfig scan fs path = Inr cfgs"
    using decodeServerConfigs_configJSON [of cfgs] by (simp add: loadConfig_unfold)
  have c10: "os_Open fs path = Inr opened \<and> scan (fileBytes fs opened) = Inr j \<longrightarrow>
      loadConfig scan fs path = decodeServerConfigs j"
    by (simp add: loadConfig_unfold)
  have c11: "os_Open fs path = Inr opened \<and> scan (fileBytes fs opened) = Inr j \<and>
    \<not> acceptedConfig j \<longrightarrow>
      loadConfig scan fs path = Inl UnmarshalTypeError"
    by (simp add: loadConfig_unfold decodeServerConfigs_rejects)
  have c12: "os_Open fs path = Inr opened \<and> scan (fileBytes fs opened) = Inr j \<and>
    acceptedConfig j \<longrightarrow>
      (\<exists>loaded. loadConfig scan fs path = Inr loaded)"
  proof (intro impI, elim conjE)
    assume o: "os_Open fs path = Inr opened" and s: "scan (fileBytes fs opened) = Inr j"
      and a: "acceptedConfig j"
    from a decodeServerConfigs_isl [of j] obtain loaded where "decodeServerConfigs j = Inr loaded"
      by (cases "decodeServerConfigs j") simp_all
    with o s show "\<exists>loaded. loadConfig scan fs path = Inr loaded"
      by (simp add: loadConfig_unfold)
  qed
  have c13: "os_Open fs path = Inr opened \<and> scan (fileBytes fs opened) = Inr JNull \<longrightarrow>
      loadConfig scan fs path = Inr []"
    by (simp add: loadConfig_unfold)
  have nth: "decodeServerConfig (elems ! n) \<lparr>Port = [], BootstrapNodes = []\<rparr> = Inr (cfgs ! n)"
    if o: "os_Open fs path = Inr opened" and s: "scan (fileBytes fs opened) = Inr (JArray elems)"
      and l: "loadConfig scan fs path = Inr cfgs" and n: "n < length elems"
  proof -
    from o s l
    have "decodeElements (\<lambda>j. decodeServerConfig j \<lparr>Port = [], BootstrapNodes = []\<rparr>) elems = Inr cfgs"
      by (simp add: loadConfig_unfold)
    from decodeElements_nth [OF this n] show ?thesis .
  qed
  have c14: "os_Open fs path = Inr opened \<and> scan (fileBytes fs opened) = Inr (JArray elems) \<and>
    loadConfig scan fs path = Inr cfgs \<and> n < length elems \<and> elems ! n = JNull \<longrightarrow>
      cfgs ! n = \<lparr>Port = [], BootstrapNodes = []\<rparr>"
    using nth by auto
  have c15: "os_Open fs path = Inr opened \<and> scan (fileBytes fs opened) = Inr (JArray elems) \<and>
    loadConfig scan fs path = Inr cfgs \<and> n < length elems \<and> elems ! n = JObject mems \<longrightarrow>
      (fieldValues PortField mems = [] \<or> fieldValues PortField mems = [JNull] \<longrightarrow>
         Port (cfgs ! n) = []) \<and>
      (fieldValues PortField mems = [JString p] \<longrightarrow> Port (cfgs ! n) = p) \<and>
      (fieldValues PeersField mems = [] \<or> fieldValues PeersField mems = [JNull] \<longrightarrow>
         BootstrapNodes (cfgs ! n) = []) \<and>
      (fieldValues PeersField mems = [JArray (map JString ps)] \<longrightarrow>
         BootstrapNodes (cfgs ! n) = ps)"
  proof (intro impI, elim conjE)
    assume o: "os_Open fs path = Inr opened" and s: "scan (fileBytes fs opened) = Inr (JArray elems)"
      and l: "loadConfig scan fs path = Inr cfgs" and n: "n < length elems"
      and e: "elems ! n = JObject mems"
    from nth [OF o s l n] e
    have d: "decodeServerConfig (JObject mems) \<lparr>Port = [], BootstrapNodes = []\<rparr> = Inr (cfgs ! n)"
      by simp
    from element_fields [OF d]
    show "(fieldValues PortField mems = [] \<or> fieldValues PortField mems = [JNull] \<longrightarrow>
         Port (cfgs ! n) = []) \<and>
      (fieldValues PortField mems = [JString p] \<longrightarrow> Port (cfgs ! n) = p) \<and>
      (fieldValues PeersField mems = [] \<or> fieldValues PeersField mems = [JNull] \<longrightarrow>
         BootstrapNodes (cfgs ! n) = []) \<and>
      (fieldValues PeersField mems = [JArray (map JString ps)] \<longrightarrow>
         BootstrapNodes (cfgs ! n) = ps)"
      by blast
  qed
  show ?thesis
    apply (intro conjI)
    apply (rule c1) apply (rule c2) apply (rule c3) apply (rule c4) apply (rule c5)
    apply (rule c6) apply (rule c7) apply (rule c8) apply (rule c9) apply (rule c10)
    apply (rule c11) apply (rule c12) apply (rule c13) apply (rule c14) apply (rule c15)
    done
qed

theorem loadConfig_result_witness:
  "os_Open exampleDisk ''missing.json'' =
     Inl (PathError ''open'' ''missing.json'' ''no such file or directory'') \<and>
   loadConfig exampleScan exampleDisk ''missing.json'' =
     Inl (PathError ''open'' ''missing.json'' ''no such file or directory'') \<and>
   os_Open exampleDisk ''broken.json'' = Inr (newFile ''broken.json'' [O_RDONLY]) \<and>
   exampleScan (fileBytes exampleDisk (newFile ''broken.json'' [O_RDONLY])) = Inl ErrUnexpectedEOF \<and>
   loadConfig exampleScan exampleDisk ''broken.json'' = Inl ErrUnexpectedEOF \<and>
   os_Open exampleDisk ''syntax.json'' = Inr (newFile ''syntax.json'' [O_RDONLY]) \<and>
   exampleScan (fileBytes exampleDisk (newFile ''syntax.json'' [O_RDONLY])) = Inl SyntaxError \<and>
   loadConfig exampleScan exampleDisk ''syntax.json'' = Inl SyntaxError \<and>
   os_Open exampleDisk ''empty.json'' = Inr (newFile ''empty.json'' [O_RDONLY]) \<and>
   exampleScan (fileBytes exampleDisk (newFile ''empty.json'' [O_RDONLY])) = Inl EOF \<and>
   loadConfig exampleScan exampleDisk ''empty.json'' = Inl EOF \<and>
   os_Open exampleDisk ''object.json'' = Inr (newFile ''object.json'' [O_RDONLY]) \<and>
   exampleScan (fileBytes exampleDisk (newFile ''object.json'' [O_RDONLY])) = Inr (JObject []) \<and>
   \<not> acceptedConfig (JObject []) \<and>
   loadConfig exampleScan exampleDisk ''object.json'' = Inl UnmarshalTypeError \<and>
   os_Open exampleDisk ''numbers.json'' = Inr (newFile ''numbers.json'' [O_RDONLY]) \<and>
   exampleScan (fileBytes exampleDisk (newFile ''numbers.json'' [O_RDONLY])) =
     Inr (JArray [JNumber ''5'']) \<and>
   decodeServerConfigs (JArray [JNumber ''5'']) = Inl UnmarshalTypeError \<and>
   JNumber ''5'' \<in> set [JNumber ''5''] \<and>
   loadConfig exampleScan exampleDisk ''numbers.json'' = Inl UnmarshalTypeError \<and>
   os_Open exampleDisk ''port.json'' = Inr (newFile ''port.json'' [O_RDONLY]) \<and>
   exampleScan (fileBytes exampleDisk (newFile ''port.json'' [O_RDONLY])) =
     Inr (JArray [JObject [(''port'', JNumber ''3000'')]]) \<and>
   JObject [(''port'', JNumber ''3000'')] \<in> set [JObject [(''port'', JNumber ''3000'')]] \<and>
   (''port'', JNumber ''3000'') \<in> set [(''port'', JNumber ''3000'')] \<and>
   loadConfig exampleScan exampleDisk ''port.json'' = Inl UnmarshalTypeError \<and>
   os_Open exampleDisk ''null.json'' = Inr (newFile ''null.json'' [O_RDONLY]) \<and>
   exampleScan (fileBytes exampleDisk (newFile ''null.json'' [O_RDONLY])) = Inr JNull \<and>
   acceptedConfig JNull \<and>
   (\<exists>loaded. loadConfig exampleScan exampleDisk ''null.json'' = Inr loaded) \<and>
   loadConfig exampleScan exampleDisk ''null.json'' = Inr [] \<and>
   os_Open exampleDisk ''bare.json'' = Inr (newFile ''bare.json'' [O_RDONLY]) \<and>
   exampleScan (fileBytes exampleDisk (newFile ''bare.json'' [O_RDONLY])) =
     Inr (JArray [JObject []]) \<and>
   loadConfig exampleScan exampleDisk ''bare.json'' = Inr [\<lparr>Port = [], BootstrapNodes = []\<rparr>] \<and>
   fieldValues PortField [] = [] \<and> fieldValues PeersField [] = [] \<and>
   Port ([\<lparr>Port = [], BootstrapNodes = []\<rparr>] ! 0) = [] \<and>
   BootstrapNodes ([\<lparr>Port = [], BootstrapNodes = []\<rparr>] ! 0) = [] \<and>
   os_Open exampleDisk ''repeated.json'' = Inr (newFile ''repeated.json'' [O_RDONLY]) \<and>
   exampleScan (fileBytes exampleDisk (newFile ''repeated.json'' [O_RDONLY])) =
     Inr repeatedPeersValue \<and>
   loadConfig exampleScan exampleDisk ''repeated.json'' =
     Inr [\<lparr>Port = [], BootstrapNodes = [''a'', ''c'']\<rparr>] \<and>
   os_Open exampleDisk ''upper.json'' = Inr (newFile ''upper.json'' [O_RDONLY]) \<and>
   exampleScan (fileBytes exampleDisk (newFile ''upper.json'' [O_RDONLY])) =
     Inr (JArray [JNull, JObject upperCaseMembers]) \<and>
   loadConfig exampleScan exampleDisk ''upper.json'' =
     Inr [\<lparr>Port = [], BootstrapNodes = []\<rparr>,
          \<lparr>Port = '':3002'', BootstrapNodes = ['':3000'', []]\<rparr>] \<and>
   [JNull, JObject upperCaseMembers] ! 0 = JNull \<and>
   [\<lparr>Port = [], BootstrapNodes = []\<rparr>,
    \<lparr>Port = '':3002'', BootstrapNodes = ['':3000'', []]\<rparr>] ! 0 =
     \<lparr>Port = [], BootstrapNodes = []\<rparr> \<and>
   [JNull, JObject upperCaseMembers] ! 1 = JObject upperCaseMembers \<and>
   fieldValues PortField upperCaseMembers = [JString '':3002''] \<and>
   Port ([\<lparr>Port = [], BootstrapNodes = []\<rparr>,
          \<lparr>Port = '':3002'', BootstrapNodes = ['':3000'', []]\<rparr>] ! 1) = '':3002'' \<and>
   os_Open exampleDisk ''startServerConfig.json'' =
     Inr (newFile ''startServerConfig.json'' [O_RDONLY]) \<and>
   exampleScan (fileBytes exampleDisk (newFile ''startServerConfig.json'' [O_RDONLY])) =
     Inr (JArray (map configJSON [nodeA, nodeB])) \<and>
   loadConfig exampleScan exampleDisk ''startServerConfig.json'' = Inr [nodeA, nodeB] \<and>
   (\<exists>opened j. os_Open exampleDisk ''startServerConfig.json'' = Inr opened \<and>
      exampleScan (fileBytes exampleDisk opened) = Inr j \<and>
      decodeServerConfigs j = Inr [nodeA, nodeB]) \<and>
   length [nodeA, nodeB] = length (map configJSON [nodeA, nodeB]) \<and>
   (1::nat) < length (map configJSON [nodeA, nodeB]) \<and>
   decodeServerConfig (map configJSON [nodeA, nodeB] ! 1) \<lparr>Port = [], BootstrapNodes = []\<rparr> =
     Inr ([nodeA, nodeB] ! 1) \<and>
   map configJSON [nodeA, nodeB] ! 1 =
     JObject [(''port'', JString '':3001''), (''peers'', JArray (map JString ['':3000'']))] \<and>
   fieldValues PeersField
     [(''port'', JString '':3001''), (''peers'', JArray (map JString ['':3000'']))] =
     [JArray (map JString ['':3000''])] \<and>
   BootstrapNodes ([nodeA, nodeB] ! 1) = ['':3000'']"
proof -
  have o1: "os_Open exampleDisk ''missing.json'' =
     Inl (PathError ''open'' ''missing.json'' ''no such file or directory'')"
    by (simp add: os_Open_def os_OpenFile_def exampleDisk_def)
  have o2: "os_Open exampleDisk ''broken.json'' = Inr (newFile ''broken.json'' [O_RDONLY])"
    by (simp add: os_Open_def os_OpenFile_def exampleDisk_def)
  have s2: "exampleScan (fileBytes exampleDisk (newFile ''broken.json'' [O_RDONLY])) =
      Inl ErrUnexpectedEOF"
    by (simp add: exampleScan_def fileBytes_def newFile_def exampleDisk_def exampleConfigText_def
          numericPortText_def repeatedPeersText_def upperCaseText_def)
  have o2a: "os_Open exampleDisk ''syntax.json'' = Inr (newFile ''syntax.json'' [O_RDONLY])"
    by (simp add: os_Open_def os_OpenFile_def exampleDisk_def)
  have s2a: "exampleScan (fileBytes exampleDisk (newFile ''syntax.json'' [O_RDONLY])) =
      Inl SyntaxError"
    by (simp add: exampleScan_def fileBytes_def newFile_def exampleDisk_def exampleConfigText_def
          numericPortText_def repeatedPeersText_def upperCaseText_def)
  have o2b: "os_Open exampleDisk ''empty.json'' = Inr (newFile ''empty.json'' [O_RDONLY])"
    by (simp add: os_Open_def os_OpenFile_def exampleDisk_def)
  have s2b: "exampleScan (fileBytes exampleDisk (newFile ''empty.json'' [O_RDONLY])) = Inl EOF"
    by (simp add: exampleScan_def fileBytes_def newFile_def exampleDisk_def exampleConfigText_def
          numericPortText_def repeatedPeersText_def upperCaseText_def)
  have o3: "os_Open exampleDisk ''object.json'' = Inr (newFile ''object.json'' [O_RDONLY])"
    by (simp add: os_Open_def os_OpenFile_def exampleDisk_def)
  have s3: "exampleScan (fileBytes exampleDisk (newFile ''object.json'' [O_RDONLY])) = Inr (JObject [])"
    by (simp add: exampleScan_def fileBytes_def newFile_def exampleDisk_def exampleConfigText_def)
  have a3: "\<not> acceptedConfig (JObject [])"
    by simp
  have o4: "os_Open exampleDisk ''startServerConfig.json'' =
     Inr (newFile ''startServerConfig.json'' [O_RDONLY])"
    by (simp add: os_Open_def os_OpenFile_def exampleDisk_def)
  have s4: "exampleScan (fileBytes exampleDisk (newFile ''startServerConfig.json'' [O_RDONLY])) =
     Inr (JArray (map configJSON [nodeA, nodeB]))"
    by (simp add: exampleScan_def fileBytes_def newFile_def exampleDisk_def)
  have o5: "os_Open exampleDisk ''numbers.json'' = Inr (newFile ''numbers.json'' [O_RDONLY])"
    by (simp add: os_Open_def os_OpenFile_def exampleDisk_def)
  have s5: "exampleScan (fileBytes exampleDisk (newFile ''numbers.json'' [O_RDONLY])) =
     Inr (JArray [JNumber ''5''])"
    by (simp add: exampleScan_def fileBytes_def newFile_def exampleDisk_def exampleConfigText_def)
  have d5: "decodeServerConfigs (JArray [JNumber ''5'']) = Inl UnmarshalTypeError"
    by simp
  have m5: "JNumber ''5'' \<in> set [JNumber ''5'']"
    by simp
  have o6: "os_Open exampleDisk ''port.json'' = Inr (newFile ''port.json'' [O_RDONLY])"
    by (simp add: os_Open_def os_OpenFile_def exampleDisk_def)
  have s6: "exampleScan (fileBytes exampleDisk (newFile ''port.json'' [O_RDONLY])) =
     Inr (JArray [JObject [(''port'', JNumber ''3000'')]])"
    by (simp add: exampleScan_def fileBytes_def newFile_def exampleDisk_def exampleConfigText_def
          numericPortText_def)
  have m6: "JObject [(''port'', JNumber ''3000'')] \<in> set [JObject [(''port'', JNumber ''3000'')]]"
    "(''port'', JNumber ''3000'') \<in> set [(''port'', JNumber ''3000'')]"
    by simp_all
  have o7: "os_Open exampleDisk ''null.json'' = Inr (newFile ''null.json'' [O_RDONLY])"
    by (simp add: os_Open_def os_OpenFile_def exampleDisk_def)
  have s7: "exampleScan (fileBytes exampleDisk (newFile ''null.json'' [O_RDONLY])) = Inr JNull"
    by (simp add: exampleScan_def fileBytes_def newFile_def exampleDisk_def exampleConfigText_def
          numericPortText_def)
  have a7: "acceptedConfig JNull"
    by simp
  have o8: "os_Open exampleDisk ''bare.json'' = Inr (newFile ''bare.json'' [O_RDONLY])"
    by (simp add: os_Open_def os_OpenFile_def exampleDisk_def)
  have s8: "exampleScan (fileBytes exampleDisk (newFile ''bare.json'' [O_RDONLY])) =
     Inr (JArray [JObject []])"
    by (simp add: exampleScan_def fileBytes_def newFile_def exampleDisk_def exampleConfigText_def
          numericPortText_def)
  have d8: "decodeServerConfigs (JArray [JObject []]) = Inr [\<lparr>Port = [], BootstrapNodes = []\<rparr>]"
    by simp
  have f8: "fieldValues PortField [] = []" "fieldValues PeersField [] = []"
    by (simp_all add: fieldValues_def)
  have n8: "(0::nat) < length [JObject []]" "[JObject []] ! 0 = JObject []"
    by simp_all
  have o9: "os_Open exampleDisk ''repeated.json'' = Inr (newFile ''repeated.json'' [O_RDONLY])"
    by (simp add: os_Open_def os_OpenFile_def exampleDisk_def)
  have s9: "exampleScan (fileBytes exampleDisk (newFile ''repeated.json'' [O_RDONLY])) =
     Inr repeatedPeersValue"
    by (simp add: exampleScan_def fileBytes_def newFile_def exampleDisk_def exampleConfigText_def
          numericPortText_def repeatedPeersText_def)
  have d9: "decodeServerConfigs repeatedPeersValue =
     Inr [\<lparr>Port = [], BootstrapNodes = [''a'', ''c'']\<rparr>]"
    by (simp add: repeatedPeersValue_def fieldFor_def)
  have o10: "os_Open exampleDisk ''upper.json'' = Inr (newFile ''upper.json'' [O_RDONLY])"
    by (simp add: os_Open_def os_OpenFile_def exampleDisk_def)
  have s10: "exampleScan (fileBytes exampleDisk (newFile ''upper.json'' [O_RDONLY])) =
     Inr (JArray [JNull, JObject upperCaseMembers])"
    by (simp add: exampleScan_def fileBytes_def newFile_def exampleDisk_def exampleConfigText_def
          numericPortText_def repeatedPeersText_def upperCaseText_def upperCaseValue_def)
  have k10: "fieldFor ''PORT'' = Some PortField" "fieldFor ''Peers'' = Some PeersField"
    "fieldFor ''note'' = None"
    by (simp_all add: fieldFor_def upperASCII_def)
  have d10: "decodeServerConfigs (JArray [JNull, JObject upperCaseMembers]) =
     Inr [\<lparr>Port = [], BootstrapNodes = []\<rparr>,
          \<lparr>Port = '':3002'', BootstrapNodes = ['':3000'', []]\<rparr>]"
    by (simp add: upperCaseMembers_def k10)
  have f10: "fieldValues PortField upperCaseMembers = [JString '':3002'']"
    by (simp add: fieldValues_def upperCaseMembers_def k10)
  have n10: "(0::nat) < length [JNull, JObject upperCaseMembers]"
    "[JNull, JObject upperCaseMembers] ! 0 = JNull"
    "(1::nat) < length [JNull, JObject upperCaseMembers]"
    "[JNull, JObject upperCaseMembers] ! 1 = JObject upperCaseMembers"
    by simp_all
  have e4: "map configJSON [nodeA, nodeB] ! 1 =
     JObject [(''port'', JString '':3001''), (''peers'', JArray (map JString ['':3000'']))]"
    by (simp add: configJSON_def nodeB_def)
  have f4: "fieldValues PeersField
     [(''port'', JString '':3001''), (''peers'', JArray (map JString ['':3000'']))] =
     [JArray (map JString ['':3000''])]"
    by (simp add: fieldValues_def fieldFor_def)
  note t1 = loadConfig_result [where fs = exampleDisk and path = "''missing.json''"
      and err = "PathError ''open'' ''missing.json'' ''no such file or directory''"
      and scan = exampleScan]
  note t2 = loadConfig_result [where fs = exampleDisk and path = "''broken.json''"
      and err = ErrUnexpectedEOF and scan = exampleScan
      and opened = "newFile ''broken.json'' [O_RDONLY]"]
  note t2a = loadConfig_result [where fs = exampleDisk and path = "''syntax.json''"
      and err = SyntaxError and scan = exampleScan
      and opened = "newFile ''syntax.json'' [O_RDONLY]"]
  note t2b = loadConfig_result [where fs = exampleDisk and path = "''empty.json''"
      and err = EOF and scan = exampleScan and opened = "newFile ''empty.json'' [O_RDONLY]"]
  note t3 = loadConfig_result [where fs = exampleDisk and path = "''object.json''"
      and scan = exampleScan and opened = "newFile ''object.json'' [O_RDONLY]" and j = "JObject []"]
  note t4 = loadConfig_result [where fs = exampleDisk and path = "''startServerConfig.json''"
      and scan = exampleScan and opened = "newFile ''startServerConfig.json'' [O_RDONLY]"
      and cfgs = "[nodeA, nodeB]" and elems = "map configJSON [nodeA, nodeB]" and n = 1
      and mems = "[(''port'', JString '':3001''), (''peers'', JArray (map JString ['':3000'']))]"
      and ps = "['':3000'']"]
  note t5 = loadConfig_result [where fs = exampleDisk and path = "''numbers.json''"
      and scan = exampleScan and opened = "newFile ''numbers.json'' [O_RDONLY]"
      and j = "JArray [JNumber ''5'']" and err = UnmarshalTypeError
      and elems = "[JNumber ''5'']" and e = "JNumber ''5''"]
  note t6 = loadConfig_result [where fs = exampleDisk and path = "''port.json''"
      and scan = exampleScan and opened = "newFile ''port.json'' [O_RDONLY]"
      and elems = "[JObject [(''port'', JNumber ''3000'')]]"
      and members = "[(''port'', JNumber ''3000'')]" and v = "JNumber ''3000''"]
  note t7 = loadConfig_result [where fs = exampleDisk and path = "''null.json''"
      and scan = exampleScan and opened = "newFile ''null.json'' [O_RDONLY]" and j = JNull]
  note t8 = loadConfig_result [where fs = exampleDisk and path = "''bare.json''"
      and scan = exampleScan and opened = "newFile ''bare.json'' [O_RDONLY]"
      and j = "JArray [JObject []]" and elems = "[JObject []]"
      and cfgs = "[\<lparr>Port = [], BootstrapNodes = []\<rparr>]" and n = 0 and mems = "[]"]
  note t9 = loadConfig_result [where fs = exampleDisk and path = "''repeated.json''"
      and scan = exampleScan and opened = "newFile ''repeated.json'' [O_RDONLY]"
      and j = repeatedPeersValue]
  note t10 = loadConfig_result [where fs = exampleDisk and path = "''upper.json''"
      and scan = exampleScan and opened = "newFile ''upper.json'' [O_RDONLY]"
      and j = "JArray [JNull, JObject upperCaseMembers]"
      and elems = "[JNull, JObject upperCaseMembers]"
      and cfgs = "[\<lparr>Port = [], BootstrapNodes = []\<rparr>,
                   \<lparr>Port = '':3002'', BootstrapNodes = ['':3000'', []]\<rparr>]"
      and n = 0]
  note t11 = loadConfig_result [where fs = exampleDisk and path = "''upper.json''"
      and scan = exampleScan and opened = "newFile ''upper.json'' [O_RDONLY]"
      and elems = "[JNull, JObject upperCaseMembers]"
      and cfgs = "[\<lparr>Port = [], BootstrapNodes = []\<rparr>,
                   \<lparr>Port = '':3002'', BootstrapNodes = ['':3000'', []]\<rparr>]"
      and n = 1 and mems = upperCaseMembers and p = "'':3002''"]
  from o1 t1 have r1: "loadConfig exampleScan exampleDisk ''missing.json'' =
     Inl (PathError ''open'' ''missing.json'' ''no such file or directory'')" by blast
  from o2 s2 t2 have r2: "loadConfig exampleScan exampleDisk ''broken.json'' = Inl ErrUnexpectedEOF"
    by blast
  from o2a s2a t2a have r2a: "loadConfig exampleScan exampleDisk ''syntax.json'' = Inl SyntaxError"
    by blast
  from o2b s2b t2b have r2b: "loadConfig exampleScan exampleDisk ''empty.json'' = Inl EOF"
    by blast
  from o3 s3 a3 t3 have r3: "loadConfig exampleScan exampleDisk ''object.json'' = Inl UnmarshalTypeError"
    by blast
  from o4 s4 t4 have r4: "loadConfig exampleScan exampleDisk ''startServerConfig.json'' = Inr [nodeA, nodeB]"
    by blast
  have k5: "JNumber ''5'' \<noteq> JNull" "\<forall>members. JNumber ''5'' \<noteq> JObject members"
    by simp_all
  from o5 s5 m5 k5 t5 have r5: "loadConfig exampleScan exampleDisk ''numbers.json'' = Inl UnmarshalTypeError"
    by blast
  have k6: "JNumber ''3000'' \<noteq> JNull" "\<forall>s. JNumber ''3000'' \<noteq> JString s"
    by simp_all
  from o6 s6 m6 k6 t6 have r6: "loadConfig exampleScan exampleDisk ''port.json'' = Inl UnmarshalTypeError"
    by blast
  from o7 s7 a7 t7 have r7a: "\<exists>loaded. loadConfig exampleScan exampleDisk ''null.json'' = Inr loaded"
    by blast
  from o7 s7 t7 have r7: "loadConfig exampleScan exampleDisk ''null.json'' = Inr []"
    by blast
  from o8 s8 t8 have "loadConfig exampleScan exampleDisk ''bare.json'' =
      decodeServerConfigs (JArray [JObject []])"
    by blast
  with d8 have r8: "loadConfig exampleScan exampleDisk ''bare.json'' =
      Inr [\<lparr>Port = [], BootstrapNodes = []\<rparr>]"
    by simp
  from o8 s8 r8 n8 f8 t8
  have r8a: "Port ([\<lparr>Port = [], BootstrapNodes = []\<rparr>] ! 0) = []"
    and r8b: "BootstrapNodes ([\<lparr>Port = [], BootstrapNodes = []\<rparr>] ! 0) = []"
    by blast+
  from o9 s9 t9 have "loadConfig exampleScan exampleDisk ''repeated.json'' =
      decodeServerConfigs repeatedPeersValue"
    by blast
  with d9 have r9: "loadConfig exampleScan exampleDisk ''repeated.json'' =
     Inr [\<lparr>Port = [], BootstrapNodes = [''a'', ''c'']\<rparr>]"
    by simp
  from o10 s10 t10 have "loadConfig exampleScan exampleDisk ''upper.json'' =
      decodeServerConfigs (JArray [JNull, JObject upperCaseMembers])"
    by blast
  with d10 have r10: "loadConfig exampleScan exampleDisk ''upper.json'' =
     Inr [\<lparr>Port = [], BootstrapNodes = []\<rparr>,
          \<lparr>Port = '':3002'', BootstrapNodes = ['':3000'', []]\<rparr>]"
    by simp
  from o10 s10 r10 n10(1,2) t10
  have r10a: "[\<lparr>Port = [], BootstrapNodes = []\<rparr>,
    \<lparr>Port = '':3002'', BootstrapNodes = ['':3000'', []]\<rparr>] ! 0 =
     \<lparr>Port = [], BootstrapNodes = []\<rparr>"
    by blast
  from o10 s10 r10 n10(3,4) f10 t11
  have r10b: "Port ([\<lparr>Port = [], BootstrapNodes = []\<rparr>,
          \<lparr>Port = '':3002'', BootstrapNodes = ['':3000'', []]\<rparr>] ! 1) = '':3002''"
    by blast
  from r4 t4 have r11: "\<exists>opened j. os_Open exampleDisk ''startServerConfig.json'' = Inr opened \<and>
      exampleScan (fileBytes exampleDisk opened) = Inr j \<and>
      decodeServerConfigs j = Inr [nodeA, nodeB]"
    by blast
  from o4 s4 r4 t4 have r12: "length [nodeA, nodeB] = length (map configJSON [nodeA, nodeB]) \<and>
      (\<forall>i<length (map configJSON [nodeA, nodeB]).
         decodeServerConfig (map configJSON [nodeA, nodeB] ! i) \<lparr>Port = [], BootstrapNodes = []\<rparr> =
           Inr ([nodeA, nodeB] ! i))"
    by blast
  have i1: "(1::nat) < length (map configJSON [nodeA, nodeB])"
    by simp
  with r12 have r13: "decodeServerConfig (map configJSON [nodeA, nodeB] ! 1)
      \<lparr>Port = [], BootstrapNodes = []\<rparr> = Inr ([nodeA, nodeB] ! 1)"
    by blast
  from r12 have r14: "length [nodeA, nodeB] = length (map configJSON [nodeA, nodeB])"
    by blast
  from o4 s4 r4 i1 e4 f4 t4 have r15: "BootstrapNodes ([nodeA, nodeB] ! 1) = ['':3000'']"
    by blast
  show ?thesis
    apply (intro conjI)
    apply (rule o1) apply (rule r1)
    apply (rule o2) apply (rule s2) apply (rule r2)
    apply (rule o2a) apply (rule s2a) apply (rule r2a)
    apply (rule o2b) apply (rule s2b) apply (rule r2b)
    apply (rule o3) apply (rule s3) apply (rule a3) apply (rule r3)
    apply (rule o5) apply (rule s5) apply (rule d5) apply (rule m5) apply (rule r5)
    apply (rule o6) apply (rule s6) apply (rule m6(1)) apply (rule m6(2)) apply (rule r6)
    apply (rule o7) apply (rule s7) apply (rule a7) apply (rule r7a) apply (rule r7)
    apply (rule o8) apply (rule s8) apply (rule r8) apply (rule f8(1)) apply (rule f8(2))
    apply (rule r8a) apply (rule r8b)
    apply (rule o9) apply (rule s9) apply (rule r9)
    apply (rule o10) apply (rule s10) apply (rule r10) apply (rule n10(2)) apply (rule r10a)
    apply (rule n10(4)) apply (rule f10) apply (rule r10b)
    apply (rule o4) apply (rule s4) apply (rule r4) apply (rule r11) apply (rule r14)
    apply (rule i1) apply (rule r13) apply (rule e4) apply (rule f4) apply (rule r15)
    done
qed

text \<open>
  The claim as the spec words it fails on two files that the decoder takes: the text \<open>null\<close>
  is no array, and the object of \<open>[{}]\<close> has neither field; for both \<open>loadConfig\<close> returns
  a configuration and no error.
\<close>

theorem loadConfig_lenient_counterexample:
  "os_Open exampleDisk ''null.json'' = Inr (newFile ''null.json'' [O_RDONLY]) \<and>
   exampleScan (fileBytes exampleDisk (newFile ''null.json'' [O_RDONLY])) = Inr JNull \<and>
   \<not> isConfigArray JNull \<and>
   loadConfig exampleScan exampleDisk ''null.json'' = Inr [] \<and>
   os_Open exampleDisk ''bare.json'' = Inr (newFile ''bare.json'' [O_RDONLY]) \<and>
   exampleScan (fileBytes exampleDisk (newFile ''bare.json'' [O_RDONLY])) =
     Inr (JArray [JObject []]) \<and>
   \<not> isConfigArray (JArray [JObject []]) \<and>
   loadConfig exampleScan exampleDisk ''bare.json'' = Inr [\<lparr>Port = [], BootstrapNodes = []\<rparr>]"
  by (simp add: loadConfig_def json_Decode_def os_Open_def os_OpenFile_def exampleDisk_def
        fileBytes_def newFile_def exampleScan_def exampleConfigText_def numericPortText_def)

subsection \<open>The command loop: auxiliary facts\<close>

lemma emit_fields:
  "trace (emit e st) = trace st @ [e]" "env (emit e st) = env st"
  "deferred (emit e st) = deferred st"
  by (simp_all add: emit_def)

lemma Println_fields:
  "trace (Println s st) = trace st @ [Stdout (s @ NL)]" "env (Println s st) = env st"
  "deferred (Println s st) = deferred st"
  by (simp_all add: Println_def emit_def)

lemma Print_fields:
  "trace (Print s st) = trace st @ [Stdout s]" "env (Print s st) = env st"
  "deferred (Print s st) = deferred st"
  by (simp_all add: Print_def emit_def)

lemma runDeferred_fields:
  "trace (runDeferred st) = trace st @ map (\<lambda>f. Closed (fileName f)) (deferred st)"
  "env (runDeferred st) = env st"
  by (simp_all add: runDeferred_def)

lemma callsOf_append: "callsOf (xs @ ys) = callsOf xs @ callsOf ys"
  by (induction xs rule: callsOf.induct) simp_all

lemma callsOf_Closed: "callsOf (map (\<lambda>f. Closed (fileName f)) fs) = []"
  by (induction fs) simp_all

text \<open>What each case of the \<open>switch\<close> adds to the trace.\<close>

lemma case_store_trace:
  "trace (snd (case_store fs args st)) =
     trace st @ Stdout (Sprint_strings args @ NL) #
       (if length args \<noteq> 2 then [Stdout (''Usage: store <file-path>'' @ NL)]
        else case os_Open (snd (env st)) (args ! 1) of
          Inl err \<Rightarrow> [LogOutput (errorText err)]
        | Inr f \<Rightarrow>
            Call (CallStore (Base (args ! 1)) f) #
            (case fst (Store fs (Base (args ! 1)) f (env st)) of
               Some e \<Rightarrow> [Stdout (''Error storing data '' @ errorText e @ NL)]
             | None \<Rightarrow> []) @ [Sleep 2000])"
  by (simp add: case_store_def Let_def emit_fields Println_fields
        split: sum.splits prod.splits option.splits)

lemma case_get_trace:
  "trace (snd (case_get fs ge args st)) =
     trace st @
       (if length args \<noteq> 2 then [Stdout (''Usage: get <filename>'' @ NL)]
        else
          Call (CallGet (args ! 1)) #
          (case snd (snd (fst (Get fs (args ! 1) (env st)))) of
             Some e \<Rightarrow> Stdout (''Error getting file: '' @ errorText e @ NL)
           | None \<Rightarrow> Stdout (''File stored at: '' @ fst (snd (fst (Get fs (args ! 1) (env st)))) @ NL)) #
          (if length (ge (args ! 1)) = 0
           then ReadAll (fst (fst (Get fs (args ! 1) (env st)))) #
             (case io_ReadAll (fst (fst (Get fs (args ! 1) (env st)))) of
                None \<Rightarrow> []
              | Some (n, Some e) \<Rightarrow> [LogOutput (''Error reading data '' @ errorText e)]
              | Some (n, None) \<Rightarrow> [Stdout (n @ NL)])
           else []))"
  by (simp add: case_get_def Let_def emit_fields Println_fields
        split: sum.splits prod.splits option.splits)

lemma case_delete_trace:
  "trace (snd (case_delete fs args st)) =
     trace st @
       (if length args \<noteq> 2 then [Stdout (''Usage: delete <filename>'' @ NL)]
        else
          Call (CallDelete (args ! 1)) #
          (case fst (Delete fs (args ! 1) (env st)) of
             Some e \<Rightarrow> [Stdout (''Error deleting file: '' @ errorText e @ NL)]
           | None \<Rightarrow> []))"
  by (simp add: case_delete_def Let_def emit_fields Println_fields
        split: sum.splits prod.splits option.splits)

lemma case_deletelocal_trace:
  "trace (snd (case_deletelocal fs args st)) =
     trace st @
       (if length args \<noteq> 2 then [Stdout (''Usage: deletelocal <filename>'' @ NL)]
        else
          Call (CallDeleteLocal (args ! 1)) #
          (case fst (DeleteLocal fs (args ! 1) (env st)) of
             Some e \<Rightarrow> [Stdout (''Error deleting local file: '' @ errorText e @ NL)]
           | None \<Rightarrow> []))"
  by (simp add: case_deletelocal_def Let_def emit_fields Println_fields
        split: sum.splits prod.splits option.splits)

lemma case_deleteremote_trace:
  "trace (snd (case_deleteremote fs args st)) =
     trace st @
       (if length args \<noteq> 3
        then [Stdout (''Usage: deleteremote <filename> <peer list separated by comma (ip:port)>'' @ NL)]
        else
          Call (CallDeleteRemote (args ! 1) (Split (args ! 2) '','')) #
          (case fst (DeleteRemote fs (args ! 1) (Split (args ! 2) '','') (env st)) of
             Some e \<Rightarrow> [Stdout (''Error deleting remote file: '' @ errorText e @ NL)]
           | None \<Rightarrow> []))"
  by (simp add: case_deleteremote_def Let_def emit_fields Println_fields
        split: sum.splits prod.splits option.splits)

lemma case_help_trace:
  "trace (snd (case_help args st)) =
     trace st @
       (if length args \<noteq> 2 then [Stdout (''Usage: help <command>'' @ NL)]
        else [Stdout ((case helpText (args ! 1) of None \<Rightarrow> [] | Some t \<Rightarrow> t) @ NL)])"
  by (simp add: case_help_def Println_fields)

lemma case_quit_trace:
  "trace (snd (case_quit st)) = trace st @ [Stdout (''Exiting...'' @ NL)]"
  by (simp add: case_quit_def Println_fields)

lemma case_default_trace:
  "trace (snd (case_default st)) =
     trace st @ [Stdout (''Unknown command. Supported: store, get, delete, deletelocal, quit'' @ NL)]"
  by (simp add: case_default_def Println_fields)

text \<open>
  The loop body, given the fields of the line: the selected case, then the pause if the
  case ran to the end of the \<open>switch\<close>.
\<close>

lemma loopBody_empty:
  "Fields line = [] \<Longrightarrow> loopBody fs ge line st = (ContinueLoop, st)"
  by (simp add: loopBody_def)

lemma loopBody_select:
  "Fields line = word # operands \<Longrightarrow>
   loopBody fs ge line st =
     (let r = (if ToLower word = ''store'' then case_store fs (word # operands) st
               else if ToLower word = ''get'' then case_get fs ge (word # operands) st
               else if ToLower word = ''delete'' then case_delete fs (word # operands) st
               else if ToLower word = ''deletelocal'' then case_deletelocal fs (word # operands) st
               else if ToLower word = ''deleteremote'' then case_deleteremote fs (word # operands) st
               else if ToLower word = ''help'' then case_help (word # operands) st
               else if ToLower word = ''quit'' then case_quit st
               else case_default st)
      in if fst r = EndSwitch then (ContinueLoop, emit (Sleep 50) (snd r)) else r)"
  by (simp add: loopBody_def Let_def split: prod.splits)

lemma loopBody_store:
  "Fields line = word # operands \<Longrightarrow> ToLower word = ''store'' \<Longrightarrow>
   loopBody fs ge line st =
     (let r = case_store fs (word # operands) st
      in if fst r = EndSwitch then (ContinueLoop, emit (Sleep 50) (snd r)) else r)"
  by (simp add: loopBody_select)

lemma loopBody_get:
  "Fields line = word # operands \<Longrightarrow> ToLower word = ''get'' \<Longrightarrow>
   loopBody fs ge line st =
     (let r = case_get fs ge (word # operands) st
      in if fst r = EndSwitch then (ContinueLoop, emit (Sleep 50) (snd r)) else r)"
  by (simp add: loopBody_select)

lemma loopBody_delete:
  "Fields line = word # operands \<Longrightarrow> ToLower word = ''delete'' \<Longrightarrow>
   loopBody fs ge line st =
     (let r = case_delete fs (word # operands) st
      in if fst r = EndSwitch then (ContinueLoop, emit (Sleep 50) (snd r)) else r)"
  by (simp add: loopBody_select)

lemma loopBody_deletelocal:
  "Fields line = word # operands \<Longrightarrow> ToLower word = ''deletelocal'' \<Longrightarrow>
   loopBody fs ge line st =
     (let r = case_deletelocal fs (word # operands) st
      in if fst r = EndSwitch then (ContinueLoop, emit (Sleep 50) (snd r)) else r)"
  by (simp add: loopBody_select)

lemma loopBody_deleteremote:
  "Fields line = word # operands \<Longrightarrow> ToLower word = ''deleteremote'' \<Longrightarrow>
   loopBody fs ge line st =
     (let r = case_deleteremote fs (word # operands) st
      in if fst r = EndSwitch then (ContinueLoop, emit (Sleep 50) (snd r)) else r)"
  by (simp add: loopBody_select)

lemma loopBody_help:
  "Fields line = word # operands \<Longrightarrow> ToLower word = ''help'' \<Longrightarrow>
   loopBody fs ge line st = case_help (word # operands) st"
  by (simp add: loopBody_select case_help_def)

lemma loopBody_quit:
  "Fields line = word # operands \<Longrightarrow> ToLower word = ''quit'' \<Longrightarrow>
   loopBody fs ge line st = (Return, Println ''Exiting...'' st)"
  by (simp add: loopBody_select case_quit_def)

lemma loopBody_default:
  "Fields line = word # operands \<Longrightarrow>
   ToLower word \<noteq> ''store'' \<Longrightarrow> ToLower word \<noteq> ''get'' \<Longrightarrow>
   ToLower word \<noteq> ''delete'' \<Longrightarrow> ToLower word \<noteq> ''deletelocal'' \<Longrightarrow>
   ToLower word \<noteq> ''deleteremote'' \<Longrightarrow> ToLower word \<noteq> ''help'' \<Longrightarrow>
   ToLower word \<noteq> ''quit'' \<Longrightarrow>
   loopBody fs ge line st =
     (ContinueLoop,
      emit (Sleep 50)
        (Println ''Unknown command. Supported: store, get, delete, deletelocal, quit'' st))"
  by (simp add: loopBody_select case_default_def)

text \<open>The trace only grows.\<close>

lemma pause_extends:
  "\<exists>tr. trace (snd r) = trace st @ tr \<Longrightarrow>
   \<exists>tr. trace (snd (let r' = r in
          if fst r' = EndSwitch then (ContinueLoop, emit (Sleep 50) (snd r')) else r')) =
        trace st @ tr"
  by (auto simp: Let_def emit_fields)

lemma loopBody_extends: "\<exists>tr. trace (snd (loopBody fs ge line st)) = trace st @ tr"
proof (cases "Fields line")
  case Nil
  then show ?thesis by (simp add: loopBody_empty)
next
  case (Cons word operands)
  let ?args = "word # operands"
  have s: "\<exists>tr. trace (snd (case_store fs ?args st)) = trace st @ tr"
    using case_store_trace [of fs ?args st] by blast
  have g: "\<exists>tr. trace (snd (case_get fs ge ?args st)) = trace st @ tr"
    using case_get_trace [of fs ge ?args st] by blast
  have d: "\<exists>tr. trace (snd (case_delete fs ?args st)) = trace st @ tr"
    using case_delete_trace [of fs ?args st] by blast
  have l: "\<exists>tr. trace (snd (case_deletelocal fs ?args st)) = trace st @ tr"
    using case_deletelocal_trace [of fs ?args st] by blast
  have r: "\<exists>tr. trace (snd (case_deleteremote fs ?args st)) = trace st @ tr"
    using case_deleteremote_trace [of fs ?args st] by blast
  have h: "\<exists>tr. trace (snd (case_help ?args st)) = trace st @ tr"
    using case_help_trace [of ?args st] by blast
  have q: "\<exists>tr. trace (snd (case_quit st)) = trace st @ tr"
    using case_quit_trace [of st] by blast
  have u: "\<exists>tr. trace (snd (case_default st)) = trace st @ tr"
    using case_default_trace [of st] by blast
  have "\<exists>tr. trace (snd (if ToLower word = ''store'' then case_store fs ?args st
               else if ToLower word = ''get'' then case_get fs ge ?args st
               else if ToLower word = ''delete'' then case_delete fs ?args st
               else if ToLower word = ''deletelocal'' then case_deletelocal fs ?args st
               else if ToLower word = ''deleteremote'' then case_deleteremote fs ?args st
               else if ToLower word = ''help'' then case_help ?args st
               else if ToLower word = ''quit'' then case_quit st
               else case_default st)) = trace st @ tr"
    using s g d l r h q u by presburger
  from pause_extends [OF this] show ?thesis
    unfolding loopBody_select [OF Cons] .
qed

lemma runCommandLoop_extends:
  "\<exists>tr. trace (snd (runCommandLoop fs ge lines st)) = trace st @ tr"
proof (induction lines arbitrary: st)
  case Nil
  show ?case by (simp add: runDeferred_fields Print_fields)
next
  case (Cons line rest)
  obtain ctl st1 where b: "loopBody fs ge line (Print ''>>> '' st) = (ctl, st1)"
    by (cases "loopBody fs ge line (Print ''>>> '' st)")
  from loopBody_extends [of fs ge line "Print ''>>> '' st"] b
  obtain tr1 where t1: "trace st1 = trace st @ Stdout ''>>> '' # tr1"
    by (auto simp: Print_fields)
  from Cons.IH [of st1] obtain tr2
    where t2: "trace (snd (runCommandLoop fs ge rest st1)) = trace st1 @ tr2" by blast
  show ?case
  proof (cases ctl)
    case EndSwitch
    with b t1 t2 show ?thesis by simp
  next
    case ContinueLoop
    with b t1 t2 show ?thesis by simp
  next
    case Return
    with b t1 show ?thesis by (simp add: runDeferred_fields)
  next
    case (Exit code)
    with b t1 show ?thesis by simp
  next
    case Panic
    with b t1 show ?thesis by (simp add: runDeferred_fields)
  qed
qed

lemma runCommandLoop_prompt:
  "\<exists>tr. trace (snd (runCommandLoop fs ge lines st)) = trace st @ Stdout ''>>> '' # tr"
proof (cases lines)
  case Nil
  then show ?thesis by (simp add: runDeferred_fields Print_fields)
next
  case (Cons line rest)
  obtain ctl st1 where b: "loopBody fs ge line (Print ''>>> '' st) = (ctl, st1)"
    by (cases "loopBody fs ge line (Print ''>>> '' st)")
  from loopBody_extends [of fs ge line "Print ''>>> '' st"] b
  obtain tr1 where t1: "trace st1 = trace st @ Stdout ''>>> '' # tr1"
    by (auto simp: Print_fields)
  from runCommandLoop_extends [of fs ge rest st1] obtain tr2
    where t2: "trace (snd (runCommandLoop fs ge rest st1)) = trace st1 @ tr2" by blast
  show ?thesis
  proof (cases ctl)
    case EndSwitch
    with Cons b t1 t2 show ?thesis by simp
  next
    case ContinueLoop
    with Cons b t1 t2 show ?thesis by simp
  next
    case Return
    with Cons b t1 show ?thesis by (simp add: runDeferred_fields)
  next
    case (Exit code)
    with Cons b t1 show ?thesis by simp
  next
    case Panic
    with Cons b t1 show ?thesis by (simp add: runDeferred_fields)
  qed
qed

text \<open>What a line must look like to be one of the spec's commands.\<close>

lemma parseCommand_empty: "parseCommand line = CmdEmpty \<Longrightarrow> Fields line = []"
  by (auto simp: parseCommand_def Let_def split: list.splits if_splits)

lemma parseCommand_store:
  "parseCommand line = CmdStore path \<Longrightarrow>
   \<exists>word. Fields line = [word, path] \<and> ToLower word = ''store''"
  by (auto simp: parseCommand_def Let_def split: list.splits if_splits)

lemma parseCommand_get:
  "parseCommand line = CmdGet name \<Longrightarrow>
   \<exists>word. Fields line = [word, name] \<and> ToLower word = ''get''"
  by (auto simp: parseCommand_def Let_def split: list.splits if_splits)

lemma parseCommand_delete:
  "parseCommand line = CmdDelete name \<Longrightarrow>
   \<exists>word. Fields line = [word, name] \<and> ToLower word = ''delete''"
  by (auto simp: parseCommand_def Let_def split: list.splits if_splits)

lemma parseCommand_deletelocal:
  "parseCommand line = CmdDeleteLocal name \<Longrightarrow>
   \<exists>word. Fields line = [word, name] \<and> ToLower word = ''deletelocal''"
  by (auto simp: parseCommand_def Let_def split: list.splits if_splits)

lemma parseCommand_deleteremote:
  "parseCommand line = CmdDeleteRemote name peers \<Longrightarrow>
   \<exists>word csv. Fields line = [word, name, csv] \<and> ToLower word = ''deleteremote'' \<and>
     peers = Split csv '',''"
  by (auto simp: parseCommand_def Let_def split: list.splits if_splits)

lemma parseCommand_help:
  "parseCommand line = CmdHelp topic \<Longrightarrow>
   \<exists>word. Fields line = [word, topic] \<and> ToLower word = ''help''"
  by (auto simp: parseCommand_def Let_def split: list.splits if_splits)

lemma parseCommand_quit:
  "parseCommand line = CmdQuit \<Longrightarrow> \<exists>word. Fields line = [word] \<and> ToLower word = ''quit''"
  by (auto simp: parseCommand_def Let_def split: list.splits if_splits)

lemma parseCommand_unknown:
  "parseCommand line = CmdUnknown \<Longrightarrow>
   \<exists>word operands. Fields line = word # operands \<and>
     ToLower word \<noteq> ''store'' \<and> ToLower word \<noteq> ''get'' \<and> ToLower word \<noteq> ''delete'' \<and>
     ToLower word \<noteq> ''deletelocal'' \<and> ToLower word \<noteq> ''deleteremote'' \<and>
     ToLower word \<noteq> ''help'' \<and> ToLower word \<noteq> ''quit''"
  by (auto simp: parseCommand_def Let_def split: list.splits if_splits)

lemma parseCommand_malformed:
  "parseCommand line = CmdMalformed cmd \<Longrightarrow>
   \<exists>word operands. Fields line = word # operands \<and> ToLower word = cmd \<and>
     (cmd = ''store'' \<and> length operands \<noteq> 1 \<or>
      cmd = ''get'' \<and> length operands \<noteq> 1 \<or>
      cmd = ''delete'' \<and> length operands \<noteq> 1 \<or>
      cmd = ''deletelocal'' \<and> length operands \<noteq> 1 \<or>
      cmd = ''deleteremote'' \<and> length operands \<noteq> 2 \<or>
      cmd = ''help'' \<and> length operands \<noteq> 1 \<or>
      cmd = ''quit'' \<and> length operands \<noteq> 0)"
  by (auto simp: parseCommand_def Let_def split: list.splits if_splits)

lemma callsOf_pause:
  "callsOf (trace (snd (let r = x in
      if fst r = EndSwitch then (ContinueLoop, emit (Sleep 50) (snd r)) else r))) =
   callsOf (trace (snd x))"
  by (simp add: Let_def emit_fields callsOf_append)

lemma env_pause:
  "env (snd (let r = x in
      if fst r = EndSwitch then (ContinueLoop, emit (Sleep 50) (snd r)) else r)) =
   env (snd x)"
  by (simp add: Let_def emit_fields)

lemma callsOf_case_store:
  "callsOf (trace (snd (case_store fs [word, path] st))) =
     callsOf (trace st) @
       (case os_Open (snd (env st)) path of Inl err \<Rightarrow> [] | Inr f \<Rightarrow> [CallStore (Base path) f])"
  by (simp add: case_store_trace callsOf_append split: sum.splits option.splits)

lemma callsOf_case_get:
  "callsOf (trace (snd (case_get fs ge [word, name] st))) = callsOf (trace st) @ [CallGet name]"
  by (simp add: case_get_trace callsOf_append split: sum.splits option.splits prod.splits)

lemma callsOf_case_delete:
  "callsOf (trace (snd (case_delete fs [word, name] st))) = callsOf (trace st) @ [CallDelete name]"
  by (simp add: case_delete_trace callsOf_append split: option.splits)

lemma callsOf_case_deletelocal:
  "callsOf (trace (snd (case_deletelocal fs [word, name] st))) =
     callsOf (trace st) @ [CallDeleteLocal name]"
  by (simp add: case_deletelocal_trace callsOf_append split: option.splits)

lemma callsOf_case_deleteremote:
  "callsOf (trace (snd (case_deleteremote fs [word, name, csv] st))) =
     callsOf (trace st) @ [CallDeleteRemote name (Split csv '','')]"
  by (simp add: case_deleteremote_trace callsOf_append split: option.splits)

text \<open>What each case of the \<open>switch\<close> does to the server and the disk, and how it ends.\<close>

lemma trace_pause:
  "trace (snd (let r = x in
      if fst r = EndSwitch then (ContinueLoop, emit (Sleep 50) (snd r)) else r)) =
   trace (snd x) @ (if fst x = EndSwitch then [Sleep 50] else [])"
  by (simp add: Let_def emit_fields)

lemma fst_pause:
  "fst x = EndSwitch \<Longrightarrow>
   fst (let r = x in
      if fst r = EndSwitch then (ContinueLoop, emit (Sleep 50) (snd r)) else r) = ContinueLoop"
  by (simp add: Let_def)

lemma env_case_store:
  "env (snd (case_store fs [word, path] st)) =
     (case os_Open (snd (env st)) path of
        Inl err \<Rightarrow> env st
      | Inr f \<Rightarrow> snd (Store fs (Base path) f (env st)))"
  by (simp add: case_store_def Let_def emit_fields Println_fields
        split: sum.splits prod.splits option.splits)

lemma fst_case_store:
  "os_Open (snd (env st)) path = Inr f \<Longrightarrow> fst (case_store fs [word, path] st) = EndSwitch"
  by (simp add: case_store_def Let_def Println_fields split: prod.splits)

lemma env_case_get:
  "env (snd (case_get fs ge [word, name] st)) = snd (Get fs name (env st))"
  by (simp add: case_get_def Let_def emit_fields Println_fields
        split: sum.splits prod.splits option.splits)

lemma env_case_delete:
  "env (snd (case_delete fs [word, name] st)) = snd (Delete fs name (env st))"
  by (simp add: case_delete_def Let_def emit_fields Println_fields
        split: prod.splits option.splits)

lemma fst_case_delete: "fst (case_delete fs [word, name] st) = EndSwitch"
  by (simp add: case_delete_def Let_def split: prod.splits)

lemma env_case_deletelocal:
  "env (snd (case_deletelocal fs [word, name] st)) = snd (DeleteLocal fs name (env st))"
  by (simp add: case_deletelocal_def Let_def emit_fields Println_fields
        split: prod.splits option.splits)

lemma fst_case_deletelocal: "fst (case_deletelocal fs [word, name] st) = EndSwitch"
  by (simp add: case_deletelocal_def Let_def split: prod.splits)

lemma env_case_deleteremote:
  "env (snd (case_deleteremote fs [word, name, csv] st)) =
     snd (DeleteRemote fs name (Split csv '','') (env st))"
  by (simp add: case_deleteremote_def Let_def emit_fields Println_fields
        split: prod.splits option.splits)

lemma fst_case_deleteremote: "fst (case_deleteremote fs [word, name, csv] st) = EndSwitch"
  by (simp add: case_deleteremote_def Let_def split: prod.splits)

subsection \<open>The command loop: dispatch\<close>

text \<open>
  C3. Whatever the input, the first thing \<open>runCommandLoop\<close> does is print the prompt
  \<open>>>> \<close>, and it does so again before each further line it reads. A line is split on
  white space; an empty line goes back to the prompt. Each command of the spec's list
  is dispatched to its action: \<open>store\<close>, \<open>get\<close>, \<open>delete\<close>, \<open>deletelocal\<close> and
  \<open>deleteremote\<close> call the method of the file server of that name, with the operands of
  the line (\<open>store\<close> only if the file opens), and call nothing else; \<open>help\<close> prints the
  help text of its operand; \<open>quit\<close> prints \<open>Exiting...\<close> and makes the function return,
  without exiting the process, so that the exit code is 0. Any other non-empty command
  prints the line \<open>Unknown command. ...\<close> and goes back to the prompt. The server and the
  disk after a command are what the method of the file server leaves, applied to the
  operands of the line: \<open>Store\<close> to the base name of the path and the opened file, \<open>Get\<close>,
  \<open>Delete\<close> and \<open>DeleteLocal\<close> to the name, \<open>DeleteRemote\<close> to the name and the peers of the
  comma-separated list; an error that the method returns is printed, and the loop goes
  back to the prompt.
\<close>

theorem runCommandLoop_dispatch:
  "(\<exists>tr. trace (snd (runCommandLoop fs ge lines st)) = trace st @ Stdout ''>>> '' # tr) \<and>
   runCommandLoop fs ge [] st = (Returned, runDeferred (Print ''>>> '' st)) \<and>
   (\<forall>st1. loopBody fs ge line (Print ''>>> '' st) = (ContinueLoop, st1) \<longrightarrow>
      runCommandLoop fs ge (line # rest) st = runCommandLoop fs ge rest st1) \<and>
   (parseCommand line = CmdEmpty \<longrightarrow> loopBody fs ge line st = (ContinueLoop, st)) \<and>
   (parseCommand line = CmdStore path \<longrightarrow>
      callsOf (trace (snd (loopBody fs ge line st))) =
        callsOf (trace st) @
          (case os_Open (snd (env st)) path of
             Inl err \<Rightarrow> []
           | Inr f \<Rightarrow> [CallStore (Base path) f])) \<and>
   (parseCommand line = CmdGet name \<longrightarrow>
      callsOf (trace (snd (loopBody fs ge line st))) = callsOf (trace st) @ [CallGet name]) \<and>
   (parseCommand line = CmdDelete name \<longrightarrow>
      callsOf (trace (snd (loopBody fs ge line st))) = callsOf (trace st) @ [CallDelete name]) \<and>
   (parseCommand line = CmdDeleteLocal name \<longrightarrow>
      callsOf (trace (snd (loopBody fs ge line st))) =
        callsOf (trace st) @ [CallDeleteLocal name]) \<and>
   (parseCommand line = CmdDeleteRemote name peers \<longrightarrow>
      callsOf (trace (snd (loopBody fs ge line st))) =
        callsOf (trace st) @ [CallDeleteRemote name peers]) \<and>
   (parseCommand line = CmdHelp topic \<longrightarrow>
      loopBody fs ge line st =
        (ContinueLoop, Println (case helpText topic of None \<Rightarrow> [] | Some t \<Rightarrow> t) st)) \<and>
   (parseCommand line = CmdQuit \<longrightarrow>
      loopBody fs ge line st = (Return, Println ''Exiting...'' st) \<and>
      runCommandLoop fs ge (line # rest) st =
        (Returned, runDeferred (Println ''Exiting...'' (Print ''>>> '' st)))) \<and>
   (parseCommand line = CmdUnknown \<longrightarrow>
      loopBody fs ge line st =
        (ContinueLoop,
         emit (Sleep 50)
           (Println ''Unknown command. Supported: store, get, delete, deletelocal, quit'' st))) \<and>
   (parseCommand line = CmdStore path \<longrightarrow>
      env (snd (loopBody fs ge line st)) =
        (case os_Open (snd (env st)) path of
           Inl err \<Rightarrow> env st
         | Inr f \<Rightarrow> snd (Store fs (Base path) f (env st)))) \<and>
   (parseCommand line = CmdStore path \<and> os_Open (snd (env st)) path = Inr opened \<longrightarrow>
      fst (loopBody fs ge line st) = ContinueLoop \<and>
      trace (snd (loopBody fs ge line st)) =
        trace st @ [Stdout (Sprint_strings (Fields line) @ NL), Call (CallStore (Base path) opened)] @
          (case fst (Store fs (Base path) opened (env st)) of
             Some e \<Rightarrow> [Stdout (''Error storing data '' @ errorText e @ NL)]
           | None \<Rightarrow> []) @ [Sleep 2000, Sleep 50]) \<and>
   (parseCommand line = CmdGet name \<longrightarrow>
      env (snd (loopBody fs ge line st)) = snd (Get fs name (env st))) \<and>
   (parseCommand line = CmdDelete name \<longrightarrow>
      fst (loopBody fs ge line st) = ContinueLoop \<and>
      env (snd (loopBody fs ge line st)) = snd (Delete fs name (env st)) \<and>
      trace (snd (loopBody fs ge line st)) =
        trace st @ Call (CallDelete name) #
          (case fst (Delete fs name (env st)) of
             Some e \<Rightarrow> [Stdout (''Error deleting file: '' @ errorText e @ NL)]
           | None \<Rightarrow> []) @ [Sleep 50]) \<and>
   (parseCommand line = CmdDeleteLocal name \<longrightarrow>
      fst (loopBody fs ge line st) = ContinueLoop \<and>
      env (snd (loopBody fs ge line st)) = snd (DeleteLocal fs name (env st)) \<and>
      trace (snd (loopBody fs ge line st)) =
        trace st @ Call (CallDeleteLocal name) #
          (case fst (DeleteLocal fs name (env st)) of
             Some e \<Rightarrow> [Stdout (''Error deleting local file: '' @ errorText e @ NL)]
           | None \<Rightarrow> []) @ [Sleep 50]) \<and>
   (parseCommand line = CmdDeleteRemote name peers \<longrightarrow>
      fst (loopBody fs ge line st) = ContinueLoop \<and>
      env (snd (loopBody fs ge line st)) = snd (DeleteRemote fs name peers (env st)) \<and>
      trace (snd (loopBody fs ge line st)) =
        trace st @ Call (CallDeleteRemote name peers) #
          (case fst (DeleteRemote fs name peers (env st)) of
             Some e \<Rightarrow> [Stdout (''Error deleting remote file: '' @ errorText e @ NL)]
           | None \<Rightarrow> []) @ [Sleep 50]) \<and>
   (parseCommand line = CmdQuit \<longrightarrow>
      exitCode (fst (runCommandLoop fs ge (line # rest) st)) = 0)"
proof -
  have on_prompt: "\<exists>tr. trace (snd (runCommandLoop fs ge lines st)) = trace st @ Stdout ''>>> '' # tr"
    by (rule runCommandLoop_prompt)
  have on_eof: "runCommandLoop fs ge [] st = (Returned, runDeferred (Print ''>>> '' st))"
    by simp
  have on_again: "\<forall>st1. loopBody fs ge line (Print ''>>> '' st) = (ContinueLoop, st1) \<longrightarrow>
      runCommandLoop fs ge (line # rest) st = runCommandLoop fs ge rest st1"
    by simp
  have on_empty: "parseCommand line = CmdEmpty \<longrightarrow> loopBody fs ge line st = (ContinueLoop, st)"
    by (auto dest!: parseCommand_empty simp: loopBody_empty)
  have on_store: "parseCommand line = CmdStore path \<longrightarrow>
      callsOf (trace (snd (loopBody fs ge line st))) =
        callsOf (trace st) @
          (case os_Open (snd (env st)) path of
             Inl err \<Rightarrow> []
           | Inr f \<Rightarrow> [CallStore (Base path) f])"
  proof
    assume "parseCommand line = CmdStore path"
    from parseCommand_store [OF this] obtain word
      where f: "Fields line = [word, path]" and w: "ToLower word = ''store''" by blast
    show "callsOf (trace (snd (loopBody fs ge line st))) =
        callsOf (trace st) @
          (case os_Open (snd (env st)) path of
             Inl err \<Rightarrow> []
           | Inr f \<Rightarrow> [CallStore (Base path) f])"
      unfolding loopBody_store [OF f w] callsOf_pause by (rule callsOf_case_store)
  qed
  have on_get: "parseCommand line = CmdGet name \<longrightarrow>
      callsOf (trace (snd (loopBody fs ge line st))) = callsOf (trace st) @ [CallGet name]"
  proof
    assume "parseCommand line = CmdGet name"
    from parseCommand_get [OF this] obtain word
      where f: "Fields line = [word, name]" and w: "ToLower word = ''get''" by blast
    show "callsOf (trace (snd (loopBody fs ge line st))) = callsOf (trace st) @ [CallGet name]"
      unfolding loopBody_get [OF f w] callsOf_pause by (rule callsOf_case_get)
  qed
  have on_delete: "parseCommand line = CmdDelete name \<longrightarrow>
      callsOf (trace (snd (loopBody fs ge line st))) = callsOf (trace st) @ [CallDelete name]"
  proof
    assume "parseCommand line = CmdDelete name"
    from parseCommand_delete [OF this] obtain word
      where f: "Fields line = [word, name]" and w: "ToLower word = ''delete''" by blast
    show "callsOf (trace (snd (loopBody fs ge line st))) = callsOf (trace st) @ [CallDelete name]"
      unfolding loopBody_delete [OF f w] callsOf_pause by (rule callsOf_case_delete)
  qed
  have on_deletelocal: "parseCommand line = CmdDeleteLocal name \<longrightarrow>
      callsOf (trace (snd (loopBody fs ge line st))) =
        callsOf (trace st) @ [CallDeleteLocal name]"
  proof
    assume "parseCommand line = CmdDeleteLocal name"
    from parseCommand_deletelocal [OF this] obtain word
      where f: "Fields line = [word, name]" and w: "ToLower word = ''deletelocal''" by blast
    show "callsOf (trace (snd (loopBody fs ge line st))) =
        callsOf (trace st) @ [CallDeleteLocal name]"
      unfolding loopBody_deletelocal [OF f w] callsOf_pause by (rule callsOf_case_deletelocal)
  qed
  have on_deleteremote: "parseCommand line = CmdDeleteRemote name peers \<longrightarrow>
      callsOf (trace (snd (loopBody fs ge line st))) =
        callsOf (trace st) @ [CallDeleteRemote name peers]"
  proof
    assume "parseCommand line = CmdDeleteRemote name peers"
    from parseCommand_deleteremote [OF this] obtain word csv
      where f: "Fields line = [word, name, csv]" and w: "ToLower word = ''deleteremote''"
        and p: "peers = Split csv '',''" by blast
    show "callsOf (trace (snd (loopBody fs ge line st))) =
        callsOf (trace st) @ [CallDeleteRemote name peers]"
      unfolding loopBody_deleteremote [OF f w] callsOf_pause p
      by (rule callsOf_case_deleteremote)
  qed
  have on_help: "parseCommand line = CmdHelp topic \<longrightarrow>
      loopBody fs ge line st =
        (ContinueLoop, Println (case helpText topic of None \<Rightarrow> [] | Some t \<Rightarrow> t) st)"
  proof
    assume "parseCommand line = CmdHelp topic"
    from parseCommand_help [OF this] obtain word
      where f: "Fields line = [word, topic]" and w: "ToLower word = ''help''" by blast
    show "loopBody fs ge line st =
        (ContinueLoop, Println (case helpText topic of None \<Rightarrow> [] | Some t \<Rightarrow> t) st)"
      unfolding loopBody_help [OF f w] by (simp add: case_help_def)
  qed
  have on_quit: "parseCommand line = CmdQuit \<longrightarrow>
      loopBody fs ge line st = (Return, Println ''Exiting...'' st) \<and>
      runCommandLoop fs ge (line # rest) st =
        (Returned, runDeferred (Println ''Exiting...'' (Print ''>>> '' st)))"
  proof
    assume "parseCommand line = CmdQuit"
    from parseCommand_quit [OF this] obtain word
      where f: "Fields line = [word]" and w: "ToLower word = ''quit''" by blast
    show "loopBody fs ge line st = (Return, Println ''Exiting...'' st) \<and>
      runCommandLoop fs ge (line # rest) st =
        (Returned, runDeferred (Println ''Exiting...'' (Print ''>>> '' st)))"
      by (simp add: loopBody_quit [OF f w])
  qed
  have on_unknown: "parseCommand line = CmdUnknown \<longrightarrow>
      loopBody fs ge line st =
        (ContinueLoop,
         emit (Sleep 50)
           (Println ''Unknown command. Supported: store, get, delete, deletelocal, quit'' st))"
  proof
    assume "parseCommand line = CmdUnknown"
    from parseCommand_unknown [OF this] obtain word operands
      where f: "Fields line = word # operands"
        and w: "ToLower word \<noteq> ''store''" "ToLower word \<noteq> ''get''" "ToLower word \<noteq> ''delete''"
          "ToLower word \<noteq> ''deletelocal''" "ToLower word \<noteq> ''deleteremote''"
          "ToLower word \<noteq> ''help''" "ToLower word \<noteq> ''quit''" by blast
    show "loopBody fs ge line st =
        (ContinueLoop,
         emit (Sleep 50)
           (Println ''Unknown command. Supported: store, get, delete, deletelocal, quit'' st))"
      by (rule loopBody_default [OF f w])
  qed
  have store_env: "parseCommand line = CmdStore path \<longrightarrow>
      env (snd (loopBody fs ge line st)) =
        (case os_Open (snd (env st)) path of
           Inl err \<Rightarrow> env st
         | Inr f \<Rightarrow> snd (Store fs (Base path) f (env st)))"
  proof
    assume "parseCommand line = CmdStore path"
    from parseCommand_store [OF this] obtain word
      where f: "Fields line = [word, path]" and w: "ToLower word = ''store''" by blast
    show "env (snd (loopBody fs ge line st)) =
        (case os_Open (snd (env st)) path of
           Inl err \<Rightarrow> env st
         | Inr f \<Rightarrow> snd (Store fs (Base path) f (env st)))"
      unfolding loopBody_store [OF f w] env_pause by (rule env_case_store)
  qed
  have store_trace: "parseCommand line = CmdStore path \<and> os_Open (snd (env st)) path = Inr opened \<longrightarrow>
      fst (loopBody fs ge line st) = ContinueLoop \<and>
      trace (snd (loopBody fs ge line st)) =
        trace st @ [Stdout (Sprint_strings (Fields line) @ NL), Call (CallStore (Base path) opened)] @
          (case fst (Store fs (Base path) opened (env st)) of
             Some e \<Rightarrow> [Stdout (''Error storing data '' @ errorText e @ NL)]
           | None \<Rightarrow> []) @ [Sleep 2000, Sleep 50]"
  proof (intro impI, elim conjE)
    assume "parseCommand line = CmdStore path" and o: "os_Open (snd (env st)) path = Inr opened"
    from parseCommand_store [OF this(1)] obtain word
      where f: "Fields line = [word, path]" and w: "ToLower word = ''store''" by blast
    have e: "fst (case_store fs [word, path] st) = EndSwitch"
      by (rule fst_case_store [OF o])
    have t: "trace (snd (case_store fs [word, path] st)) =
        trace st @ [Stdout (Sprint_strings [word, path] @ NL), Call (CallStore (Base path) opened)] @
          (case fst (Store fs (Base path) opened (env st)) of
             Some e \<Rightarrow> [Stdout (''Error storing data '' @ errorText e @ NL)]
           | None \<Rightarrow> []) @ [Sleep 2000]"
      using o by (simp add: case_store_trace)
    show "fst (loopBody fs ge line st) = ContinueLoop \<and>
      trace (snd (loopBody fs ge line st)) =
        trace st @ [Stdout (Sprint_strings (Fields line) @ NL), Call (CallStore (Base path) opened)] @
          (case fst (Store fs (Base path) opened (env st)) of
             Some e \<Rightarrow> [Stdout (''Error storing data '' @ errorText e @ NL)]
           | None \<Rightarrow> []) @ [Sleep 2000, Sleep 50]"
      unfolding loopBody_store [OF f w] trace_pause fst_pause [OF e] f t e by simp
  qed
  have get_env: "parseCommand line = CmdGet name \<longrightarrow>
      env (snd (loopBody fs ge line st)) = snd (Get fs name (env st))"
  proof
    assume "parseCommand line = CmdGet name"
    from parseCommand_get [OF this] obtain word
      where f: "Fields line = [word, name]" and w: "ToLower word = ''get''" by blast
    show "env (snd (loopBody fs ge line st)) = snd (Get fs name (env st))"
      unfolding loopBody_get [OF f w] env_pause by (rule env_case_get)
  qed
  have delete_all: "parseCommand line = CmdDelete name \<longrightarrow>
      fst (loopBody fs ge line st) = ContinueLoop \<and>
      env (snd (loopBody fs ge line st)) = snd (Delete fs name (env st)) \<and>
      trace (snd (loopBody fs ge line st)) =
        trace st @ Call (CallDelete name) #
          (case fst (Delete fs name (env st)) of
             Some e \<Rightarrow> [Stdout (''Error deleting file: '' @ errorText e @ NL)]
           | None \<Rightarrow> []) @ [Sleep 50]"
  proof
    assume "parseCommand line = CmdDelete name"
    from parseCommand_delete [OF this] obtain word
      where f: "Fields line = [word, name]" and w: "ToLower word = ''delete''" by blast
    show "fst (loopBody fs ge line st) = ContinueLoop \<and>
      env (snd (loopBody fs ge line st)) = snd (Delete fs name (env st)) \<and>
      trace (snd (loopBody fs ge line st)) =
        trace st @ Call (CallDelete name) #
          (case fst (Delete fs name (env st)) of
             Some e \<Rightarrow> [Stdout (''Error deleting file: '' @ errorText e @ NL)]
           | None \<Rightarrow> []) @ [Sleep 50]"
      unfolding loopBody_delete [OF f w] env_pause trace_pause
        fst_pause [OF fst_case_delete] fst_case_delete env_case_delete
      by (simp add: case_delete_trace)
  qed
  have deletelocal_all: "parseCommand line = CmdDeleteLocal name \<longrightarrow>
      fst (loopBody fs ge line st) = ContinueLoop \<and>
      env (snd (loopBody fs ge line st)) = snd (DeleteLocal fs name (env st)) \<and>
      trace (snd (loopBody fs ge line st)) =
        trace st @ Call (CallDeleteLocal name) #
          (case fst (DeleteLocal fs name (env st)) of
             Some e \<Rightarrow> [Stdout (''Error deleting local file: '' @ errorText e @ NL)]
           | None \<Rightarrow> []) @ [Sleep 50]"
  proof
    assume "parseCommand line = CmdDeleteLocal name"
    from parseCommand_deletelocal [OF this] obtain word
      where f: "Fields line = [word, name]" and w: "ToLower word = ''deletelocal''" by blast
    show "fst (loopBody fs ge line st) = ContinueLoop \<and>
      env (snd (loopBody fs ge line st)) = snd (DeleteLocal fs name (env st)) \<and>
      trace (snd (loopBody fs ge line st)) =
        trace st @ Call (CallDeleteLocal name) #
          (case fst (DeleteLocal fs name (env st)) of
             Some e \<Rightarrow> [Stdout (''Error deleting local file: '' @ errorText e @ NL)]
           | None \<Rightarrow> []) @ [Sleep 50]"
      unfolding loopBody_deletelocal [OF f w] env_pause trace_pause
        fst_pause [OF fst_case_deletelocal] fst_case_deletelocal env_case_deletelocal
      by (simp add: case_deletelocal_trace)
  qed
  have deleteremote_all: "parseCommand line = CmdDeleteRemote name peers \<longrightarrow>
      fst (loopBody fs ge line st) = ContinueLoop \<and>
      env (snd (loopBody fs ge line st)) = snd (DeleteRemote fs name peers (env st)) \<and>
      trace (snd (loopBody fs ge line st)) =
        trace st @ Call (CallDeleteRemote name peers) #
          (case fst (DeleteRemote fs name peers (env st)) of
             Some e \<Rightarrow> [Stdout (''Error deleting remote file: '' @ errorText e @ NL)]
           | None \<Rightarrow> []) @ [Sleep 50]"
  proof
    assume "parseCommand line = CmdDeleteRemote name peers"
    from parseCommand_deleteremote [OF this] obtain word csv
      where f: "Fields line = [word, name, csv]" and w: "ToLower word = ''deleteremote''"
        and p: "peers = Split csv '',''" by blast
    show "fst (loopBody fs ge line st) = ContinueLoop \<and>
      env (snd (loopBody fs ge line st)) = snd (DeleteRemote fs name peers (env st)) \<and>
      trace (snd (loopBody fs ge line st)) =
        trace st @ Call (CallDeleteRemote name peers) #
          (case fst (DeleteRemote fs name peers (env st)) of
             Some e \<Rightarrow> [Stdout (''Error deleting remote file: '' @ errorText e @ NL)]
           | None \<Rightarrow> []) @ [Sleep 50]"
      unfolding loopBody_deleteremote [OF f w] env_pause trace_pause p
        fst_pause [OF fst_case_deleteremote] fst_case_deleteremote env_case_deleteremote
      by (simp add: case_deleteremote_trace)
  qed
  have quit_exit: "parseCommand line = CmdQuit \<longrightarrow>
      exitCode (fst (runCommandLoop fs ge (line # rest) st)) = 0"
    using on_quit by simp
  show ?thesis
    apply (intro conjI)
    apply (rule on_prompt) apply (rule on_eof) apply (rule on_again) apply (rule on_empty)
    apply (rule on_store) apply (rule on_get) apply (rule on_delete) apply (rule on_deletelocal)
    apply (rule on_deleteremote) apply (rule on_help) apply (rule on_quit) apply (rule on_unknown)
    apply (rule store_env) apply (rule store_trace) apply (rule get_env)
    apply (rule delete_all) apply (rule deletelocal_all) apply (rule deleteremote_all)
    apply (rule quit_exit)
    done
qed

theorem runCommandLoop_dispatch_witness:
  "parseCommand ''store notes.txt'' = CmdStore ''notes.txt'' \<and>
   callsOf (trace (snd (loopBody tableServer exampleExtension ''store notes.txt'' startState))) =
     [CallStore ''notes.txt'' (newFile ''notes.txt'' [O_RDONLY])] \<and>
   parseCommand ''Get notes.txt'' = CmdGet ''notes.txt'' \<and>
   callsOf (trace (snd (loopBody tableServer exampleExtension ''Get notes.txt'' startState))) =
     [CallGet ''notes.txt''] \<and>
   parseCommand ''delete notes.txt'' = CmdDelete ''notes.txt'' \<and>
   callsOf (trace (snd (loopBody tableServer exampleExtension ''delete notes.txt'' startState))) =
     [CallDelete ''notes.txt''] \<and>
   parseCommand ''deletelocal notes.txt'' = CmdDeleteLocal ''notes.txt'' \<and>
   callsOf (trace (snd (loopBody tableServer exampleExtension ''deletelocal notes.txt''
     startState))) = [CallDeleteLocal ''notes.txt''] \<and>
   parseCommand ''deleteremote notes.txt :3001,:3002'' =
     CmdDeleteRemote ''notes.txt'' ['':3001'', '':3002''] \<and>
   callsOf (trace (snd (loopBody tableServer exampleExtension
       ''deleteremote notes.txt :3001,:3002'' startState))) =
     [CallDeleteRemote ''notes.txt'' ['':3001'', '':3002'']] \<and>
   parseCommand ''help quit'' = CmdHelp ''quit'' \<and>
   loopBody tableServer exampleExtension ''help quit'' startState =
     (ContinueLoop,
      Println (case helpText ''quit'' of None \<Rightarrow> [] | Some t \<Rightarrow> t) startState) \<and>
   helpText ''quit'' = Some (''quit'' @ NL @ '' It quits the program.'') \<and>
   parseCommand ''frobnicate now'' = CmdUnknown \<and>
   loopBody tableServer exampleExtension ''frobnicate now'' startState =
     (ContinueLoop,
      emit (Sleep 50)
        (Println ''Unknown command. Supported: store, get, delete, deletelocal, quit''
           startState)) \<and>
   parseCommand ''   '' = CmdEmpty \<and>
   loopBody tableServer exampleExtension ''   '' (Print ''>>> '' startState) =
     (ContinueLoop, Print ''>>> '' startState) \<and>
   runCommandLoop tableServer exampleExtension [''   '', ''QUIT''] startState =
     runCommandLoop tableServer exampleExtension [''QUIT''] (Print ''>>> '' startState) \<and>
   parseCommand ''QUIT'' = CmdQuit \<and>
   runCommandLoop tableServer exampleExtension [''QUIT'', ''get notes''] startState =
     (Returned, runDeferred (Println ''Exiting...'' (Print ''>>> '' startState))) \<and>
   exitCode (fst (runCommandLoop tableServer exampleExtension [''QUIT'', ''get notes'']
     startState)) = 0 \<and>
   parseCommand ''store docs/notes.txt'' = CmdStore ''docs/notes.txt'' \<and>
   os_Open (snd (env recordingState)) ''docs/notes.txt'' =
     Inr (newFile ''docs/notes.txt'' [O_RDONLY]) \<and>
   env (snd (loopBody recordingServer exampleExtension ''store docs/notes.txt'' recordingState)) =
     ([CallStore ''notes.txt'' (newFile ''docs/notes.txt'' [O_RDONLY])], exampleDisk) \<and>
   loopBody recordingServer exampleExtension ''store docs/notes.txt'' recordingState =
     (ContinueLoop,
      \<lparr>env = ([CallStore ''notes.txt'' (newFile ''docs/notes.txt'' [O_RDONLY])], exampleDisk),
       trace = [Stdout (''[store docs/notes.txt]'' @ NL),
                Call (CallStore ''notes.txt'' (newFile ''docs/notes.txt'' [O_RDONLY])),
                Sleep 2000, Sleep 50],
       deferred = [newFile ''docs/notes.txt'' [O_RDONLY]]\<rparr>) \<and>
   parseCommand ''store nowhere.txt'' = CmdStore ''nowhere.txt'' \<and>
   env (snd (loopBody recordingServer exampleExtension ''store nowhere.txt'' recordingState)) =
     ([], exampleDisk) \<and>
   env (snd (loopBody recordingServer exampleExtension ''Get notes.txt'' recordingState)) =
     ([CallGet ''notes.txt''], exampleDisk) \<and>
   loopBody recordingServer exampleExtension ''delete notes.txt'' recordingState =
     (ContinueLoop,
      \<lparr>env = ([CallDelete ''notes.txt''], exampleDisk),
       trace = [Call (CallDelete ''notes.txt''), Sleep 50], deferred = []\<rparr>) \<and>
   loopBody recordingServer exampleExtension ''deletelocal notes.txt'' recordingState =
     (ContinueLoop,
      \<lparr>env = ([CallDeleteLocal ''notes.txt''], exampleDisk),
       trace = [Call (CallDeleteLocal ''notes.txt''), Sleep 50], deferred = []\<rparr>) \<and>
   loopBody recordingServer exampleExtension ''deleteremote notes.txt :3001,:3002''
       recordingState =
     (ContinueLoop,
      \<lparr>env = ([CallDeleteRemote ''notes.txt'' ['':3001'', '':3002'']], exampleDisk),
       trace = [Call (CallDeleteRemote ''notes.txt'' ['':3001'', '':3002'']),
                Stdout (''Error deleting remote file: no such peer'' @ NL), Sleep 50],
       deferred = []\<rparr>)"
proof -
  have p1: "parseCommand ''store notes.txt'' = CmdStore ''notes.txt''"
    by (simp add: parseCommand_def Fields_def lowerASCII_def)
  have o1: "os_Open (snd (env startState)) ''notes.txt'' = Inr (newFile ''notes.txt'' [O_RDONLY])"
    by (simp add: startState_def exampleDisk_def os_Open_def os_OpenFile_def)
  have p2: "parseCommand ''deleteremote notes.txt :3001,:3002'' =
     CmdDeleteRemote ''notes.txt'' ['':3001'', '':3002'']"
    by (simp add: parseCommand_def Fields_def lowerASCII_def Split_def)
  have p3: "parseCommand ''frobnicate now'' = CmdUnknown"
    by (simp add: parseCommand_def Fields_def lowerASCII_def)
  have p4: "parseCommand ''QUIT'' = CmdQuit"
    by (simp add: parseCommand_def Fields_def lowerASCII_def)
  have p5: "parseCommand ''Get notes.txt'' = CmdGet ''notes.txt''"
    by (simp add: parseCommand_def Fields_def lowerASCII_def)
  have p6: "parseCommand ''delete notes.txt'' = CmdDelete ''notes.txt''"
    by (simp add: parseCommand_def Fields_def lowerASCII_def)
  have p7: "parseCommand ''deletelocal notes.txt'' = CmdDeleteLocal ''notes.txt''"
    by (simp add: parseCommand_def Fields_def lowerASCII_def)
  have p8: "parseCommand ''help quit'' = CmdHelp ''quit''"
    by (simp add: parseCommand_def Fields_def lowerASCII_def)
  have p9: "parseCommand ''   '' = CmdEmpty"
    by (simp add: parseCommand_def Fields_def)
  have hq: "helpText ''quit'' = Some (''quit'' @ NL @ '' It quits the program.'')"
    by (simp add: helpText_def)
  have t0: "callsOf (trace startState) = []"
    by (simp add: startState_def)
  have b: "Base ''notes.txt'' = ''notes.txt''"
    by (simp add: Base_def)
  note t1 = runCommandLoop_dispatch [where fs = tableServer and ge = exampleExtension
      and st = startState and line = "''store notes.txt''" and path = "''notes.txt''"]
  note t2 = runCommandLoop_dispatch [where fs = tableServer and ge = exampleExtension
      and st = startState and line = "''deleteremote notes.txt :3001,:3002''"
      and name = "''notes.txt''" and peers = "['':3001'', '':3002'']"]
  note t3 = runCommandLoop_dispatch [where fs = tableServer and ge = exampleExtension
      and st = startState and line = "''frobnicate now''"]
  note t4 = runCommandLoop_dispatch [where fs = tableServer and ge = exampleExtension
      and st = startState and line = "''QUIT''" and rest = "[''get notes'']"]
  note t5 = runCommandLoop_dispatch [where fs = tableServer and ge = exampleExtension
      and st = startState and line = "''Get notes.txt''" and name = "''notes.txt''"]
  note t6 = runCommandLoop_dispatch [where fs = tableServer and ge = exampleExtension
      and st = startState and line = "''delete notes.txt''" and name = "''notes.txt''"]
  note t7 = runCommandLoop_dispatch [where fs = tableServer and ge = exampleExtension
      and st = startState and line = "''deletelocal notes.txt''" and name = "''notes.txt''"]
  note t8 = runCommandLoop_dispatch [where fs = tableServer and ge = exampleExtension
      and st = startState and line = "''help quit''" and topic = "''quit''"]
  note t9 = runCommandLoop_dispatch [where fs = tableServer and ge = exampleExtension
      and st = "Print ''>>> '' startState" and line = "''   ''"]
  note t10 = runCommandLoop_dispatch [where fs = tableServer and ge = exampleExtension
      and st = startState and line = "''   ''" and rest = "[''QUIT'']"]
  have "callsOf (trace (snd (loopBody tableServer exampleExtension ''store notes.txt'' startState))) =
     callsOf (trace startState) @
       (case os_Open (snd (env startState)) ''notes.txt'' of
          Inl err \<Rightarrow> []
        | Inr f \<Rightarrow> [CallStore (Base ''notes.txt'') f])"
    by (rule t1 [THEN conjunct2, THEN conjunct2, THEN conjunct2, THEN conjunct2, THEN conjunct1,
        THEN mp, OF p1])
  then have r1: "callsOf (trace (snd (loopBody tableServer exampleExtension ''store notes.txt''
      startState))) = [CallStore ''notes.txt'' (newFile ''notes.txt'' [O_RDONLY])]"
    unfolding o1 t0 b by simp
  have "callsOf (trace (snd (loopBody tableServer exampleExtension
       ''deleteremote notes.txt :3001,:3002'' startState))) =
     callsOf (trace startState) @ [CallDeleteRemote ''notes.txt'' ['':3001'', '':3002'']]"
    by (rule t2 [THEN conjunct2, THEN conjunct2, THEN conjunct2, THEN conjunct2, THEN conjunct2,
        THEN conjunct2, THEN conjunct2, THEN conjunct2, THEN conjunct1, THEN mp, OF p2])
  then have r2: "callsOf (trace (snd (loopBody tableServer exampleExtension
       ''deleteremote notes.txt :3001,:3002'' startState))) =
     [CallDeleteRemote ''notes.txt'' ['':3001'', '':3002'']]"
    unfolding t0 by simp
  have r3: "loopBody tableServer exampleExtension ''frobnicate now'' startState =
     (ContinueLoop,
      emit (Sleep 50)
        (Println ''Unknown command. Supported: store, get, delete, deletelocal, quit''
           startState))"
    by (rule t3 [THEN conjunct2, THEN conjunct2, THEN conjunct2, THEN conjunct2, THEN conjunct2,
        THEN conjunct2, THEN conjunct2, THEN conjunct2, THEN conjunct2, THEN conjunct2,
        THEN conjunct2, THEN conjunct1, THEN mp, OF p3])
  have r4: "runCommandLoop tableServer exampleExtension [''QUIT'', ''get notes''] startState =
     (Returned, runDeferred (Println ''Exiting...'' (Print ''>>> '' startState)))"
    by (rule t4 [THEN conjunct2, THEN conjunct2, THEN conjunct2, THEN conjunct2, THEN conjunct2,
        THEN conjunct2, THEN conjunct2, THEN conjunct2, THEN conjunct2, THEN conjunct2,
        THEN conjunct1, THEN mp, OF p4, THEN conjunct2])
  have "callsOf (trace (snd (loopBody tableServer exampleExtension ''Get notes.txt'' startState))) =
     callsOf (trace startState) @ [CallGet ''notes.txt'']"
    by (rule t5 [THEN conjunct2, THEN conjunct2, THEN conjunct2, THEN conjunct2, THEN conjunct2,
        THEN conjunct1, THEN mp, OF p5])
  then have r5: "callsOf (trace (snd (loopBody tableServer exampleExtension ''Get notes.txt''
      startState))) = [CallGet ''notes.txt'']"
    unfolding t0 by simp
  have "callsOf (trace (snd (loopBody tableServer exampleExtension ''delete notes.txt'' startState))) =
     callsOf (trace startState) @ [CallDelete ''notes.txt'']"
    by (rule t6 [THEN conjunct2, THEN conjunct2, THEN conjunct2, THEN conjunct2, THEN conjunct2,
        THEN conjunct2, THEN conjunct1, THEN mp, OF p6])
  then have r6: "callsOf (trace (snd (loopBody tableServer exampleExtension ''delete notes.txt''
      startState))) = [CallDelete ''notes.txt'']"
    unfolding t0 by simp
  have "callsOf (trace (snd (loopBody tableServer exampleExtension ''deletelocal notes.txt''
     startState))) = callsOf (trace startState) @ [CallDeleteLocal ''notes.txt'']"
    by (rule t7 [THEN conjunct2, THEN conjunct2, THEN conjunct2, THEN conjunct2, THEN conjunct2,
        THEN conjunct2, THEN conjunct2, THEN conjunct1, THEN mp, OF p7])
  then have r7: "callsOf (trace (snd (loopBody tableServer exampleExtension ''deletelocal notes.txt''
     startState))) = [CallDeleteLocal ''notes.txt'']"
    unfolding t0 by simp
  have r8: "loopBody tableServer exampleExtension ''help quit'' startState =
     (ContinueLoop,
      Println (case helpText ''quit'' of None \<Rightarrow> [] | Some t \<Rightarrow> t) startState)"
    by (rule t8 [THEN conjunct2, THEN conjunct2, THEN conjunct2, THEN conjunct2, THEN conjunct2,
        THEN conjunct2, THEN conjunct2, THEN conjunct2, THEN conjunct2, THEN conjunct1,
        THEN mp, OF p8])
  have r9: "loopBody tableServer exampleExtension ''   '' (Print ''>>> '' startState) =
     (ContinueLoop, Print ''>>> '' startState)"
    by (rule t9 [THEN conjunct2, THEN conjunct2, THEN conjunct2, THEN conjunct1, THEN mp, OF p9])
  have r10: "runCommandLoop tableServer exampleExtension [''   '', ''QUIT''] startState =
     runCommandLoop tableServer exampleExtension [''QUIT''] (Print ''>>> '' startState)"
    by (rule t10 [THEN conjunct2, THEN conjunct2, THEN conjunct1, THEN spec, THEN mp, OF r9])
  have x0: "exitCode (fst (runCommandLoop tableServer exampleExtension [''QUIT'', ''get notes'']
     startState)) = 0"
    by (rule t4 [THEN conjunct2, THEN conjunct2, THEN conjunct2, THEN conjunct2, THEN conjunct2,
        THEN conjunct2, THEN conjunct2, THEN conjunct2, THEN conjunct2, THEN conjunct2,
        THEN conjunct2, THEN conjunct2, THEN conjunct2, THEN conjunct2, THEN conjunct2,
        THEN conjunct2, THEN conjunct2, THEN conjunct2, THEN mp, OF p4])
  have p10: "parseCommand ''store docs/notes.txt'' = CmdStore ''docs/notes.txt''"
    by (simp add: parseCommand_def Fields_def lowerASCII_def)
  have o10: "os_Open (snd (env recordingState)) ''docs/notes.txt'' =
      Inr (newFile ''docs/notes.txt'' [O_RDONLY])"
    by (simp add: recordingState_def exampleDisk_def os_Open_def os_OpenFile_def)
  have p11: "parseCommand ''store nowhere.txt'' = CmdStore ''nowhere.txt''"
    by (simp add: parseCommand_def Fields_def lowerASCII_def)
  have o11: "os_Open (snd (env recordingState)) ''nowhere.txt'' =
      Inl (PathError ''open'' ''nowhere.txt'' ''no such file or directory'')"
    by (simp add: recordingState_def exampleDisk_def os_Open_def os_OpenFile_def)
  have o10': "os_Open exampleDisk ''docs/notes.txt'' = Inr (newFile ''docs/notes.txt'' [O_RDONLY])"
    by (simp add: exampleDisk_def os_Open_def os_OpenFile_def)
  have o11': "os_Open exampleDisk ''nowhere.txt'' =
      Inl (PathError ''open'' ''nowhere.txt'' ''no such file or directory'')"
    by (simp add: exampleDisk_def os_Open_def os_OpenFile_def)
  have b10: "Base ''docs/notes.txt'' = ''notes.txt''"
    by (simp add: Base_def)
  have f10: "Fields ''store docs/notes.txt'' = [''store'', ''docs/notes.txt'']"
    by (simp add: Fields_def)
  have e0: "env recordingState = ([], exampleDisk)" "trace recordingState = []"
    "deferred recordingState = []"
    by (simp_all add: recordingState_def)
  note u1 = runCommandLoop_dispatch [where fs = recordingServer and ge = exampleExtension
      and st = recordingState and line = "''store docs/notes.txt''" and path = "''docs/notes.txt''"
      and opened = "newFile ''docs/notes.txt'' [O_RDONLY]"]
  note u2 = runCommandLoop_dispatch [where fs = recordingServer and ge = exampleExtension
      and st = recordingState and line = "''store nowhere.txt''" and path = "''nowhere.txt''"]
  note u3 = runCommandLoop_dispatch [where fs = recordingServer and ge = exampleExtension
      and st = recordingState and line = "''Get notes.txt''" and name = "''notes.txt''"]
  note u4 = runCommandLoop_dispatch [where fs = recordingServer and ge = exampleExtension
      and st = recordingState and line = "''delete notes.txt''" and name = "''notes.txt''"]
  note u5 = runCommandLoop_dispatch [where fs = recordingServer and ge = exampleExtension
      and st = recordingState and line = "''deletelocal notes.txt''" and name = "''notes.txt''"]
  note u6 = runCommandLoop_dispatch [where fs = recordingServer and ge = exampleExtension
      and st = recordingState and line = "''deleteremote notes.txt :3001,:3002''"
      and name = "''notes.txt''" and peers = "['':3001'', '':3002'']"]
  have "env (snd (loopBody recordingServer exampleExtension ''store docs/notes.txt'' recordingState)) =
      (case os_Open (snd (env recordingState)) ''docs/notes.txt'' of
         Inl err \<Rightarrow> env recordingState
       | Inr f \<Rightarrow> snd (Store recordingServer (Base ''docs/notes.txt'') f (env recordingState)))"
    by (rule u1 [THEN conjunct2, THEN conjunct2, THEN conjunct2, THEN conjunct2, THEN conjunct2,
        THEN conjunct2, THEN conjunct2, THEN conjunct2, THEN conjunct2, THEN conjunct2,
        THEN conjunct2, THEN conjunct2, THEN conjunct1, THEN mp, OF p10])
  then have x1: "env (snd (loopBody recordingServer exampleExtension ''store docs/notes.txt''
      recordingState)) =
     ([CallStore ''notes.txt'' (newFile ''docs/notes.txt'' [O_RDONLY])], exampleDisk)"
    by (simp add: o10' b10 e0 recordingServer_def)
  note v1 = u1 [THEN conjunct2, THEN conjunct2, THEN conjunct2, THEN conjunct2, THEN conjunct2,
        THEN conjunct2, THEN conjunct2, THEN conjunct2, THEN conjunct2, THEN conjunct2,
        THEN conjunct2, THEN conjunct2, THEN conjunct2, THEN conjunct1, THEN mp,
        OF conjI [OF p10 o10]]
  have "fst (loopBody recordingServer exampleExtension ''store docs/notes.txt'' recordingState) =
      ContinueLoop"
    and "trace (snd (loopBody recordingServer exampleExtension ''store docs/notes.txt''
      recordingState)) =
        trace recordingState @ [Stdout (Sprint_strings (Fields ''store docs/notes.txt'') @ NL),
          Call (CallStore (Base ''docs/notes.txt'') (newFile ''docs/notes.txt'' [O_RDONLY]))] @
          (case fst (Store recordingServer (Base ''docs/notes.txt'')
              (newFile ''docs/notes.txt'' [O_RDONLY]) (env recordingState)) of
             Some e \<Rightarrow> [Stdout (''Error storing data '' @ errorText e @ NL)]
           | None \<Rightarrow> []) @ [Sleep 2000, Sleep 50]"
    by (rule v1 [THEN conjunct1],
        rule v1 [THEN conjunct2])
  then have x1a: "fst (loopBody recordingServer exampleExtension ''store docs/notes.txt''
      recordingState) = ContinueLoop"
    and x1b: "trace (snd (loopBody recordingServer exampleExtension ''store docs/notes.txt''
      recordingState)) =
       [Stdout (''[store docs/notes.txt]'' @ NL),
        Call (CallStore ''notes.txt'' (newFile ''docs/notes.txt'' [O_RDONLY])),
        Sleep 2000, Sleep 50]"
    unfolding f10 b10 e0 by (simp_all add: recordingServer_def Sprint_strings_def)
  have x1c: "deferred (snd (loopBody recordingServer exampleExtension ''store docs/notes.txt''
      recordingState)) = [newFile ''docs/notes.txt'' [O_RDONLY]]"
    using o10
    by (simp add: loopBody_def f10 lowerASCII_def case_store_def Let_def e0 emit_fields
          Println_fields recordingServer_def split: prod.splits)
  from x1 x1a x1b x1c
  have y1: "loopBody recordingServer exampleExtension ''store docs/notes.txt'' recordingState =
     (ContinueLoop,
      \<lparr>env = ([CallStore ''notes.txt'' (newFile ''docs/notes.txt'' [O_RDONLY])], exampleDisk),
       trace = [Stdout (''[store docs/notes.txt]'' @ NL),
                Call (CallStore ''notes.txt'' (newFile ''docs/notes.txt'' [O_RDONLY])),
                Sleep 2000, Sleep 50],
       deferred = [newFile ''docs/notes.txt'' [O_RDONLY]]\<rparr>)"
    by (cases "loopBody recordingServer exampleExtension ''store docs/notes.txt'' recordingState")
       simp
  have "env (snd (loopBody recordingServer exampleExtension ''store nowhere.txt'' recordingState)) =
      (case os_Open (snd (env recordingState)) ''nowhere.txt'' of
         Inl err \<Rightarrow> env recordingState
       | Inr f \<Rightarrow> snd (Store recordingServer (Base ''nowhere.txt'') f (env recordingState)))"
    by (rule u2 [THEN conjunct2, THEN conjunct2, THEN conjunct2, THEN conjunct2, THEN conjunct2,
        THEN conjunct2, THEN conjunct2, THEN conjunct2, THEN conjunct2, THEN conjunct2,
        THEN conjunct2, THEN conjunct2, THEN conjunct1, THEN mp, OF p11])
  then have x2: "env (snd (loopBody recordingServer exampleExtension ''store nowhere.txt''
      recordingState)) = ([], exampleDisk)"
    by (simp add: o11' e0)
  have "env (snd (loopBody recordingServer exampleExtension ''Get notes.txt'' recordingState)) =
      snd (Get recordingServer ''notes.txt'' (env recordingState))"
    by (rule u3 [THEN conjunct2, THEN conjunct2, THEN conjunct2, THEN conjunct2, THEN conjunct2,
        THEN conjunct2, THEN conjunct2, THEN conjunct2, THEN conjunct2, THEN conjunct2,
        THEN conjunct2, THEN conjunct2, THEN conjunct2, THEN conjunct2, THEN conjunct1,
        THEN mp, OF p5])
  then have x3: "env (snd (loopBody recordingServer exampleExtension ''Get notes.txt''
      recordingState)) = ([CallGet ''notes.txt''], exampleDisk)"
    unfolding e0 by (simp add: recordingServer_def)
  have whole: "r = (ContinueLoop, \<lparr>env = e, trace = t, deferred = []\<rparr>)"
    if "fst r = ContinueLoop" "env (snd r) = e" "trace (snd r) = t" "deferred (snd r) = []"
    for r :: "control \<times> fsCall list ReplState" and e t
    using that by (cases r) auto
  note v4 = u4 [THEN conjunct2, THEN conjunct2, THEN conjunct2, THEN conjunct2, THEN conjunct2,
        THEN conjunct2, THEN conjunct2, THEN conjunct2, THEN conjunct2, THEN conjunct2,
        THEN conjunct2, THEN conjunct2, THEN conjunct2, THEN conjunct2, THEN conjunct2,
        THEN conjunct1, THEN mp, OF p6]
  have "fst (loopBody recordingServer exampleExtension ''delete notes.txt'' recordingState) =
      ContinueLoop"
    and "env (snd (loopBody recordingServer exampleExtension ''delete notes.txt'' recordingState)) =
      snd (Delete recordingServer ''notes.txt'' (env recordingState))"
    and "trace (snd (loopBody recordingServer exampleExtension ''delete notes.txt''
      recordingState)) =
        trace recordingState @ Call (CallDelete ''notes.txt'') #
          (case fst (Delete recordingServer ''notes.txt'' (env recordingState)) of
             Some e \<Rightarrow> [Stdout (''Error deleting file: '' @ errorText e @ NL)]
           | None \<Rightarrow> []) @ [Sleep 50]"
    by (rule v4 [THEN conjunct1],
        rule v4 [THEN conjunct2, THEN conjunct1],
        rule v4 [THEN conjunct2, THEN conjunct2])
  then have x4: "fst (loopBody recordingServer exampleExtension ''delete notes.txt''
      recordingState) = ContinueLoop"
    "env (snd (loopBody recordingServer exampleExtension ''delete notes.txt'' recordingState)) =
      ([CallDelete ''notes.txt''], exampleDisk)"
    "trace (snd (loopBody recordingServer exampleExtension ''delete notes.txt''
      recordingState)) = [Call (CallDelete ''notes.txt''), Sleep 50]"
    unfolding e0 by (simp_all add: recordingServer_def)
  have x4d: "deferred (snd (loopBody recordingServer exampleExtension ''delete notes.txt''
      recordingState)) = []"
    by (simp add: loopBody_def Fields_def lowerASCII_def case_delete_def Let_def e0 emit_fields
          Println_fields recordingServer_def split: prod.splits)
  from whole [OF x4 x4d]
  have y4: "loopBody recordingServer exampleExtension ''delete notes.txt'' recordingState =
     (ContinueLoop,
      \<lparr>env = ([CallDelete ''notes.txt''], exampleDisk),
       trace = [Call (CallDelete ''notes.txt''), Sleep 50], deferred = []\<rparr>)" .
  note v5 = u5 [THEN conjunct2, THEN conjunct2, THEN conjunct2, THEN conjunct2, THEN conjunct2,
        THEN conjunct2, THEN conjunct2, THEN conjunct2, THEN conjunct2, THEN conjunct2,
        THEN conjunct2, THEN conjunct2, THEN conjunct2, THEN conjunct2, THEN conjunct2,
        THEN conjunct2, THEN conjunct1, THEN mp, OF p7]
  have "fst (loopBody recordingServer exampleExtension ''deletelocal notes.txt'' recordingState) =
      ContinueLoop"
    and "env (snd (loopBody recordingServer exampleExtension ''deletelocal notes.txt''
      recordingState)) = snd (DeleteLocal recordingServer ''notes.txt'' (env recordingState))"
    and "trace (snd (loopBody recordingServer exampleExtension ''deletelocal notes.txt''
      recordingState)) =
        trace recordingState @ Call (CallDeleteLocal ''notes.txt'') #
          (case fst (DeleteLocal recordingServer ''notes.txt'' (env recordingState)) of
             Some e \<Rightarrow> [Stdout (''Error deleting local file: '' @ errorText e @ NL)]
           | None \<Rightarrow> []) @ [Sleep 50]"
    by (rule v5 [THEN conjunct1],
        rule v5 [THEN conjunct2, THEN conjunct1],
        rule v5 [THEN conjunct2, THEN conjunct2])
  then have x5: "fst (loopBody recordingServer exampleExtension ''deletelocal notes.txt''
      recordingState) = ContinueLoop"
    "env (snd (loopBody recordingServer exampleExtension ''deletelocal notes.txt''
      recordingState)) = ([CallDeleteLocal ''notes.txt''], exampleDisk)"
    "trace (snd (loopBody recordingServer exampleExtension ''deletelocal notes.txt''
      recordingState)) = [Call (CallDeleteLocal ''notes.txt''), Sleep 50]"
    unfolding e0 by (simp_all add: recordingServer_def)
  have x5d: "deferred (snd (loopBody recordingServer exampleExtension ''deletelocal notes.txt''
      recordingState)) = []"
    by (simp add: loopBody_def Fields_def lowerASCII_def case_deletelocal_def Let_def e0
          emit_fields Println_fields recordingServer_def split: prod.splits)
  from whole [OF x5 x5d]
  have y5: "loopBody recordingServer exampleExtension ''deletelocal notes.txt'' recordingState =
     (ContinueLoop,
      \<lparr>env = ([CallDeleteLocal ''notes.txt''], exampleDisk),
       trace = [Call (CallDeleteLocal ''notes.txt''), Sleep 50], deferred = []\<rparr>)" .
  note v6 = u6 [THEN conjunct2, THEN conjunct2, THEN conjunct2, THEN conjunct2, THEN conjunct2,
        THEN conjunct2, THEN conjunct2, THEN conjunct2, THEN conjunct2, THEN conjunct2,
        THEN conjunct2, THEN conjunct2, THEN conjunct2, THEN conjunct2, THEN conjunct2,
        THEN conjunct2, THEN conjunct2, THEN conjunct1, THEN mp, OF p2]
  have "fst (loopBody recordingServer exampleExtension ''deleteremote notes.txt :3001,:3002''
      recordingState) = ContinueLoop"
    and "env (snd (loopBody recordingServer exampleExtension ''deleteremote notes.txt :3001,:3002''
      recordingState)) =
      snd (DeleteRemote recordingServer ''notes.txt'' ['':3001'', '':3002''] (env recordingState))"
    and "trace (snd (loopBody recordingServer exampleExtension
      ''deleteremote notes.txt :3001,:3002'' recordingState)) =
        trace recordingState @ Call (CallDeleteRemote ''notes.txt'' ['':3001'', '':3002'']) #
          (case fst (DeleteRemote recordingServer ''notes.txt'' ['':3001'', '':3002'']
              (env recordingState)) of
             Some e \<Rightarrow> [Stdout (''Error deleting remote file: '' @ errorText e @ NL)]
           | None \<Rightarrow> []) @ [Sleep 50]"
    by (rule v6 [THEN conjunct1],
        rule v6 [THEN conjunct2, THEN conjunct1],
        rule v6 [THEN conjunct2, THEN conjunct2])
  then have x6: "fst (loopBody recordingServer exampleExtension
      ''deleteremote notes.txt :3001,:3002'' recordingState) = ContinueLoop"
    "env (snd (loopBody recordingServer exampleExtension ''deleteremote notes.txt :3001,:3002''
      recordingState)) = ([CallDeleteRemote ''notes.txt'' ['':3001'', '':3002'']], exampleDisk)"
    "trace (snd (loopBody recordingServer exampleExtension
      ''deleteremote notes.txt :3001,:3002'' recordingState)) =
       [Call (CallDeleteRemote ''notes.txt'' ['':3001'', '':3002'']),
        Stdout (''Error deleting remote file: no such peer'' @ NL), Sleep 50]"
    unfolding e0 by (simp_all add: recordingServer_def)
  have x6d: "deferred (snd (loopBody recordingServer exampleExtension
      ''deleteremote notes.txt :3001,:3002'' recordingState)) = []"
    by (simp add: loopBody_def Fields_def lowerASCII_def case_deleteremote_def Let_def e0
          emit_fields Println_fields recordingServer_def split: prod.splits)
  from whole [OF x6 x6d]
  have y6: "loopBody recordingServer exampleExtension ''deleteremote notes.txt :3001,:3002''
       recordingState =
     (ContinueLoop,
      \<lparr>env = ([CallDeleteRemote ''notes.txt'' ['':3001'', '':3002'']], exampleDisk),
       trace = [Call (CallDeleteRemote ''notes.txt'' ['':3001'', '':3002'']),
                Stdout (''Error deleting remote file: no such peer'' @ NL), Sleep 50],
       deferred = []\<rparr>)" .
  show ?thesis
    apply (intro conjI)
    apply (rule p1) apply (rule r1) apply (rule p5) apply (rule r5) apply (rule p6)
    apply (rule r6) apply (rule p7) apply (rule r7) apply (rule p2) apply (rule r2)
    apply (rule p8) apply (rule r8) apply (rule hq) apply (rule p3) apply (rule r3)
    apply (rule p9) apply (rule r9) apply (rule r10) apply (rule p4) apply (rule r4)
    apply (rule x0) apply (rule p10) apply (rule o10) apply (rule x1) apply (rule y1)
    apply (rule p11) apply (rule x2) apply (rule x3) apply (rule y4) apply (rule y5)
    apply (rule y6)
    done
qed

subsection \<open>The command loop: the key of a stored file\<close>

lemma storedKeys_append: "storedKeys (xs @ ys) = storedKeys xs @ storedKeys ys"
  by (induction xs rule: storedKeys.induct) simp_all

lemma store_calls:
  assumes "parseCommand line = CmdStore path" and "os_Open (snd (env st)) path = Inr f"
  shows "callsOf (trace (snd (loopBody fs ge line st))) =
           callsOf (trace st) @ [CallStore (Base path) f]"
proof -
  from parseCommand_store [OF assms(1)] obtain word
    where f: "Fields line = [word, path]" and w: "ToLower word = ''store''" by blast
  show ?thesis
    unfolding loopBody_store [OF f w] callsOf_pause callsOf_case_store using assms(2) by simp
qed

lemma store_applied:
  assumes "parseCommand line = CmdStore path" and "os_Open (snd (env st)) path = Inr f"
  shows "env (snd (loopBody fs ge line st)) = snd (Store fs (Base path) f (env st))"
proof -
  from parseCommand_store [OF assms(1)] obtain word
    where f: "Fields line = [word, path]" and w: "ToLower word = ''store''" by blast
  show ?thesis
    unfolding loopBody_store [OF f w] env_pause env_case_store using assms(2) by simp
qed

text \<open>
  C8. When a line is the command \<open>store <path>\<close> and the file opens, the loop calls
  \<open>Store\<close> exactly once, with the base name of the path as the key and the opened file
  as the data: the server and the disk after the command are what \<open>Store\<close>, applied to
  that key and that file, leaves. So two such commands whose paths have the same base
  name pass the same key: the second is \<open>Store\<close> applied to the key of the first, and
  whatever function of the key the server computes as the fingerprint has the same value
  for both.
\<close>

theorem store_key_is_base_name:
  "(parseCommand line = CmdStore path \<and> os_Open (snd (env st)) path = Inr f \<longrightarrow>
      callsOf (trace (snd (loopBody fs ge line st))) =
        callsOf (trace st) @ [CallStore (Base path) f] \<and>
      storedKeys (callsOf (trace (snd (loopBody fs ge line st)))) =
        storedKeys (callsOf (trace st)) @ [Base path] \<and>
      env (snd (loopBody fs ge line st)) = snd (Store fs (Base path) f (env st))) \<and>
   (parseCommand line = CmdStore path \<and> os_Open (snd (env st)) path = Inr f \<and>
    parseCommand line' = CmdStore path' \<and> os_Open (snd (env st')) path' = Inr f' \<and>
    Base path = Base path' \<longrightarrow>
      last (storedKeys (callsOf (trace (snd (loopBody fs ge line st))))) =
      last (storedKeys (callsOf (trace (snd (loopBody fs ge line' st'))))) \<and>
      fingerprint (last (storedKeys (callsOf (trace (snd (loopBody fs ge line st)))))) =
      fingerprint (last (storedKeys (callsOf (trace (snd (loopBody fs ge line' st')))))) \<and>
      env (snd (loopBody fs ge line' st')) = snd (Store fs (Base path) f' (env st')))"
proof -
  have one: "callsOf (trace (snd (loopBody fs ge l s))) = callsOf (trace s) @ [CallStore (Base p) g] \<and>
      storedKeys (callsOf (trace (snd (loopBody fs ge l s)))) =
        storedKeys (callsOf (trace s)) @ [Base p] \<and>
      env (snd (loopBody fs ge l s)) = snd (Store fs (Base p) g (env s))"
    if "parseCommand l = CmdStore p" and "os_Open (snd (env s)) p = Inr g" for l p s g
    using store_calls [OF that, of fs ge] store_applied [OF that, of fs ge]
    by (simp add: storedKeys_append)
  have two: "last (storedKeys (callsOf (trace (snd (loopBody fs ge line st))))) =
      last (storedKeys (callsOf (trace (snd (loopBody fs ge line' st'))))) \<and>
      fingerprint (last (storedKeys (callsOf (trace (snd (loopBody fs ge line st)))))) =
      fingerprint (last (storedKeys (callsOf (trace (snd (loopBody fs ge line' st')))))) \<and>
      env (snd (loopBody fs ge line' st')) = snd (Store fs (Base path) f' (env st'))"
    if "parseCommand line = CmdStore path" "os_Open (snd (env st)) path = Inr f"
      "parseCommand line' = CmdStore path'" "os_Open (snd (env st')) path' = Inr f'"
      "Base path = Base path'"
  proof -
    from one [OF that(1,2)]
    have k1: "storedKeys (callsOf (trace (snd (loopBody fs ge line st)))) =
        storedKeys (callsOf (trace st)) @ [Base path]" by blast
    from one [OF that(3,4)]
    have k2: "storedKeys (callsOf (trace (snd (loopBody fs ge line' st')))) =
        storedKeys (callsOf (trace st')) @ [Base path']"
      and e2: "env (snd (loopBody fs ge line' st')) = snd (Store fs (Base path') f' (env st'))"
      by blast+
    show ?thesis unfolding k1 k2 e2 using that(5) by simp
  qed
  show ?thesis
  proof (intro conjI impI)
    assume "parseCommand line = CmdStore path \<and> os_Open (snd (env st)) path = Inr f"
    then have h: "parseCommand line = CmdStore path" "os_Open (snd (env st)) path = Inr f"
      by blast+
    from one [OF h]
    show "callsOf (trace (snd (loopBody fs ge line st))) =
        callsOf (trace st) @ [CallStore (Base path) f]"
      and "storedKeys (callsOf (trace (snd (loopBody fs ge line st)))) =
        storedKeys (callsOf (trace st)) @ [Base path]"
      and "env (snd (loopBody fs ge line st)) = snd (Store fs (Base path) f (env st))"
      by blast+
  next
    assume "parseCommand line = CmdStore path \<and> os_Open (snd (env st)) path = Inr f \<and>
      parseCommand line' = CmdStore path' \<and> os_Open (snd (env st')) path' = Inr f' \<and>
      Base path = Base path'"
    then have h: "parseCommand line = CmdStore path" "os_Open (snd (env st)) path = Inr f"
      "parseCommand line' = CmdStore path'" "os_Open (snd (env st')) path' = Inr f'"
      "Base path = Base path'"
      by blast+
    from two [OF h]
    show "last (storedKeys (callsOf (trace (snd (loopBody fs ge line st))))) =
      last (storedKeys (callsOf (trace (snd (loopBody fs ge line' st')))))"
      and "fingerprint (last (storedKeys (callsOf (trace (snd (loopBody fs ge line st)))))) =
      fingerprint (last (storedKeys (callsOf (trace (snd (loopBody fs ge line' st'))))))"
      and "env (snd (loopBody fs ge line' st')) = snd (Store fs (Base path) f' (env st'))"
      by blast+
  qed
qed

theorem store_key_is_base_name_witness:
  "parseCommand ''store notes.txt'' = CmdStore ''notes.txt'' \<and>
   os_Open (snd (env recordingState)) ''notes.txt'' = Inr (newFile ''notes.txt'' [O_RDONLY]) \<and>
   parseCommand ''store docs/notes.txt'' = CmdStore ''docs/notes.txt'' \<and>
   os_Open (snd (env recordingState)) ''docs/notes.txt'' =
     Inr (newFile ''docs/notes.txt'' [O_RDONLY]) \<and>
   Base ''notes.txt'' = Base ''docs/notes.txt'' \<and>
   ''notes.txt'' \<noteq> ''docs/notes.txt'' \<and>
   storedKeys (callsOf (trace (snd (loopBody recordingServer exampleExtension
     ''store notes.txt'' recordingState)))) = [''notes.txt''] \<and>
   storedKeys (callsOf (trace (snd (loopBody recordingServer exampleExtension
     ''store docs/notes.txt'' recordingState)))) = [''notes.txt''] \<and>
   env (snd (loopBody recordingServer exampleExtension ''store notes.txt'' recordingState)) =
     ([CallStore ''notes.txt'' (newFile ''notes.txt'' [O_RDONLY])], exampleDisk) \<and>
   last (storedKeys (callsOf (trace (snd (loopBody recordingServer exampleExtension
     ''store notes.txt'' recordingState))))) =
   last (storedKeys (callsOf (trace (snd (loopBody recordingServer exampleExtension
     ''store docs/notes.txt'' recordingState))))) \<and>
   length (last (storedKeys (callsOf (trace (snd (loopBody recordingServer exampleExtension
     ''store notes.txt'' recordingState)))))) =
   length (last (storedKeys (callsOf (trace (snd (loopBody recordingServer exampleExtension
     ''store docs/notes.txt'' recordingState)))))) \<and>
   env (snd (loopBody recordingServer exampleExtension ''store docs/notes.txt''
     recordingState)) =
     ([CallStore ''notes.txt'' (newFile ''docs/notes.txt'' [O_RDONLY])], exampleDisk) \<and>
   os_Open (snd (env startState)) ''docs/notes.txt'' =
     Inr (newFile ''docs/notes.txt'' [O_RDONLY]) \<and>
   env (snd (loopBody tableServer exampleExtension ''store docs/notes.txt'' startState)) =
     ([''notes.txt'' \<mapsto> ''other text''], exampleDisk)"
proof -
  have p1: "parseCommand ''store notes.txt'' = CmdStore ''notes.txt''"
    by (simp add: parseCommand_def Fields_def lowerASCII_def)
  have o1: "os_Open (snd (env recordingState)) ''notes.txt'' =
      Inr (newFile ''notes.txt'' [O_RDONLY])"
    by (simp add: recordingState_def exampleDisk_def os_Open_def os_OpenFile_def)
  have p2: "parseCommand ''store docs/notes.txt'' = CmdStore ''docs/notes.txt''"
    by (simp add: parseCommand_def Fields_def lowerASCII_def)
  have o2: "os_Open (snd (env recordingState)) ''docs/notes.txt'' =
      Inr (newFile ''docs/notes.txt'' [O_RDONLY])"
    by (simp add: recordingState_def exampleDisk_def os_Open_def os_OpenFile_def)
  have o3: "os_Open (snd (env startState)) ''docs/notes.txt'' =
      Inr (newFile ''docs/notes.txt'' [O_RDONLY])"
    by (simp add: startState_def exampleDisk_def os_Open_def os_OpenFile_def)
  have b: "Base ''notes.txt'' = ''notes.txt''" "Base ''docs/notes.txt'' = ''notes.txt''"
    by (simp_all add: Base_def)
  have t0: "callsOf (trace recordingState) = []" "env recordingState = ([], exampleDisk)"
    by (simp_all add: recordingState_def)
  have d: "''notes.txt'' \<noteq> ''docs/notes.txt''" by simp
  have e: "Base ''notes.txt'' = Base ''docs/notes.txt''"
    unfolding b ..
  note t1 = store_key_is_base_name [where fs = recordingServer and ge = exampleExtension
      and st = recordingState and line = "''store notes.txt''" and path = "''notes.txt''"
      and f = "newFile ''notes.txt'' [O_RDONLY]", THEN conjunct1, THEN mp, OF conjI [OF p1 o1]]
  note t2 = store_key_is_base_name [where fs = recordingServer and ge = exampleExtension
      and st = recordingState and line = "''store docs/notes.txt''" and path = "''docs/notes.txt''"
      and f = "newFile ''docs/notes.txt'' [O_RDONLY]", THEN conjunct1, THEN mp,
      OF conjI [OF p2 o2]]
  note t3 = store_key_is_base_name [where fs = recordingServer and ge = exampleExtension
      and st = recordingState and line = "''store notes.txt''" and path = "''notes.txt''"
      and f = "newFile ''notes.txt'' [O_RDONLY]"
      and st' = recordingState and line' = "''store docs/notes.txt''"
      and path' = "''docs/notes.txt''"
      and f' = "newFile ''docs/notes.txt'' [O_RDONLY]" and fingerprint = length,
      THEN conjunct2, THEN mp, OF conjI [OF p1 conjI [OF o1 conjI [OF p2 conjI [OF o2 e]]]]]
  note t4 = store_key_is_base_name [where fs = tableServer and ge = exampleExtension
      and st = startState and line = "''store docs/notes.txt''" and path = "''docs/notes.txt''"
      and f = "newFile ''docs/notes.txt'' [O_RDONLY]", THEN conjunct1, THEN mp,
      OF conjI [OF p2 o3]]
  from t1 [THEN conjunct2, THEN conjunct1]
  have r1: "storedKeys (callsOf (trace (snd (loopBody recordingServer exampleExtension
     ''store notes.txt'' recordingState)))) = [''notes.txt'']"
    unfolding t0 b by simp
  from t2 [THEN conjunct2, THEN conjunct1]
  have r2: "storedKeys (callsOf (trace (snd (loopBody recordingServer exampleExtension
     ''store docs/notes.txt'' recordingState)))) = [''notes.txt'']"
    unfolding t0 b by simp
  from t1 [THEN conjunct2, THEN conjunct2]
  have r3: "env (snd (loopBody recordingServer exampleExtension ''store notes.txt''
      recordingState)) = ([CallStore ''notes.txt'' (newFile ''notes.txt'' [O_RDONLY])], exampleDisk)"
    by (simp add: t0 b recordingServer_def)
  have r4: "last (storedKeys (callsOf (trace (snd (loopBody recordingServer exampleExtension
       ''store notes.txt'' recordingState))))) =
     last (storedKeys (callsOf (trace (snd (loopBody recordingServer exampleExtension
       ''store docs/notes.txt'' recordingState)))))"
    by (rule t3 [THEN conjunct1])
  have r5: "length (last (storedKeys (callsOf (trace (snd (loopBody recordingServer
       exampleExtension ''store notes.txt'' recordingState)))))) =
     length (last (storedKeys (callsOf (trace (snd (loopBody recordingServer exampleExtension
       ''store docs/notes.txt'' recordingState))))))"
    by (rule t3 [THEN conjunct2, THEN conjunct1])
  from t3 [THEN conjunct2, THEN conjunct2]
  have r6: "env (snd (loopBody recordingServer exampleExtension ''store docs/notes.txt''
      recordingState)) =
     ([CallStore ''notes.txt'' (newFile ''docs/notes.txt'' [O_RDONLY])], exampleDisk)"
    by (simp add: t0 b recordingServer_def)
  from t4 [THEN conjunct2, THEN conjunct2]
  have r7: "env (snd (loopBody tableServer exampleExtension ''store docs/notes.txt''
      startState)) = ([''notes.txt'' \<mapsto> ''other text''], exampleDisk)"
    by (simp add: b startState_def tableServer_def fileBytes_def newFile_def exampleDisk_def)
  show ?thesis
    apply (intro conjI)
    apply (rule p1) apply (rule o1) apply (rule p2) apply (rule o2) apply (rule e)
    apply (rule d) apply (rule r1) apply (rule r2) apply (rule r3) apply (rule r4)
    apply (rule r5) apply (rule r6) apply (rule o3) apply (rule r7)
    done
qed

subsection \<open>The command loop: get reads the reader whatever Get returned\<close>

lemma get_body:
  assumes "parseCommand line = CmdGet name" and "ge name = []"
    and "Get fs name (env st) = ((rd, loc, err), env')"
  shows "trace (snd (loopBody fs ge line st)) =
           trace st @
             [Call (CallGet name),
              Stdout (case err of
                        Some e \<Rightarrow> ''Error getting file: '' @ errorText e @ NL
                      | None \<Rightarrow> ''File stored at: '' @ loc @ NL),
              ReadAll rd] @
             (case io_ReadAll rd of
                None \<Rightarrow> []
              | Some (bytes, Some e) \<Rightarrow> [LogOutput (''Error reading data '' @ errorText e)]
              | Some (bytes, None) \<Rightarrow> [Stdout (bytes @ NL), Sleep 50])"
    and "fst (loopBody fs ge line st) =
           (case io_ReadAll rd of
              None \<Rightarrow> Panic
            | Some (bytes, Some e) \<Rightarrow> Exit 1
            | Some (bytes, None) \<Rightarrow> ContinueLoop)"
proof -
  from parseCommand_get [OF assms(1)] obtain word
    where f: "Fields line = [word, name]" and w: "ToLower word = ''get''" by blast
  have c: "case_get fs ge [word, name] st =
     (let st3 = (case err of
                   Some e \<Rightarrow> Println (''Error getting file: '' @ errorText e)
                     ((emit (Call (CallGet name)) st)\<lparr>env := env'\<rparr>)
                 | None \<Rightarrow> Println (''File stored at: '' @ loc)
                     ((emit (Call (CallGet name)) st)\<lparr>env := env'\<rparr>));
          st4 = emit (ReadAll rd) st3
      in case io_ReadAll rd of
           None \<Rightarrow> (Panic, st4)
         | Some (n, Some e) \<Rightarrow>
             (Exit 1, emit (LogOutput (''Error reading data '' @ errorText e)) st4)
         | Some (n, None) \<Rightarrow> (EndSwitch, Println n st4))"
    using assms(2,3) by (simp add: case_get_def Let_def emit_fields)
  show "trace (snd (loopBody fs ge line st)) =
           trace st @
             [Call (CallGet name),
              Stdout (case err of
                        Some e \<Rightarrow> ''Error getting file: '' @ errorText e @ NL
                      | None \<Rightarrow> ''File stored at: '' @ loc @ NL),
              ReadAll rd] @
             (case io_ReadAll rd of
                None \<Rightarrow> []
              | Some (bytes, Some e) \<Rightarrow> [LogOutput (''Error reading data '' @ errorText e)]
              | Some (bytes, None) \<Rightarrow> [Stdout (bytes @ NL), Sleep 50])"
    unfolding loopBody_get [OF f w] c
    by (simp add: Let_def emit_fields Println_fields split: option.splits prod.splits)
  show "fst (loopBody fs ge line st) =
           (case io_ReadAll rd of
              None \<Rightarrow> Panic
            | Some (bytes, Some e) \<Rightarrow> Exit 1
            | Some (bytes, None) \<Rightarrow> ContinueLoop)"
    unfolding loopBody_get [OF f w] c
    by (simp add: Let_def split: option.splits prod.splits)
qed

text \<open>
  C9. When a line is the command \<open>get <name>\<close> and the name has no extension, the loop
  calls \<open>io.ReadAll\<close> on the reader that \<open>Get\<close> returned, right after it has printed the
  error or the location: an error from \<open>Get\<close> does not skip the read. When that read
  fails, the loop logs \<open>Error reading data\<close> with the error and the process exits with
  status 1: the remaining lines are not read and the deferred calls do not run.
\<close>

theorem get_reads_after_error:
  "(parseCommand line = CmdGet name \<and> ge name = [] \<and>
    Get fs name (env st) = ((rd, loc, err), env') \<longrightarrow>
      (\<exists>tail. trace (snd (loopBody fs ge line st)) =
         trace st @
           [Call (CallGet name),
            Stdout (case err of
                      Some e \<Rightarrow> ''Error getting file: '' @ errorText e @ NL
                    | None \<Rightarrow> ''File stored at: '' @ loc @ NL),
            ReadAll rd] @ tail)) \<and>
   (parseCommand line = CmdGet name \<and> ge name = [] \<and>
    Get fs name (env st) = ((rd, loc, err), env') \<and>
    io_ReadAll rd = Some (bytes, Some readErr) \<longrightarrow>
      fst (loopBody fs ge line st) = Exit 1 \<and>
      last (trace (snd (loopBody fs ge line st))) =
        LogOutput (''Error reading data '' @ errorText readErr) \<and>
      runCommandLoop fs ge (line # rest) st =
        (Exited 1, snd (loopBody fs ge line (Print ''>>> '' st))))"
proof -
  have a: "\<exists>tail. trace (snd (loopBody fs ge line st)) =
         trace st @
           [Call (CallGet name),
            Stdout (case err of
                      Some e \<Rightarrow> ''Error getting file: '' @ errorText e @ NL
                    | None \<Rightarrow> ''File stored at: '' @ loc @ NL),
            ReadAll rd] @ tail"
    if "parseCommand line = CmdGet name" "ge name = []"
      "Get fs name (env st) = ((rd, loc, err), env')"
    using get_body(1) [where ge = ge and fs = fs, OF that] by blast
  have b: "fst (loopBody fs ge line st) = Exit 1 \<and>
      last (trace (snd (loopBody fs ge line st))) =
        LogOutput (''Error reading data '' @ errorText readErr) \<and>
      runCommandLoop fs ge (line # rest) st =
        (Exited 1, snd (loopBody fs ge line (Print ''>>> '' st)))"
    if h: "parseCommand line = CmdGet name" "ge name = []"
      "Get fs name (env st) = ((rd, loc, err), env')"
      and r: "io_ReadAll rd = Some (bytes, Some readErr)"
  proof -
    from get_body(2) [where ge = ge and fs = fs, OF h] r have x: "fst (loopBody fs ge line st) = Exit 1" by simp
    from get_body(1) [where ge = ge and fs = fs, OF h] r
    have l: "last (trace (snd (loopBody fs ge line st))) =
        LogOutput (''Error reading data '' @ errorText readErr)" by simp
    from h(3) have h': "Get fs name (env (Print ''>>> '' st)) = ((rd, loc, err), env')"
      by (simp add: Print_fields)
    from get_body(2) [where ge = ge and fs = fs, OF h(1,2) h'] r
    have "fst (loopBody fs ge line (Print ''>>> '' st)) = Exit 1" by simp
    then have "runCommandLoop fs ge (line # rest) st =
        (Exited 1, snd (loopBody fs ge line (Print ''>>> '' st)))"
      by (cases "loopBody fs ge line (Print ''>>> '' st)") simp
    with x l show ?thesis by blast
  qed
  from a b show ?thesis by blast
qed

theorem get_reads_after_error_witness:
  "parseCommand ''get notes'' = CmdGet ''notes'' \<and>
   exampleExtension ''notes'' = [] \<and>
   Get brokenServer ''notes'' (env startStateBroken) =
     ((Reader ''par'' (Some (ServerError ''connection reset'')), [],
       Some (ServerError ''peer timeout'')), env startStateBroken) \<and>
   io_ReadAll (Reader ''par'' (Some (ServerError ''connection reset''))) =
     Some (''par'', Some (ServerError ''connection reset'')) \<and>
   (\<exists>tail. trace (snd (loopBody brokenServer exampleExtension ''get notes'' startStateBroken)) =
      trace startStateBroken @
        [Call (CallGet ''notes''),
         Stdout (''Error getting file: peer timeout'' @ NL),
         ReadAll (Reader ''par'' (Some (ServerError ''connection reset'')))] @ tail) \<and>
   fst (loopBody brokenServer exampleExtension ''get notes'' startStateBroken) = Exit 1 \<and>
   last (trace (snd (loopBody brokenServer exampleExtension ''get notes'' startStateBroken))) =
     LogOutput ''Error reading data connection reset'' \<and>
   fst (runCommandLoop brokenServer exampleExtension [''get notes'', ''quit''] startStateBroken) =
     Exited 1"
proof -
  have p: "parseCommand ''get notes'' = CmdGet ''notes''"
    by (simp add: parseCommand_def Fields_def lowerASCII_def)
  have x: "exampleExtension ''notes'' = []"
    by (simp add: exampleExtension_def)
  have g: "Get brokenServer ''notes'' (env startStateBroken) =
     ((Reader ''par'' (Some (ServerError ''connection reset'')), [],
       Some (ServerError ''peer timeout'')), env startStateBroken)"
    by (simp add: brokenServer_def)
  have r: "io_ReadAll (Reader ''par'' (Some (ServerError ''connection reset''))) =
     Some (''par'', Some (ServerError ''connection reset''))"
    by simp
  note t = get_reads_after_error [where fs = brokenServer and ge = exampleExtension
      and st = startStateBroken and line = "''get notes''" and name = "''notes''"
      and rd = "Reader ''par'' (Some (ServerError ''connection reset''))" and loc = "[]"
      and err = "Some (ServerError ''peer timeout'')" and env' = "env startStateBroken"
      and bytes = "''par''" and readErr = "ServerError ''connection reset''"
      and rest = "[''quit'']"]
  from t p x g r
  have c1: "\<exists>tail. trace (snd (loopBody brokenServer exampleExtension ''get notes'' startStateBroken)) =
      trace startStateBroken @
        [Call (CallGet ''notes''),
         Stdout (''Error getting file: peer timeout'' @ NL),
         ReadAll (Reader ''par'' (Some (ServerError ''connection reset'')))] @ tail"
    by simp
  from t p x g r
  have c2: "fst (loopBody brokenServer exampleExtension ''get notes'' startStateBroken) = Exit 1"
    by blast
  from t p x g r
  have c3: "last (trace (snd (loopBody brokenServer exampleExtension ''get notes'' startStateBroken))) =
     LogOutput ''Error reading data connection reset''"
    by simp
  from t p x g r
  have c4: "fst (runCommandLoop brokenServer exampleExtension [''get notes'', ''quit''] startStateBroken) =
     Exited 1"
    by simp
  from p x g r c1 c2 c3 c4 show ?thesis by blast
qed

subsection \<open>The command loop: malformed commands\<close>

lemma malformed_store:
  "Fields line = word # operands \<Longrightarrow> ToLower word = ''store'' \<Longrightarrow> length operands \<noteq> 1 \<Longrightarrow>
   loopBody fs ge line st =
     (ContinueLoop,
      st\<lparr>trace := trace st @ [Stdout (Sprint_strings (Fields line) @ NL)] @
         [Stdout (''Usage: '' @ ''store <file-path>'' @ NL)]\<rparr>)"
  by (simp add: loopBody_store case_store_def Let_def Println_def emit_def)

lemma malformed_get:
  "Fields line = word # operands \<Longrightarrow> ToLower word = ''get'' \<Longrightarrow> length operands \<noteq> 1 \<Longrightarrow>
   loopBody fs ge line st =
     (ContinueLoop, st\<lparr>trace := trace st @ [] @ [Stdout (''Usage: '' @ ''get <filename>'' @ NL)]\<rparr>)"
  by (simp add: loopBody_get case_get_def Let_def Println_def emit_def)

lemma malformed_delete:
  "Fields line = word # operands \<Longrightarrow> ToLower word = ''delete'' \<Longrightarrow> length operands \<noteq> 1 \<Longrightarrow>
   loopBody fs ge line st =
     (ContinueLoop, st\<lparr>trace := trace st @ [] @ [Stdout (''Usage: '' @ ''delete <filename>'' @ NL)]\<rparr>)"
  by (simp add: loopBody_delete case_delete_def Let_def Println_def emit_def)

lemma malformed_deletelocal:
  "Fields line = word # operands \<Longrightarrow> ToLower word = ''deletelocal'' \<Longrightarrow>
   length operands \<noteq> 1 \<Longrightarrow>
   loopBody fs ge line st =
     (ContinueLoop,
      st\<lparr>trace := trace st @ [] @ [Stdout (''Usage: '' @ ''deletelocal <filename>'' @ NL)]\<rparr>)"
  by (simp add: loopBody_deletelocal case_deletelocal_def Let_def Println_def emit_def)

lemma malformed_deleteremote:
  "Fields line = word # operands \<Longrightarrow> ToLower word = ''deleteremote'' \<Longrightarrow>
   length operands \<noteq> 2 \<Longrightarrow>
   loopBody fs ge line st =
     (ContinueLoop,
      st\<lparr>trace := trace st @ [] @
        [Stdout (''Usage: '' @
           ''deleteremote <filename> <peer list separated by comma (ip:port)>'' @ NL)]\<rparr>)"
  by (simp add: loopBody_deleteremote case_deleteremote_def Let_def Println_def emit_def)

lemma malformed_help:
  "Fields line = word # operands \<Longrightarrow> ToLower word = ''help'' \<Longrightarrow> length operands \<noteq> 1 \<Longrightarrow>
   loopBody fs ge line st =
     (ContinueLoop, st\<lparr>trace := trace st @ [] @ [Stdout (''Usage: '' @ ''help <command>'' @ NL)]\<rparr>)"
  by (simp add: loopBody_help case_help_def Println_def emit_def)

lemma malformed_usage:
  assumes "parseCommand line = CmdMalformed cmd" and "cmd \<noteq> ''quit''"
  shows "\<exists>text. loopBody fs ge line st =
     (ContinueLoop,
      st\<lparr>trace := trace st @
        (if cmd = ''store'' then [Stdout (Sprint_strings (Fields line) @ NL)] else []) @
        [Stdout (''Usage: '' @ text @ NL)]\<rparr>)"
proof -
  from parseCommand_malformed [OF assms(1)] obtain word operands
    where f: "Fields line = word # operands" and w: "ToLower word = cmd"
      and c: "cmd = ''store'' \<and> length operands \<noteq> 1 \<or>
              cmd = ''get'' \<and> length operands \<noteq> 1 \<or>
              cmd = ''delete'' \<and> length operands \<noteq> 1 \<or>
              cmd = ''deletelocal'' \<and> length operands \<noteq> 1 \<or>
              cmd = ''deleteremote'' \<and> length operands \<noteq> 2 \<or>
              cmd = ''help'' \<and> length operands \<noteq> 1 \<or>
              cmd = ''quit'' \<and> length operands \<noteq> 0"
    by blast
  from c show ?thesis
  proof (elim disjE conjE)
    assume k: "cmd = ''store''" and n: "length operands \<noteq> 1"
    from w k have w': "ToLower word = ''store''" by simp
    have "loopBody fs ge line st =
     (ContinueLoop,
      st\<lparr>trace := trace st @
        (if cmd = ''store'' then [Stdout (Sprint_strings (Fields line) @ NL)] else []) @
        [Stdout (''Usage: '' @ ''store <file-path>'' @ NL)]\<rparr>)"
      unfolding malformed_store [OF f w' n] k by simp
    then show ?thesis ..
  next
    assume k: "cmd = ''get''" and n: "length operands \<noteq> 1"
    from w k have w': "ToLower word = ''get''" by simp
    have "loopBody fs ge line st =
     (ContinueLoop,
      st\<lparr>trace := trace st @
        (if cmd = ''store'' then [Stdout (Sprint_strings (Fields line) @ NL)] else []) @
        [Stdout (''Usage: '' @ ''get <filename>'' @ NL)]\<rparr>)"
      unfolding malformed_get [OF f w' n] k by simp
    then show ?thesis ..
  next
    assume k: "cmd = ''delete''" and n: "length operands \<noteq> 1"
    from w k have w': "ToLower word = ''delete''" by simp
    have "loopBody fs ge line st =
     (ContinueLoop,
      st\<lparr>trace := trace st @
        (if cmd = ''store'' then [Stdout (Sprint_strings (Fields line) @ NL)] else []) @
        [Stdout (''Usage: '' @ ''delete <filename>'' @ NL)]\<rparr>)"
      unfolding malformed_delete [OF f w' n] k by simp
    then show ?thesis ..
  next
    assume k: "cmd = ''deletelocal''" and n: "length operands \<noteq> 1"
    from w k have w': "ToLower word = ''deletelocal''" by simp
    have "loopBody fs ge line st =
     (ContinueLoop,
      st\<lparr>trace := trace st @
        (if cmd = ''store'' then [Stdout (Sprint_strings (Fields line) @ NL)] else []) @
        [Stdout (''Usage: '' @ ''deletelocal <filename>'' @ NL)]\<rparr>)"
      unfolding malformed_deletelocal [OF f w' n] k by simp
    then show ?thesis ..
  next
    assume k: "cmd = ''deleteremote''" and n: "length operands \<noteq> 2"
    from w k have w': "ToLower word = ''deleteremote''" by simp
    have "loopBody fs ge line st =
     (ContinueLoop,
      st\<lparr>trace := trace st @
        (if cmd = ''store'' then [Stdout (Sprint_strings (Fields line) @ NL)] else []) @
        [Stdout (''Usage: '' @
           ''deleteremote <filename> <peer list separated by comma (ip:port)>'' @ NL)]\<rparr>)"
      unfolding malformed_deleteremote [OF f w' n] k by simp
    then show ?thesis ..
  next
    assume k: "cmd = ''help''" and n: "length operands \<noteq> 1"
    from w k have w': "ToLower word = ''help''" by simp
    have "loopBody fs ge line st =
     (ContinueLoop,
      st\<lparr>trace := trace st @
        (if cmd = ''store'' then [Stdout (Sprint_strings (Fields line) @ NL)] else []) @
        [Stdout (''Usage: '' @ ''help <command>'' @ NL)]\<rparr>)"
      unfolding malformed_help [OF f w' n] k by simp
    then show ?thesis ..
  next
    assume "cmd = ''quit''"
    with assms(2) show ?thesis by simp
  qed
qed

text \<open>
  C10, as the code has it. When \<open>store\<close>, \<open>get\<close>, \<open>delete\<close>, \<open>deletelocal\<close>,
  \<open>deleteremote\<close> or \<open>help\<close> is given the wrong number of arguments, the loop prints a
  line that starts with \<open>Usage: \<close> (after the echo of the fields, for \<open>store\<close>), calls no
  method of the file server, leaves the server, the disk and the deferred calls as they
  were, and goes on with the next prompt. \<open>quit\<close> checks no arguments: with arguments it
  does what \<open>quit\<close> does, and calls no method of the file server either.
\<close>

theorem malformed_command_no_call:
  "(parseCommand line = CmdMalformed cmd \<and> cmd \<noteq> ''quit'' \<longrightarrow>
      (\<exists>text. loopBody fs ge line st =
         (ContinueLoop,
          st\<lparr>trace := trace st @
            (if cmd = ''store'' then [Stdout (Sprint_strings (Fields line) @ NL)] else []) @
            [Stdout (''Usage: '' @ text @ NL)]\<rparr>)) \<and>
      callsOf (trace (snd (loopBody fs ge line st))) = callsOf (trace st) \<and>
      env (snd (loopBody fs ge line st)) = env st \<and>
      deferred (snd (loopBody fs ge line st)) = deferred st \<and>
      runCommandLoop fs ge (line # rest) st =
        runCommandLoop fs ge rest (snd (loopBody fs ge line (Print ''>>> '' st)))) \<and>
   (parseCommand line = CmdMalformed ''quit'' \<longrightarrow>
      loopBody fs ge line st = (Return, Println ''Exiting...'' st) \<and>
      callsOf (trace (snd (loopBody fs ge line st))) = callsOf (trace st) \<and>
      env (snd (loopBody fs ge line st)) = env st)"
proof -
  have a: "(\<exists>text. loopBody fs ge line st =
         (ContinueLoop,
          st\<lparr>trace := trace st @
            (if cmd = ''store'' then [Stdout (Sprint_strings (Fields line) @ NL)] else []) @
            [Stdout (''Usage: '' @ text @ NL)]\<rparr>)) \<and>
      callsOf (trace (snd (loopBody fs ge line st))) = callsOf (trace st) \<and>
      env (snd (loopBody fs ge line st)) = env st \<and>
      deferred (snd (loopBody fs ge line st)) = deferred st \<and>
      runCommandLoop fs ge (line # rest) st =
        runCommandLoop fs ge rest (snd (loopBody fs ge line (Print ''>>> '' st)))"
    if m: "parseCommand line = CmdMalformed cmd" and q: "cmd \<noteq> ''quit''"
  proof -
    from malformed_usage [OF m q, of fs ge st] obtain usage
      where b: "loopBody fs ge line st =
         (ContinueLoop,
          st\<lparr>trace := trace st @
            (if cmd = ''store'' then [Stdout (Sprint_strings (Fields line) @ NL)] else []) @
            [Stdout (''Usage: '' @ usage @ NL)]\<rparr>)" by blast
    from malformed_usage [OF m q, of fs ge "Print ''>>> '' st"]
    have b': "fst (loopBody fs ge line (Print ''>>> '' st)) = ContinueLoop" by auto
    have c: "callsOf (trace (snd (loopBody fs ge line st))) = callsOf (trace st)"
      unfolding b by (simp add: callsOf_append)
    have e: "env (snd (loopBody fs ge line st)) = env st"
      unfolding b by simp
    have d: "deferred (snd (loopBody fs ge line st)) = deferred st"
      unfolding b by simp
    from b' have r: "runCommandLoop fs ge (line # rest) st =
        runCommandLoop fs ge rest (snd (loopBody fs ge line (Print ''>>> '' st)))"
      by (cases "loopBody fs ge line (Print ''>>> '' st)") simp
    from b c e d r show ?thesis by blast
  qed
  have b: "loopBody fs ge line st = (Return, Println ''Exiting...'' st) \<and>
      callsOf (trace (snd (loopBody fs ge line st))) = callsOf (trace st) \<and>
      env (snd (loopBody fs ge line st)) = env st"
    if m: "parseCommand line = CmdMalformed ''quit''"
  proof -
    from parseCommand_malformed [OF m] obtain word operands
      where f: "Fields line = word # operands" and w: "ToLower word = ''quit''" by blast
    show ?thesis
      unfolding loopBody_quit [OF f w] by (simp add: Println_fields callsOf_append)
  qed
  from a b show ?thesis by blast
qed

theorem malformed_command_no_call_witness:
  "parseCommand ''store'' = CmdMalformed ''store'' \<and> ''store'' \<noteq> ''quit'' \<and>
   parseCommand ''deleteremote notes.txt'' = CmdMalformed ''deleteremote'' \<and>
   ''deleteremote'' \<noteq> ''quit'' \<and>
   (\<exists>text. loopBody tableServer exampleExtension ''store'' startState =
      (ContinueLoop,
       startState\<lparr>trace := [Stdout (''[store]'' @ NL), Stdout (''Usage: '' @ text @ NL)]\<rparr>)) \<and>
   (\<exists>text. loopBody tableServer exampleExtension ''deleteremote notes.txt'' startState =
      (ContinueLoop, startState\<lparr>trace := [Stdout (''Usage: '' @ text @ NL)]\<rparr>)) \<and>
   env (snd (loopBody tableServer exampleExtension ''deleteremote notes.txt'' startState)) =
     env startState \<and>
   callsOf (trace (snd (loopBody tableServer exampleExtension ''deleteremote notes.txt''
     startState))) = [] \<and>
   runCommandLoop tableServer exampleExtension [''deleteremote notes.txt'', ''quit''] startState =
     runCommandLoop tableServer exampleExtension [''quit'']
       (snd (loopBody tableServer exampleExtension ''deleteremote notes.txt''
          (Print ''>>> '' startState))) \<and>
   parseCommand ''quit now'' = CmdMalformed ''quit'' \<and>
   loopBody tableServer exampleExtension ''quit now'' startState =
     (Return, Println ''Exiting...'' startState) \<and>
   env (snd (loopBody tableServer exampleExtension ''quit now'' startState)) = env startState"
proof -
  have p1: "parseCommand ''store'' = CmdMalformed ''store''"
    by (simp add: parseCommand_def Fields_def lowerASCII_def)
  have p2: "parseCommand ''deleteremote notes.txt'' = CmdMalformed ''deleteremote''"
    by (simp add: parseCommand_def Fields_def lowerASCII_def)
  have n1: "''store'' \<noteq> ''quit''" and n2: "''deleteremote'' \<noteq> ''quit''"
    by simp_all
  have f1: "Sprint_strings (Fields ''store'') = ''[store]''"
    by (simp add: Sprint_strings_def Fields_def)
  have t0: "trace startState = []" "callsOf (trace startState) = []"
    by (simp_all add: startState_def)
  note t1 = malformed_command_no_call [where fs = tableServer and ge = exampleExtension
      and st = startState and line = "''store''" and cmd = "''store''"]
  note t2 = malformed_command_no_call [where fs = tableServer and ge = exampleExtension
      and st = startState and line = "''deleteremote notes.txt''" and cmd = "''deleteremote''"
      and rest = "[''quit'']"]
  from t1 p1 n1
  have "\<exists>text. loopBody tableServer exampleExtension ''store'' startState =
      (ContinueLoop,
       startState\<lparr>trace := trace startState @
         (if ''store'' = ''store'' then [Stdout (Sprint_strings (Fields ''store'') @ NL)] else []) @
         [Stdout (''Usage: '' @ text @ NL)]\<rparr>)"
    by blast
  then have r1: "\<exists>text. loopBody tableServer exampleExtension ''store'' startState =
      (ContinueLoop,
       startState\<lparr>trace := [Stdout (''[store]'' @ NL), Stdout (''Usage: '' @ text @ NL)]\<rparr>)"
    unfolding f1 t0 by simp
  from t2 p2 n2
  have "\<exists>text. loopBody tableServer exampleExtension ''deleteremote notes.txt'' startState =
      (ContinueLoop,
       startState\<lparr>trace := trace startState @
         (if ''deleteremote'' = ''store''
          then [Stdout (Sprint_strings (Fields ''deleteremote notes.txt'') @ NL)] else []) @
         [Stdout (''Usage: '' @ text @ NL)]\<rparr>)"
    by blast
  then have r2: "\<exists>text. loopBody tableServer exampleExtension ''deleteremote notes.txt'' startState =
      (ContinueLoop, startState\<lparr>trace := [Stdout (''Usage: '' @ text @ NL)]\<rparr>)"
    unfolding t0 by simp
  from t2 p2 n2
  have r3: "env (snd (loopBody tableServer exampleExtension ''deleteremote notes.txt'' startState)) =
     env startState"
    by blast
  from t2 p2 n2
  have "callsOf (trace (snd (loopBody tableServer exampleExtension ''deleteremote notes.txt''
     startState))) = callsOf (trace startState)"
    by blast
  then have r4: "callsOf (trace (snd (loopBody tableServer exampleExtension ''deleteremote notes.txt''
     startState))) = []"
    by (simp add: t0)
  from t2 p2 n2
  have r5: "runCommandLoop tableServer exampleExtension [''deleteremote notes.txt'', ''quit'']
       startState =
     runCommandLoop tableServer exampleExtension [''quit'']
       (snd (loopBody tableServer exampleExtension ''deleteremote notes.txt''
          (Print ''>>> '' startState)))"
    by blast
  have p3: "parseCommand ''quit now'' = CmdMalformed ''quit''"
    by (simp add: parseCommand_def Fields_def lowerASCII_def)
  note t3 = malformed_command_no_call [where fs = tableServer and ge = exampleExtension
      and st = startState and line = "''quit now''"]
  from t3 p3
  have r6: "loopBody tableServer exampleExtension ''quit now'' startState =
     (Return, Println ''Exiting...'' startState)"
    and r7: "env (snd (loopBody tableServer exampleExtension ''quit now'' startState)) =
     env startState"
    by blast+
  from p1 n1 p2 n2 r1 r2 r3 r4 r5 p3 r6 r7 show ?thesis by blast
qed

text \<open>
  The claim as the spec words it fails for \<open>quit\<close>: given an argument it takes none of,
  the loop prints no usage line and does not go back to the prompt; it returns, and the
  line after it is never read.
\<close>

theorem malformed_quit_counterexample:
  "parseCommand ''quit now'' = CmdMalformed ''quit'' \<and>
   runCommandLoop tableServer exampleExtension [''quit now'', ''store notes.txt''] startState =
     (Returned, startState\<lparr>trace := [Stdout ''>>> '', Stdout (''Exiting...'' @ NL)]\<rparr>)"
proof -
  have p: "parseCommand ''quit now'' = CmdMalformed ''quit''"
    by (simp add: parseCommand_def Fields_def lowerASCII_def)
  have f: "Fields ''quit now'' = [''quit'', ''now'']"
    by (simp add: Fields_def)
  have w: "ToLower ''quit'' = ''quit''"
    by (simp add: lowerASCII_def)
  have "runCommandLoop tableServer exampleExtension [''quit now'', ''store notes.txt''] startState =
     (Returned, startState\<lparr>trace := [Stdout ''>>> '', Stdout (''Exiting...'' @ NL)]\<rparr>)"
    by (simp add: loopBody_quit [OF f w] runDeferred_def Println_def Print_def emit_def
          startState_def)
  with p show ?thesis by simp
qed

subsection \<open>The audit logger\<close>

lemma lineCount_append: "lineCount (s @ t) = lineCount s + lineCount t"
  by (simp add: lineCount_def)

lemma lineCount_none: "CHR 0x0A \<notin> set s \<Longrightarrow> lineCount s = 0"
  by (induction s) (auto simp: lineCount_def)

lemma lineCount_separator: "lineCount '' | '' = 0"
  by (simp add: lineCount_def)

lemma lineCount_NL: "lineCount NL = 1"
  by (simp add: lineCount_def NL_def)

lemma WriteString_append:
  "\<not> isClosed f \<Longrightarrow> canWrite f \<Longrightarrow> appendMode f \<Longrightarrow>
   WriteString f s fs =
     ((length s, None),
      f\<lparr>position := length (fileText fs (fileName f)) + length s\<rparr>,
      fs\<lparr>contents := (contents fs)(fileName f \<mapsto> fileText fs (fileName f) @ s)\<rparr>)"
  by (simp add: WriteString_def fileText_def Let_def)

lemma WriteString_closed:
  "isClosed f \<Longrightarrow>
   WriteString f s fs =
     ((0, Some (PathError ''write'' (fileName f) ''file already closed'')), f, fs)"
  by (simp add: WriteString_def)

lemma Log_ready:
  assumes "readyLogger a"
  shows "Log a now opn filekey peer status (fs, out) =
     Some (a\<lparr>logFile := (logFile a)\<lparr>position :=
               length (fileText fs (fileName (logFile a))) +
               length (now @ '' | '' @ opn @ '' | '' @ filekey @ '' | '' @ peer @ '' | '' @ status @ NL)\<rparr>\<rparr>,
           fs\<lparr>contents := (contents fs)(fileName (logFile a) \<mapsto>
               fileText fs (fileName (logFile a)) @
               now @ '' | '' @ opn @ '' | '' @ filekey @ '' | '' @ peer @ '' | '' @ status @ NL)\<rparr>,
           out)"
proof -
  from assms have m: "mu a = Unlocked" and f: "\<not> isClosed (logFile a)" "canWrite (logFile a)"
    "appendMode (logFile a)" by (simp_all add: readyLogger_def)
  have r: "a\<lparr>mu := Locked, logFile := g, mu := Unlocked\<rparr> = a\<lparr>logFile := g\<rparr>" for g
    using m by (cases a) simp
  show ?thesis
    unfolding Log_def m
    by (simp add: WriteString_append [OF f] r Let_def)
qed

lemma Log_closed:
  assumes "mu a = Unlocked" and "isClosed (logFile a)"
  shows "Log a now opn filekey peer status (fs, out) =
     Some (a, fs,
       out @ [Stdout (''Error writing to log file: '' @
          errorText (PathError ''write'' (fileName (logFile a)) ''file already closed'') @ NL)])"
proof -
  have r: "a\<lparr>mu := Unlocked\<rparr> = a"
    using assms(1) by (cases a) simp
  show ?thesis
    unfolding Log_def assms(1)
    by (simp add: WriteString_closed [OF assms(2)] r Let_def)
qed

lemma simpleNewAuditLogger_ok:
  assumes "simpleNewAuditLogger now name fs = (Inr a, fs')"
  shows "readyLogger a \<and> \<not> canRead (logFile a) \<and>
         fileName (logFile a) = name \<and> logFilePath a = name \<and>
         \<not> denied fs name \<and>
         fs' = fs\<lparr>contents := (contents fs)(name \<mapsto>
                 fileText fs name @ ''['' @ now @ ''] LOGGING STARTED....'' @ NL @ NL)\<rparr>"
proof -
  have n1: "\<not> denied fs name"
    using assms by (auto simp: simpleNewAuditLogger_def os_OpenFile_def split: if_splits)
  let ?fd = "newFile name [O_APPEND, O_CREATE, O_WRONLY]"
  have fd: "\<not> isClosed ?fd" "canWrite ?fd" "appendMode ?fd" "fileName ?fd = name"
    by (simp_all add: newFile_def)
  obtain fs1 where o: "os_OpenFile fs name [O_APPEND, O_CREATE, O_WRONLY] 0x1A4 = (Inr ?fd, fs1)"
    and c1: "fileText fs1 name = fileText fs name"
    and e1: "fs1\<lparr>contents := (contents fs1)(name \<mapsto> x)\<rparr> = fs\<lparr>contents := (contents fs)(name \<mapsto> x)\<rparr>"
    for x
    using n1 by (cases "contents fs name") (auto simp: os_OpenFile_def fileText_def)
  let ?s1 = "''['' @ now @ ''] LOGGING STARTED....'' @ NL"
  let ?fd1 = "?fd\<lparr>position := length (fileText fs1 name) + length ?s1\<rparr>"
  let ?fs2 = "fs1\<lparr>contents := (contents fs1)(name \<mapsto> fileText fs1 name @ ?s1)\<rparr>"
  have w1: "WriteString ?fd ?s1 fs1 = ((length ?s1, None), ?fd1, ?fs2)"
    using WriteString_append [OF fd(1,2,3), of ?s1 fs1] fd(4) by simp
  have fd1: "\<not> isClosed ?fd1" "canWrite ?fd1" "appendMode ?fd1" "fileName ?fd1 = name"
    by (simp_all add: newFile_def)
  have t2: "fileText ?fs2 name = fileText fs1 name @ ?s1"
    by (simp add: fileText_def)
  let ?fd2 = "?fd1\<lparr>position := length (fileText ?fs2 name) + length NL\<rparr>"
  let ?fs3 = "?fs2\<lparr>contents := (contents ?fs2)(name \<mapsto> fileText ?fs2 name @ NL)\<rparr>"
  have w2: "WriteString ?fd1 NL ?fs2 = ((length NL, None), ?fd2, ?fs3)"
    using WriteString_append [OF fd1(1,2,3), of NL ?fs2] fd1(4) by simp
  have r: "simpleNewAuditLogger now name fs =
      (Inr \<lparr>mu = Unlocked, logFile = ?fd2, logFilePath = name\<rparr>, ?fs3)"
    unfolding simpleNewAuditLogger_def o prod.case sum.case Let_def w1 w2 ..
  with assms have a: "a = \<lparr>mu = Unlocked, logFile = ?fd2, logFilePath = name\<rparr>"
    and f: "fs' = ?fs3" by simp_all
  have "?fs3 = fs1\<lparr>contents := (contents fs1)(name \<mapsto> (fileText fs1 name @ ?s1) @ NL)\<rparr>"
    by (simp add: fileText_def)
  also have "\<dots> = fs\<lparr>contents := (contents fs)(name \<mapsto> (fileText fs1 name @ ?s1) @ NL)\<rparr>"
    by (rule e1)
  also have "\<dots> = fs\<lparr>contents := (contents fs)(name \<mapsto>
                 fileText fs name @ ''['' @ now @ ''] LOGGING STARTED....'' @ NL @ NL)\<rparr>"
    by (simp add: c1)
  finally have "?fs3 = fs\<lparr>contents := (contents fs)(name \<mapsto>
                 fileText fs name @ ''['' @ now @ ''] LOGGING STARTED....'' @ NL @ NL)\<rparr>" .
  with a f n1 show ?thesis by (simp add: readyLogger_def newFile_def)
qed

lemma entry_one_line:
  assumes "CHR 0x0A \<notin> set now \<union> set opn \<union> set filekey \<union> set peer \<union> set status"
  shows "lineCount (now @ '' | '' @ opn @ '' | '' @ filekey @ '' | '' @ peer @ '' | '' @ status @ NL) = 1"
proof -
  from assms have "lineCount now = 0" "lineCount opn = 0" "lineCount filekey = 0"
    "lineCount peer = 0" "lineCount status = 0"
    by (simp_all add: lineCount_none)
  then show ?thesis
    by (simp only: lineCount_append lineCount_separator lineCount_NL)
qed

text \<open>Interleaved calls: the mutex is held by one call at a time.\<close>

lemma filter_update_length:
  "i < length xs \<Longrightarrow>
   length (filter P (xs[i := y])) + (if P (xs ! i) then 1 else 0) =
   length (filter P xs) + (if P y then 1 else 0)"
proof (induction xs arbitrary: i)
  case Nil
  then show ?case by simp
next
  case (Cons x xs)
  then show ?case by (cases i) auto
qed

lemma exclusive_length:
  "exclusive calls a \<longleftrightarrow>
     (mu a = Unlocked \<longrightarrow> length (holders calls) = 0) \<and>
     (mu a = Locked \<longrightarrow> length (holders calls) = 1)"
  by (cases "mu a") (simp_all add: exclusive_def)

lemma logStep_cases:
  assumes "logStep c (a, fs, out) = Some (c', (a', fs', out'))"
  obtains
    (locking) "pc c = AtLock" "mu a = Unlocked" "c' = c\<lparr>pc := AtWrite\<rparr>" "a' = a\<lparr>mu := Locked\<rparr>"
      "fs' = fs" "out' = out"
  | (writing) "pc c = AtWrite" "c' = c\<lparr>pc := AtUnlock\<rparr>"
      "a' = a\<lparr>logFile := fst (snd (WriteString (logFile a)
          (argNow c @ '' | '' @ argOp c @ '' | '' @ argKey c @ '' | '' @ argPeer c @ '' | ''
             @ argStatus c @ NL) fs))\<rparr>"
      "fs' = snd (snd (WriteString (logFile a)
          (argNow c @ '' | '' @ argOp c @ '' | '' @ argKey c @ '' | '' @ argPeer c @ '' | ''
             @ argStatus c @ NL) fs))"
  | (unlocking) "pc c = AtUnlock" "c' = c\<lparr>pc := AtReturn\<rparr>" "a' = a\<lparr>mu := Unlocked\<rparr>"
      "fs' = fs" "out' = out"
proof (cases "pc c")
  case AtLock
  with assms locking show ?thesis
    by (cases "mu a") (simp_all add: logStep_def)
next
  case AtWrite
  with assms writing show ?thesis
    by (simp add: logStep_def Let_def split_def)
next
  case AtUnlock
  with assms unlocking show ?thesis
    by (simp add: logStep_def)
next
  case AtReturn
  with assms show ?thesis by (simp add: logStep_def)
qed

lemma logStep_exclusive:
  assumes e: "exclusive calls a" and i: "i < length calls"
    and s: "logStep (calls ! i) (a, fs, out) = Some (c', (a', fs', out'))"
  shows "exclusive (calls[i := c']) a'"
proof -
  let ?H = "\<lambda>c. pc c = AtWrite \<or> pc c = AtUnlock"
  have u: "length (holders (calls[i := c'])) + (if ?H (calls ! i) then 1 else 0) =
           length (holders calls) + (if ?H c' then 1 else 0)"
    unfolding holders_def by (rule filter_update_length [OF i])
  from s show ?thesis
  proof (cases rule: logStep_cases)
    case locking
    with e u show ?thesis by (simp add: exclusive_length)
  next
    case writing
    with e u show ?thesis by (cases "mu a") (simp_all add: exclusive_length)
  next
    case unlocking
    with e u show ?thesis by (cases "mu a") (simp_all add: exclusive_length)
  qed
qed

lemma runCalls_exclusive:
  "exclusive (fst cfg) (fst (snd cfg)) \<Longrightarrow>
   exclusive (fst (runCalls schedule cfg)) (fst (snd (runCalls schedule cfg)))"
proof (induction schedule arbitrary: cfg)
  case Nil
  then show ?case by simp
next
  case (Cons i schedule)
  obtain calls a fs out where cfg: "cfg = (calls, (a, fs, out))"
    by (cases cfg) auto
  show ?case
  proof (cases "i < length calls")
    case False
    with Cons cfg show ?thesis by simp
  next
    case True
    show ?thesis
    proof (cases "logStep (calls ! i) (a, fs, out)")
      case None
      with True Cons cfg show ?thesis by simp
    next
      case (Some r)
      obtain c' a' fs' out' where r: "r = (c', (a', fs', out'))"
        by (cases r) auto
      from Cons.prems cfg have "exclusive calls a" by simp
      from logStep_exclusive [OF this True Some [unfolded r]]
      have "exclusive (fst (calls[i := c'], (a', fs', out'))) (fst (snd (calls[i := c'], (a', fs', out'))))"
        by simp
      from Cons.IH [OF this] True Some r cfg show ?thesis by simp
    qed
  qed
qed

text \<open>Interleaved calls: every write adds one line.\<close>

lemma list_all_update:
  "list_all P xs \<Longrightarrow> P y \<Longrightarrow> list_all P (xs[i := y])"
proof (induction xs arbitrary: i)
  case Nil
  then show ?case by simp
next
  case (Cons x xs)
  then show ?case by (cases i) auto
qed

lemma logStep_linesAdded:
  assumes l: "linesAdded (calls, (a, fs, out)) before base" and i: "i < length calls"
    and s: "logStep (calls ! i) (a, fs, out) = Some (c', (a', fs', out'))"
  shows "linesAdded (calls[i := c'], (a', fs', out')) before base"
proof -
  let ?W = "\<lambda>c. pc c = AtUnlock \<or> pc c = AtReturn"
  let ?c = "calls ! i"
  let ?entry = "argNow ?c @ '' | '' @ argOp ?c @ '' | '' @ argKey ?c @ '' | '' @ argPeer ?c @ '' | ''
             @ argStatus ?c @ NL"
  from l have o: "openForAppend a" and al: "list_all oneLineArgs calls"
    and n: "lineCount (fileText fs (fileName (logFile a))) + before = base + length (written calls)"
    by (simp_all add: linesAdded_def)
  from o have f: "\<not> isClosed (logFile a)" "canWrite (logFile a)" "appendMode (logFile a)"
    by (simp_all add: openForAppend_def)
  from al i have one: "oneLineArgs ?c"
    by (simp add: list_all_length)
  have u: "length (written (calls[i := c'])) + (if ?W ?c then 1 else 0) =
           length (written calls) + (if ?W c' then 1 else 0)"
    unfolding written_def by (rule filter_update_length [OF i])
  from s show ?thesis
  proof (cases rule: logStep_cases)
    case locking
    from locking(3) one have oc: "oneLineArgs c'" by (simp add: oneLineArgs_def)
    have "list_all oneLineArgs (calls[i := c'])" by (rule list_all_update [OF al oc])
    moreover from o locking have "openForAppend a'" by (simp add: openForAppend_def)
    moreover from u locking have "length (written (calls[i := c'])) = length (written calls)" by simp
    ultimately show ?thesis using n locking by (simp add: linesAdded_def)
  next
    case writing
    from writing(2) one have oc: "oneLineArgs c'" by (simp add: oneLineArgs_def)
    have a1: "list_all oneLineArgs (calls[i := c'])" by (rule list_all_update [OF al oc])
    note w = WriteString_append [OF f, of ?entry fs]
    from writing(3) w f have a2: "openForAppend a'" and nm: "fileName (logFile a') = fileName (logFile a)"
      by (simp_all add: openForAppend_def)
    from writing(4) w have "fileText fs' (fileName (logFile a)) = fileText fs (fileName (logFile a)) @ ?entry"
      by (simp add: fileText_def)
    moreover from one have "lineCount ?entry = 1"
      unfolding oneLineArgs_def by (rule entry_one_line)
    ultimately have a3: "lineCount (fileText fs' (fileName (logFile a'))) =
        lineCount (fileText fs (fileName (logFile a))) + 1"
      unfolding nm by (simp only: lineCount_append)
    from u writing have "length (written (calls[i := c'])) = length (written calls) + 1" by simp
    with a1 a2 a3 n show ?thesis by (simp add: linesAdded_def)
  next
    case unlocking
    from unlocking(2) one have oc: "oneLineArgs c'" by (simp add: oneLineArgs_def)
    have "list_all oneLineArgs (calls[i := c'])" by (rule list_all_update [OF al oc])
    moreover from o unlocking have "openForAppend a'" by (simp add: openForAppend_def)
    moreover from u unlocking have "length (written (calls[i := c'])) = length (written calls)" by simp
    ultimately show ?thesis using n unlocking by (simp add: linesAdded_def)
  qed
qed

lemma runCalls_linesAdded:
  "linesAdded cfg before base \<Longrightarrow> linesAdded (runCalls schedule cfg) before base"
proof (induction schedule arbitrary: cfg)
  case Nil
  then show ?case by simp
next
  case (Cons i schedule)
  obtain calls a fs out where cfg: "cfg = (calls, (a, fs, out))"
    by (cases cfg) auto
  show ?case
  proof (cases "i < length calls")
    case False
    with Cons cfg show ?thesis by simp
  next
    case True
    show ?thesis
    proof (cases "logStep (calls ! i) (a, fs, out)")
      case None
      with True Cons cfg show ?thesis by simp
    next
      case (Some r)
      obtain c' a' fs' out' where r: "r = (c', (a', fs', out'))"
        by (cases r) auto
      from Cons.prems cfg have "linesAdded (calls, (a, fs, out)) before base" by simp
      from logStep_linesAdded [OF this True Some [unfolded r]]
      have "linesAdded (calls[i := c'], (a', fs', out')) before base" .
      from Cons.IH [OF this] True Some r cfg show ?thesis by simp
    qed
  qed
qed

lemma runCalls_logger_file:
  "fileName (logFile (fst (snd (runCalls schedule cfg)))) = fileName (logFile (fst (snd cfg))) \<and>
   logFilePath (fst (snd (runCalls schedule cfg))) = logFilePath (fst (snd cfg))"
proof (induction schedule arbitrary: cfg)
  case Nil
  then show ?case by simp
next
  case (Cons i schedule)
  obtain calls a fs out where cfg: "cfg = (calls, (a, fs, out))"
    by (cases cfg) auto
  show ?case
  proof (cases "i < length calls")
    case False
    with Cons cfg show ?thesis by simp
  next
    case True
    show ?thesis
    proof (cases "logStep (calls ! i) (a, fs, out)")
      case None
      with True Cons cfg show ?thesis by simp
    next
      case (Some r)
      obtain c' a' fs' out' where r: "r = (c', (a', fs', out'))"
        by (cases r) auto
      from Some [unfolded r]
      have "fileName (logFile a') = fileName (logFile a) \<and> logFilePath a' = logFilePath a"
        by (cases rule: logStep_cases) (simp_all add: WriteString_def Let_def)
      with Cons.IH [of "(calls[i := c'], (a', fs', out'))"] True Some r cfg show ?thesis by simp
    qed
  qed
qed

text \<open>One call run alone is \<open>Log\<close>.\<close>

lemma runCalls_single:
  assumes "pc c = AtLock"
  shows "runCalls [0, 0, 0] ([c], (a, fs, out)) =
     (case Log a (argNow c) (argOp c) (argKey c) (argPeer c) (argStatus c) (fs, out) of
        None \<Rightarrow> ([c], (a, fs, out))
      | Some s' \<Rightarrow> ([c\<lparr>pc := AtReturn\<rparr>], s'))"
proof (cases "mu a")
  case Locked
  with assms show ?thesis by (simp add: logStep_def Log_def)
next
  case Unlocked
  with assms show ?thesis
    by (simp add: logStep_def Log_def Let_def split_def split: option.splits)
qed

text \<open>
  C1, as the code has it. \<open>simpleNewAuditLogger\<close> opens one file, in append, create and
  write-only mode: the file cannot be read through the logger, what it held is kept and
  the start line is put after it. On a logger that is free and whose file is open,
  every call of \<open>Log\<close> appends exactly the
  text \<open>now | op | filekey | peer | status\<close> and a line end to that file, changes no
  other file, prints nothing, and leaves the logger free and its file open, so the next
  call does the same; the text is one line when none of its five parts contains a line
  end. The write is made with the mutex taken and the mutex is released afterwards; a
  call on a held mutex does not proceed. After \<open>Close\<close> a call appends nothing: the write
  fails and the failure is printed. When several calls run interleaved, step by step in
  any order, at most one of them is between its \<open>Lock\<close> and its \<open>Unlock\<close> at any time, and
  the file has one line more for each call that has done its write; a call that runs
  alone through its three steps does what \<open>Log\<close> does.
\<close>

theorem Log_appends_entry:
  "(readyLogger a \<longrightarrow>
      (\<exists>a'. Log a now opn filekey peer status (fs, out) =
         Some (a',
               fs\<lparr>contents := (contents fs)(fileName (logFile a) \<mapsto>
                  fileText fs (fileName (logFile a)) @
                  now @ '' | '' @ opn @ '' | '' @ filekey @ '' | '' @ peer @ '' | '' @ status @ NL)\<rparr>,
               out) \<and>
         readyLogger a' \<and> fileName (logFile a') = fileName (logFile a) \<and>
         logFilePath a' = logFilePath a)) \<and>
   (CHR 0x0A \<notin> set now \<union> set opn \<union> set filekey \<union> set peer \<union> set status \<longrightarrow>
      lineCount (now @ '' | '' @ opn @ '' | '' @ filekey @ '' | '' @ peer @ '' | '' @ status @ NL) = 1) \<and>
   (simpleNewAuditLogger now name fs = (Inr a, fs') \<longrightarrow>
      readyLogger a \<and> \<not> canRead (logFile a) \<and>
      fileName (logFile a) = name \<and> logFilePath a = name \<and>
      fs' = fs\<lparr>contents := (contents fs)(name \<mapsto>
              fileText fs name @ ''['' @ now @ ''] LOGGING STARTED....'' @ NL @ NL)\<rparr>) \<and>
   (mu a = Locked \<longrightarrow> Log a now opn filekey peer status (fs, out) = None) \<and>
   (mu a = Unlocked \<and> isClosed (logFile a) \<longrightarrow>
      Log a now opn filekey peer status (fs, out) =
        Some (a, fs,
          out @ [Stdout (''Error writing to log file: write '' @ fileName (logFile a) @
                   '': file already closed'' @ NL)])) \<and>
   (exclusive calls a \<longrightarrow>
      exclusive (fst (runCalls schedule (calls, (a, fs, out))))
        (fst (snd (runCalls schedule (calls, (a, fs, out))))) \<and>
      length (holders (fst (runCalls schedule (calls, (a, fs, out))))) \<le> 1) \<and>
   (openForAppend a \<and> list_all oneLineArgs calls \<longrightarrow>
      lineCount (fileText (fst (snd (snd (runCalls schedule (calls, (a, fs, out))))))
         (fileName (logFile a))) + length (written calls) =
      lineCount (fileText fs (fileName (logFile a))) +
        length (written (fst (runCalls schedule (calls, (a, fs, out)))))) \<and>
   (pc c = AtLock \<longrightarrow>
      runCalls [0, 0, 0] ([c], (a, fs, out)) =
        (case Log a (argNow c) (argOp c) (argKey c) (argPeer c) (argStatus c) (fs, out) of
           None \<Rightarrow> ([c], (a, fs, out))
         | Some s' \<Rightarrow> ([c\<lparr>pc := AtReturn\<rparr>], s')))"
proof -
  have c1: "\<exists>a'. Log a now opn filekey peer status (fs, out) =
         Some (a',
               fs\<lparr>contents := (contents fs)(fileName (logFile a) \<mapsto>
                  fileText fs (fileName (logFile a)) @
                  now @ '' | '' @ opn @ '' | '' @ filekey @ '' | '' @ peer @ '' | '' @ status @ NL)\<rparr>,
               out) \<and>
         readyLogger a' \<and> fileName (logFile a') = fileName (logFile a) \<and>
         logFilePath a' = logFilePath a"
    if r: "readyLogger a"
  proof -
    let ?a' = "a\<lparr>logFile := (logFile a)\<lparr>position :=
               length (fileText fs (fileName (logFile a))) +
               length (now @ '' | '' @ opn @ '' | '' @ filekey @ '' | '' @ peer @ '' | '' @ status @ NL)\<rparr>\<rparr>"
    from r have "readyLogger ?a'" "fileName (logFile ?a') = fileName (logFile a)"
      "logFilePath ?a' = logFilePath a"
      by (simp_all add: readyLogger_def)
    with Log_ready [OF r, of now opn filekey peer status fs out] show ?thesis by blast
  qed
  have c2: "CHR 0x0A \<notin> set now \<union> set opn \<union> set filekey \<union> set peer \<union> set status \<longrightarrow>
      lineCount (now @ '' | '' @ opn @ '' | '' @ filekey @ '' | '' @ peer @ '' | '' @ status @ NL) = 1"
    using entry_one_line [of now opn filekey peer status] by blast
  have c3: "simpleNewAuditLogger now name fs = (Inr a, fs') \<longrightarrow>
      readyLogger a \<and> \<not> canRead (logFile a) \<and>
      fileName (logFile a) = name \<and> logFilePath a = name \<and>
      fs' = fs\<lparr>contents := (contents fs)(name \<mapsto>
              fileText fs name @ ''['' @ now @ ''] LOGGING STARTED....'' @ NL @ NL)\<rparr>"
    using simpleNewAuditLogger_ok [of now name fs a fs'] by blast
  have c4: "mu a = Locked \<longrightarrow> Log a now opn filekey peer status (fs, out) = None"
    by (simp add: Log_def)
  have c5: "mu a = Unlocked \<and> isClosed (logFile a) \<longrightarrow>
      Log a now opn filekey peer status (fs, out) =
        Some (a, fs,
          out @ [Stdout (''Error writing to log file: write '' @ fileName (logFile a) @
                   '': file already closed'' @ NL)])"
    using Log_closed [of a now opn filekey peer status fs out] by simp
  have c6: "exclusive calls a \<longrightarrow>
      exclusive (fst (runCalls schedule (calls, (a, fs, out))))
        (fst (snd (runCalls schedule (calls, (a, fs, out))))) \<and>
      length (holders (fst (runCalls schedule (calls, (a, fs, out))))) \<le> 1"
  proof
    assume "exclusive calls a"
    then have "exclusive (fst (calls, (a, fs, out))) (fst (snd (calls, (a, fs, out))))" by simp
    from runCalls_exclusive [OF this, of schedule]
    have e: "exclusive (fst (runCalls schedule (calls, (a, fs, out))))
        (fst (snd (runCalls schedule (calls, (a, fs, out)))))" .
    then have "length (holders (fst (runCalls schedule (calls, (a, fs, out))))) \<le> 1"
      by (cases "mu (fst (snd (runCalls schedule (calls, (a, fs, out)))))")
         (simp_all add: exclusive_length)
    with e show "exclusive (fst (runCalls schedule (calls, (a, fs, out))))
        (fst (snd (runCalls schedule (calls, (a, fs, out))))) \<and>
      length (holders (fst (runCalls schedule (calls, (a, fs, out))))) \<le> 1" ..
  qed
  have c7: "openForAppend a \<and> list_all oneLineArgs calls \<longrightarrow>
      lineCount (fileText (fst (snd (snd (runCalls schedule (calls, (a, fs, out))))))
         (fileName (logFile a))) + length (written calls) =
      lineCount (fileText fs (fileName (logFile a))) +
        length (written (fst (runCalls schedule (calls, (a, fs, out)))))"
  proof
    assume "openForAppend a \<and> list_all oneLineArgs calls"
    then have "linesAdded (calls, (a, fs, out)) (length (written calls))
        (lineCount (fileText fs (fileName (logFile a))))"
      by (simp add: linesAdded_def)
    from runCalls_linesAdded [OF this, of schedule]
      runCalls_logger_file [of schedule "(calls, (a, fs, out))"]
    show "lineCount (fileText (fst (snd (snd (runCalls schedule (calls, (a, fs, out))))))
         (fileName (logFile a))) + length (written calls) =
      lineCount (fileText fs (fileName (logFile a))) +
        length (written (fst (runCalls schedule (calls, (a, fs, out)))))"
      by (simp add: linesAdded_def)
  qed
  have c8: "pc c = AtLock \<longrightarrow>
      runCalls [0, 0, 0] ([c], (a, fs, out)) =
        (case Log a (argNow c) (argOp c) (argKey c) (argPeer c) (argStatus c) (fs, out) of
           None \<Rightarrow> ([c], (a, fs, out))
         | Some s' \<Rightarrow> ([c\<lparr>pc := AtReturn\<rparr>], s'))"
    using runCalls_single [of c a fs out] by blast
  from c1 c2 c3 c4 c5 c6 c7 c8 show ?thesis by blast
qed

theorem Log_appends_entry_witness:
  "simpleNewAuditLogger exampleTime ''audit.log'' exampleDisk = (Inr exampleLogger, auditDisk) \<and>
   readyLogger exampleLogger \<and> logFilePath exampleLogger = ''audit.log'' \<and>
   auditDisk = exampleDisk\<lparr>contents := (contents exampleDisk)(''audit.log'' \<mapsto>
      fileText exampleDisk ''audit.log'' @ ''['' @ exampleTime @ ''] LOGGING STARTED....'' @ NL @ NL)\<rparr> \<and>
   CHR 0x0A \<notin> set exampleTime \<union> set ''STORE'' \<union> set ''e1c9a'' \<union> set '':3001'' \<union> set ''OK'' \<and>
   fileText auditDisk ''audit.log'' = ''[2026-11-01T10:00:00Z] LOGGING STARTED....'' @ NL @ NL \<and>
   (\<exists>a'. Log exampleLogger exampleTime ''STORE'' ''e1c9a'' '':3001'' ''OK'' (auditDisk, []) =
      Some (a',
            auditDisk\<lparr>contents := (contents auditDisk)(''audit.log'' \<mapsto>
              fileText auditDisk ''audit.log'' @
              exampleTime @ '' | '' @ ''STORE'' @ '' | '' @ ''e1c9a'' @ '' | '' @ '':3001'' @
              '' | '' @ ''OK'' @ NL)\<rparr>,
            []) \<and>
      readyLogger a') \<and>
   lineCount (exampleTime @ '' | '' @ ''STORE'' @ '' | '' @ ''e1c9a'' @ '' | '' @ '':3001'' @
              '' | '' @ ''OK'' @ NL) = 1 \<and>
   mu (exampleLogger\<lparr>mu := Locked\<rparr>) = Locked \<and>
   Log (exampleLogger\<lparr>mu := Locked\<rparr>) exampleTime ''STORE'' ''e1c9a'' '':3001'' ''OK''
     (auditDisk, []) = None \<and>
   mu closedLogger = Unlocked \<and> isClosed (logFile closedLogger) \<and>
   Log closedLogger exampleTime ''STORE'' ''e1c9a'' '':3001'' ''OK'' (auditDisk, []) =
     Some (closedLogger, auditDisk,
       [Stdout (''Error writing to log file: write '' @ fileName (logFile closedLogger) @
                '': file already closed'' @ NL)]) \<and>
   exclusive [callStore, callGet] exampleLogger \<and>
   length (holders (fst (runCalls [0, 1, 0, 1, 0, 1, 1, 1]
     ([callStore, callGet], (exampleLogger, auditDisk, []))))) \<le> 1 \<and>
   openForAppend exampleLogger \<and> list_all oneLineArgs [callStore, callGet] \<and>
   lineCount (fileText (fst (snd (snd (runCalls [0, 1, 0, 1, 0, 1, 1, 1]
       ([callStore, callGet], (exampleLogger, auditDisk, []))))))
     (fileName (logFile exampleLogger))) + length (written [callStore, callGet]) =
   lineCount (fileText auditDisk (fileName (logFile exampleLogger))) +
     length (written (fst (runCalls [0, 1, 0, 1, 0, 1, 1, 1]
       ([callStore, callGet], (exampleLogger, auditDisk, []))))) \<and>
   pc callStore = AtLock \<and>
   runCalls [0, 0, 0] ([callStore], (exampleLogger, auditDisk, [])) =
     (case Log exampleLogger (argNow callStore) (argOp callStore) (argKey callStore)
        (argPeer callStore) (argStatus callStore) (auditDisk, []) of
        None \<Rightarrow> ([callStore], (exampleLogger, auditDisk, []))
      | Some s' \<Rightarrow> ([callStore\<lparr>pc := AtReturn\<rparr>], s'))"
proof -
  have s: "simpleNewAuditLogger exampleTime ''audit.log'' exampleDisk = (Inr exampleLogger, auditDisk)"
    by (simp add: simpleNewAuditLogger_def os_OpenFile_def exampleDisk_def newFile_def
          WriteString_def Let_def exampleLogger_def auditDisk_def exampleTime_def NL_def)
  have n: "CHR 0x0A \<notin> set exampleTime \<union> set ''STORE'' \<union> set ''e1c9a'' \<union> set '':3001'' \<union> set ''OK''"
    by (simp add: exampleTime_def)
  have t: "fileText auditDisk ''audit.log'' = ''[2026-11-01T10:00:00Z] LOGGING STARTED....'' @ NL @ NL"
    by (simp add: fileText_def auditDisk_def)
  have f: "fileName (logFile exampleLogger) = ''audit.log''"
    by (simp add: exampleLogger_def)
  have ml: "mu (exampleLogger\<lparr>mu := Locked\<rparr>) = Locked"
    by simp
  have mc: "mu closedLogger = Unlocked" "isClosed (logFile closedLogger)"
    by (simp_all add: closedLogger_def exampleLogger_def)
  have ex: "exclusive [callStore, callGet] exampleLogger"
    by (simp add: exclusive_def holders_def callStore_def callGet_def exampleLogger_def)
  have oa: "openForAppend exampleLogger"
    by (simp add: openForAppend_def exampleLogger_def)
  have ol: "list_all oneLineArgs [callStore, callGet]"
    by (simp add: oneLineArgs_def callStore_def callGet_def exampleTime_def)
  have pcs: "pc callStore = AtLock"
    by (simp add: callStore_def)
  note th = Log_appends_entry [where a = exampleLogger and now = exampleTime and opn = "''STORE''"
      and filekey = "''e1c9a''" and peer = "'':3001''" and status = "''OK''" and fs = auditDisk
      and out = "[]" and calls = "[callStore, callGet]" and schedule = "[0, 1, 0, 1, 0, 1, 1, 1]"]
  note th_new = Log_appends_entry [where a = exampleLogger and now = exampleTime
      and name = "''audit.log''" and fs = exampleDisk and fs' = auditDisk]
  note th_locked = Log_appends_entry [where a = "exampleLogger\<lparr>mu := Locked\<rparr>"
      and now = exampleTime and opn = "''STORE''" and filekey = "''e1c9a''" and peer = "'':3001''"
      and status = "''OK''" and fs = auditDisk and out = "[]"]
  note th_closed = Log_appends_entry [where a = closedLogger
      and now = exampleTime and opn = "''STORE''" and filekey = "''e1c9a''" and peer = "'':3001''"
      and status = "''OK''" and fs = auditDisk and out = "[]"]
  note th_single = Log_appends_entry [where a = exampleLogger and fs = auditDisk and out = "[]"
      and c = callStore]
  from th_new s
  have r: "readyLogger exampleLogger" and lp: "logFilePath exampleLogger = ''audit.log''"
    and ad: "auditDisk = exampleDisk\<lparr>contents := (contents exampleDisk)(''audit.log'' \<mapsto>
      fileText exampleDisk ''audit.log'' @ ''['' @ exampleTime @ ''] LOGGING STARTED....'' @ NL @ NL)\<rparr>"
    by blast+
  from th r
  have "\<exists>a'. Log exampleLogger exampleTime ''STORE'' ''e1c9a'' '':3001'' ''OK'' (auditDisk, []) =
         Some (a',
               auditDisk\<lparr>contents := (contents auditDisk)(fileName (logFile exampleLogger) \<mapsto>
                  fileText auditDisk (fileName (logFile exampleLogger)) @
                  exampleTime @ '' | '' @ ''STORE'' @ '' | '' @ ''e1c9a'' @ '' | '' @ '':3001'' @
                  '' | '' @ ''OK'' @ NL)\<rparr>,
               []) \<and>
         readyLogger a'"
    by blast
  then have l: "\<exists>a'. Log exampleLogger exampleTime ''STORE'' ''e1c9a'' '':3001'' ''OK'' (auditDisk, []) =
      Some (a',
            auditDisk\<lparr>contents := (contents auditDisk)(''audit.log'' \<mapsto>
              fileText auditDisk ''audit.log'' @
              exampleTime @ '' | '' @ ''STORE'' @ '' | '' @ ''e1c9a'' @ '' | '' @ '':3001'' @
              '' | '' @ ''OK'' @ NL)\<rparr>,
            []) \<and>
      readyLogger a'"
    unfolding f .
  from th n
  have c: "lineCount (exampleTime @ '' | '' @ ''STORE'' @ '' | '' @ ''e1c9a'' @ '' | '' @ '':3001'' @
                  '' | '' @ ''OK'' @ NL) = 1"
    by blast
  from th_locked ml
  have lk: "Log (exampleLogger\<lparr>mu := Locked\<rparr>) exampleTime ''STORE'' ''e1c9a'' '':3001'' ''OK''
     (auditDisk, []) = None"
    by blast
  from th_closed mc
  have cl: "Log closedLogger exampleTime ''STORE'' ''e1c9a'' '':3001'' ''OK'' (auditDisk, []) =
     Some (closedLogger, auditDisk,
       [Stdout (''Error writing to log file: write '' @ fileName (logFile closedLogger) @
                '': file already closed'' @ NL)])"
    by simp
  from th ex
  have h: "length (holders (fst (runCalls [0, 1, 0, 1, 0, 1, 1, 1]
     ([callStore, callGet], (exampleLogger, auditDisk, []))))) \<le> 1"
    by blast
  from th oa ol
  have ln: "lineCount (fileText (fst (snd (snd (runCalls [0, 1, 0, 1, 0, 1, 1, 1]
       ([callStore, callGet], (exampleLogger, auditDisk, []))))))
     (fileName (logFile exampleLogger))) + length (written [callStore, callGet]) =
   lineCount (fileText auditDisk (fileName (logFile exampleLogger))) +
     length (written (fst (runCalls [0, 1, 0, 1, 0, 1, 1, 1]
       ([callStore, callGet], (exampleLogger, auditDisk, [])))))"
    by blast
  from th_single pcs
  have sg: "runCalls [0, 0, 0] ([callStore], (exampleLogger, auditDisk, [])) =
     (case Log exampleLogger (argNow callStore) (argOp callStore) (argKey callStore)
        (argPeer callStore) (argStatus callStore) (auditDisk, []) of
        None \<Rightarrow> ([callStore], (exampleLogger, auditDisk, []))
      | Some s' \<Rightarrow> ([callStore\<lparr>pc := AtReturn\<rparr>], s'))"
    by blast
  from s r lp ad n t l c ml lk mc cl ex h oa ol ln pcs sg show ?thesis by blast
qed

text \<open>
  The claim as the spec words it fails in two ways: a call after \<open>Close\<close> appends no
  line to the file, and a call whose operation contains a line end appends two lines.
\<close>

theorem Log_one_line_counterexample:
  "AuditLogger_Close exampleLogger = (None, closedLogger) \<and>
   Log closedLogger exampleTime ''STORE'' ''e1c9a'' '':3001'' ''OK'' (auditDisk, []) =
     Some (closedLogger, auditDisk,
       [Stdout (''Error writing to log file: write audit.log: file already closed'' @ NL)]) \<and>
   map_option (\<lambda>(a', fs', out'). lineCount (fileText fs' ''audit.log''))
     (Log exampleLogger exampleTime (''STORE'' @ NL @ ''as root'') ''e1c9a'' '':3001'' ''OK''
        (auditDisk, [])) =
     Some (lineCount (fileText auditDisk ''audit.log'') + 2)"
proof -
  have c: "AuditLogger_Close exampleLogger = (None, closedLogger)"
    by (simp add: AuditLogger_Close_def File_Close_def exampleLogger_def closedLogger_def)
  have m: "mu closedLogger = Unlocked" "isClosed (logFile closedLogger)"
    "fileName (logFile closedLogger) = ''audit.log''"
    by (simp_all add: closedLogger_def exampleLogger_def)
  have l: "Log closedLogger exampleTime ''STORE'' ''e1c9a'' '':3001'' ''OK'' (auditDisk, []) =
     Some (closedLogger, auditDisk,
       [Stdout (''Error writing to log file: write audit.log: file already closed'' @ NL)])"
    using Log_closed [OF m(1,2), of exampleTime "''STORE''" "''e1c9a''" "'':3001''" "''OK''"
        auditDisk "[]"] m(3) by simp
  have r: "readyLogger exampleLogger"
    by (simp add: readyLogger_def exampleLogger_def)
  have f: "fileName (logFile exampleLogger) = ''audit.log''"
    by (simp add: exampleLogger_def)
  have t: "lineCount (exampleTime @ '' | '' @ (''STORE'' @ NL @ ''as root'') @ '' | '' @ ''e1c9a'' @
      '' | '' @ '':3001'' @ '' | '' @ ''OK'' @ NL) = 2"
    by (simp add: lineCount_def exampleTime_def NL_def)
  have "map_option (\<lambda>(a', fs', out'). lineCount (fileText fs' ''audit.log''))
     (Log exampleLogger exampleTime (''STORE'' @ NL @ ''as root'') ''e1c9a'' '':3001'' ''OK''
        (auditDisk, [])) =
     Some (lineCount (fileText auditDisk ''audit.log'') + 2)"
    unfolding Log_ready [OF r] f using t
    by (simp add: fileText_def lineCount_append del: append_assoc)
  with c l show ?thesis by blast
qed

end
